(* ===== verification/Prelude.thy ===== *)
theory Prelude
  imports Complex_Main "HOL-Library.AList" "HOL-Library.Word"
begin

text \<open>
  Shared notions of the development: the collection of definitions by which concrete runs
  are evaluated, Python dictionaries as insertion-ordered association lists,
  list facts used by several components, and the generic notion of the reachable states
  of a transition system together with the interface an invariant has to meet.
\<close>

named_theorems run_defs \<open>definitions unfolded to evaluate a run of the process on concrete input\<close>

section \<open>Dictionaries\<close>

text \<open>
  A Python dictionary iterates in insertion order and an assignment to a present key keeps
  its position: that is \<open>AList.update\<close>. A dictionary is well formed when its keys are
  distinct.
\<close>

type_synonym ('k, 'v) pydict = "('k \<times> 'v) list"

definition dict_ok :: "('k, 'v) pydict \<Rightarrow> bool" where
  "dict_ok d \<longleftrightarrow> distinct (map fst d)"

definition dict_set :: "'k \<Rightarrow> 'v \<Rightarrow> ('k, 'v) pydict \<Rightarrow> ('k, 'v) pydict" where
  "dict_set k v d = AList.update k v d"

definition dict_pop :: "'k \<Rightarrow> ('k, 'v) pydict \<Rightarrow> ('k, 'v) pydict" where
  "dict_pop k d = AList.delete k d"

lemma dict_ok_Nil [simp]: "dict_ok []"
  by (simp add: dict_ok_def)

lemma dict_ok_set [simp, intro]: "dict_ok d \<Longrightarrow> dict_ok (dict_set k v d)"
  by (simp add: dict_ok_def dict_set_def distinct_update)

lemma dict_ok_pop [simp, intro]: "dict_ok d \<Longrightarrow> dict_ok (dict_pop k d)"
  by (simp add: dict_ok_def dict_pop_def distinct_delete)

lemma map_of_dict_set [simp]: "map_of (dict_set k v d) = (map_of d)(k \<mapsto> v)"
  by (simp add: dict_set_def update_conv')

lemma map_of_dict_pop [simp]: "map_of (dict_pop k d) = (map_of d)(k := None)"
  by (simp add: dict_pop_def delete_conv')

lemma length_dict_set:
  "length (dict_set k v d) = (if map_of d k = None then Suc (length d) else length d)"
  by (induction d) (auto simp: dict_set_def)

lemma keys_dict_set: "fst ` set (dict_set k v d) = insert k (fst ` set d)"
  by (simp add: dict_set_def dom_update)

lemma dict_set_absent: "map_of d k = None \<Longrightarrow> dict_set k v d = d @ [(k, v)]"
  by (induction d) (auto simp: dict_set_def)

section \<open>Lists\<close>

lemma distinct_snoc [simp]: "distinct (xs @ [x]) \<longleftrightarrow> distinct xs \<and> x \<notin> set xs"
  by auto

lemma take_snoc_le: "n \<le> length xs \<Longrightarrow> take n (xs @ [x]) = take n xs"
  by simp

lemma last_map_snoc: "last (map f xs @ [y]) = y"
  by simp

section \<open>Results\<close>

lemma map_sum_eq_Inl: "map_sum f g x = Inl y \<longleftrightarrow> (\<exists>z. x = Inl z \<and> y = f z)"
  by (cases x) auto

lemma map_sum_eq_Inr: "map_sum f g x = Inr y \<longleftrightarrow> (\<exists>z. x = Inr z \<and> y = g z)"
  by (cases x) auto

section \<open>Transition systems and their invariants\<close>

inductive reach :: "('s \<Rightarrow> bool) \<Rightarrow> ('s \<Rightarrow> 's \<Rightarrow> bool) \<Rightarrow> 's \<Rightarrow> bool"
  for init :: "'s \<Rightarrow> bool" and step :: "'s \<Rightarrow> 's \<Rightarrow> bool" where
  reach_init: "init s \<Longrightarrow> reach init step s"
| reach_step: "reach init step s \<Longrightarrow> step s t \<Longrightarrow> reach init step t"

text \<open>
  What a component owes to have an invariant: its initial states satisfy it and every step
  keeps it. The client of the interface gets it in every reachable state, and along every
  run from a state that satisfies it.
\<close>

locale invariant_system =
  fixes sys_init :: "'s \<Rightarrow> bool"
    and sys_step :: "'s \<Rightarrow> 's \<Rightarrow> bool"
    and sys_inv :: "'s \<Rightarrow> bool"
  assumes inv_init: "sys_init s \<Longrightarrow> sys_inv s"
    and inv_step: "sys_inv s \<Longrightarrow> sys_step s t \<Longrightarrow> sys_inv t"
begin

lemma reach_inv: "reach sys_init sys_step s \<Longrightarrow> sys_inv s"
  by (induction rule: reach.induct) (auto intro: inv_init inv_step)

lemma star_inv: "sys_step\<^sup>*\<^sup>* s t \<Longrightarrow> sys_inv s \<Longrightarrow> sys_inv t"
  by (induction rule: rtranclp_induct) (auto intro: inv_step)

lemma reach_star: "sys_step\<^sup>*\<^sup>* s t \<Longrightarrow> reach sys_init sys_step s \<Longrightarrow> reach sys_init sys_step t"
proof (induction rule: rtranclp_induct)
  case base
  then show ?case .
next
  case (step t u)
  then show ?case by (blast intro: reach.reach_step)
qed

end

end
