(* ===== verification/PyText.thy ===== *)
theory PyText
  imports PyVal
begin

text \<open>
  Text conversions of the Python standard library that the source relies on: \<open>int()\<close> of a
  string and of a value, \<open>str()\<close> and \<open>repr()\<close>, UTF-8 encoding and decoding, bytes
  \<open>strip()\<close>, and \<open>json.dumps\<close>. The round trips \<open>int(str(n)) = n\<close> and
  \<open>decode(encode(s)) = s\<close> are proved here and used by the components.
\<close>

section \<open>int()\<close>

text \<open>
  \<open>int\<close> of a string: surrounding white space, an optional sign, decimal digits with single
  underscores between them. Only the ASCII white space counts when the whole string is ASCII.
\<close>

fun after_digit :: "nat \<Rightarrow> string \<Rightarrow> nat option"
  and need_digit :: "nat \<Rightarrow> string \<Rightarrow> nat option" where
  "after_digit acc [] = Some acc"
| "after_digit acc (c # cs) =
     (if is_digit c then after_digit (10 * acc + digit_val c) cs
      else if c = CHR ''_'' then need_digit acc cs else None)"
| "need_digit acc [] = None"
| "need_digit acc (c # cs) =
     (if is_digit c then after_digit (10 * acc + digit_val c) cs else None)"

definition is_ascii :: "string \<Rightarrow> bool" where
  "is_ascii s \<longleftrightarrow> list_all (\<lambda>c. (of_char c :: nat) < 128) s"

definition int_space :: "string \<Rightarrow> char \<Rightarrow> bool" where
  "int_space s c \<longleftrightarrow>
     (if is_ascii s then (let n = (of_char c :: nat) in 9 \<le> n \<and> n \<le> 13 \<or> n = 32) else is_space c)"

definition int_of_str :: "string \<Rightarrow> int option" where
  "int_of_str s =
     (let t = rev (dropWhile (int_space s) (rev (dropWhile (int_space s) s)))
      in case t of
           [] \<Rightarrow> None
         | c # cs \<Rightarrow>
             if c = CHR ''-'' then map_option (\<lambda>n. - int n) (need_digit 0 cs)
             else if c = CHR ''+'' then map_option int (need_digit 0 cs)
             else map_option int (need_digit 0 t))"

lemma after_digit_append:
  "after_digit acc xs = Some n \<Longrightarrow> after_digit acc (xs @ ys) = after_digit n ys"
  "need_digit acc xs = Some n \<Longrightarrow> need_digit acc (xs @ ys) = after_digit n ys"
  by (induction acc xs and acc xs rule: after_digit_need_digit.induct) (auto split: if_splits)

lemma need_digit_show_nat: "need_digit 0 (show_nat n) = Some n"
proof (induction n rule: show_nat.induct)
  case (1 n)
  show ?case
  proof (cases "n < 10")
    case True
    then show ?thesis by (subst show_nat.simps) simp
  next
    case False
    with 1 have "need_digit 0 (show_nat (n div 10)) = Some (n div 10)" by simp
    from after_digit_append(2)[OF this, of "[digit_char (n mod 10)]"] False
    show ?thesis by (subst show_nat.simps) simp
  qed
qed

lemma show_nat_inj: "show_nat m = show_nat n \<Longrightarrow> m = n"
  by (metis need_digit_show_nat option.inject)

lemma digit_not_space: "is_digit c \<Longrightarrow> \<not> int_space s c"
  by (auto simp: is_digit_def int_space_def is_space_def Let_def)

lemma minus_not_space [simp]: "\<not> int_space s CHR ''-''"
  by (simp add: int_space_def is_space_def)

lemma dropWhile_none: "list_all (\<lambda>c. \<not> P c) s \<Longrightarrow> dropWhile P s = s"
  by (cases s) auto

lemma show_int_chars: "list_all (\<lambda>c. is_digit c \<or> c = CHR ''-'') (show_int n)"
  using show_nat_digits by (auto simp: show_int_def list_all_iff)

theorem int_of_str_show_int: "int_of_str (show_int n) = Some n"
proof -
  let ?sp = "int_space (show_int n)"
  have ns: "list_all (\<lambda>c. \<not> ?sp c) (show_int n)"
    using show_int_chars[of n] digit_not_space by (auto simp: list_all_iff)
  then have strip: "rev (dropWhile ?sp (rev (dropWhile ?sp (show_int n)))) = show_int n"
    by (simp add: dropWhile_none)
  show ?thesis
  proof (cases "n < 0")
    case True
    then show ?thesis
      unfolding int_of_str_def strip Let_def by (simp add: show_int_def need_digit_show_nat)
  next
    case False
    obtain c cs where c: "show_nat (nat n) = c # cs" by (cases "show_nat (nat n)") auto
    then have "is_digit c" using show_nat_digits[of "nat n"] by simp
    then have "c \<noteq> CHR ''-''" "c \<noteq> CHR ''+''" by (auto simp: is_digit_def)
    then show ?thesis
      using False c need_digit_show_nat[of "nat n"]
      unfolding int_of_str_def strip Let_def by (simp add: show_int_def del: need_digit.simps)
  qed
qed

lemma show_int_inj: "show_int m = show_int n \<Longrightarrow> m = n"
  by (metis int_of_str_show_int option.inject)

lemma show_int_no_bar: "CHR ''|'' \<notin> set (show_int n)"
  using show_int_chars[of n] by (auto simp: list_all_iff is_digit_def)

text \<open>\<open>int(v)\<close> of a value. The three failing classes of argument raise different exceptions.\<close>

definition trunc_rat :: "rat \<Rightarrow> int" where
  "trunc_rat r = (if r < 0 then - \<lfloor>- r\<rfloor> else \<lfloor>r\<rfloor>)"

fun py_int :: "pyval \<Rightarrow> int res" where
  "py_int (PInt n) = Inr n"
| "py_int (PBool b) = Inr (if b then 1 else 0)"
| "py_int (PFloat (FFinite r _)) = Inr (trunc_rat r)"
| "py_int (PFloat (FInf _)) = Inl (Exn OverflowError ''cannot convert float infinity to integer'')"
| "py_int (PFloat FNan) = Inl (Exn ValueError ''cannot convert float NaN to integer'')"
| "py_int (PStr s) =
     (case int_of_str s of
        Some n \<Rightarrow> Inr n
      | None \<Rightarrow> Inl (Exn ValueError (''invalid literal for int() with base 10: '' @ s)))"
| "py_int v = Inl (Exn TypeError
     (''int() argument must be a string, a bytes-like object or a real number, not '' @ py_type_name v))"

section \<open>repr() and str()\<close>

definition hex_digit :: "nat \<Rightarrow> char" where
  "hex_digit d = (if d < 10 then char_of (48 + d) else char_of (87 + d))"

definition hex2 :: "nat \<Rightarrow> string" where
  "hex2 n = [hex_digit (n div 16 mod 16), hex_digit (n mod 16)]"

definition is_printable :: "char \<Rightarrow> bool" where
  "is_printable c \<longleftrightarrow> (let n = (of_char c :: nat) in
     32 \<le> n \<and> n \<le> 126 \<or> 161 \<le> n \<and> n \<noteq> 173)"

definition repr_char :: "char \<Rightarrow> char \<Rightarrow> string" where
  "repr_char q c =
     (if c = q \<or> c = CHR 0x5C then [CHR 0x5C, c]
      else if c = CHR 0x09 then [CHR 0x5C, CHR ''t'']
      else if c = CHR 0x0A then [CHR 0x5C, CHR ''n'']
      else if c = CHR 0x0D then [CHR 0x5C, CHR ''r'']
      else if is_printable c then [c]
      else [CHR 0x5C, CHR ''x''] @ hex2 (of_char c))"

definition repr_str :: "string \<Rightarrow> string" where
  "repr_str s =
     (let q = (if CHR 0x27 \<in> set s \<and> CHR 0x22 \<notin> set s then CHR 0x22 else CHR 0x27)
      in [q] @ concat (map (repr_char q) s) @ [q])"

fun join :: "string \<Rightarrow> string list \<Rightarrow> string" where
  "join sep [] = []"
| "join sep [x] = x"
| "join sep (x # xs) = x @ sep @ join sep xs"

fun float_repr :: "pyfloat \<Rightarrow> string" where
  "float_repr (FFinite _ s) = s"
| "float_repr (FInf neg) = (if neg then ''-inf'' else ''inf'')"
| "float_repr FNan = ''nan''"

fun py_repr :: "pyval \<Rightarrow> string" where
  "py_repr PNone = ''None''"
| "py_repr (PBool b) = (if b then ''True'' else ''False'')"
| "py_repr (PInt n) = show_int n"
| "py_repr (PFloat f) = float_repr f"
| "py_repr (PStr s) = repr_str s"
| "py_repr (PList xs) = ''['' @ join '', '' (map py_repr xs) @ '']''"
| "py_repr (PDict kvs) =
     ''{'' @ join '', '' (map (\<lambda>kv. repr_str (fst kv) @ '': '' @ py_repr (snd kv)) kvs) @ ''}''"

fun py_str :: "pyval \<Rightarrow> string" where
  "py_str (PStr s) = s"
| "py_str v = py_repr v"

section \<open>UTF-8\<close>

definition utf8_char :: "char \<Rightarrow> bytes" where
  "utf8_char c = (let n = (of_char c :: nat) in
     if n < 128 then [word_of_nat n] else [word_of_nat (192 + n div 64), word_of_nat (128 + n mod 64)])"

definition utf8_encode :: "string \<Rightarrow> bytes" where
  "utf8_encode s = concat (map utf8_char s)"

text \<open>
  Decoding succeeds on the well-formed sequences of code points up to U+00FF; \<open>None\<close>
  stands for a \<open>UnicodeDecodeError\<close> or for a text outside the modelled alphabet.
\<close>

fun utf8_decode :: "bytes \<Rightarrow> string option" where
  "utf8_decode [] = Some []"
| "utf8_decode (b # bs) =
     (if unat b < 128 then map_option ((#) (char_of (unat b))) (utf8_decode bs)
      else case bs of
             [] \<Rightarrow> None
           | b' # bs' \<Rightarrow>
               if 194 \<le> unat b \<and> unat b < 196 \<and> 128 \<le> unat b' \<and> unat b' < 192
               then map_option ((#) (char_of ((unat b - 192) * 64 + (unat b' - 128)))) (utf8_decode bs')
               else None)"

lemma of_char_bound: "(of_char c :: nat) < 256"
  by simp

lemma unat_byte: "m < 256 \<Longrightarrow> unat (word_of_nat m :: byte) = m"
  by (simp add: unat_of_nat)

lemma utf8_decode_char: "utf8_decode (utf8_char c @ bs) = map_option ((#) c) (utf8_decode bs)"
proof -
  define n where "n = (of_char c :: nat)"
  have n: "n < 256" "char_of n = c" by (simp_all add: n_def)
  show ?thesis
  proof (cases "n < 128")
    case True
    then have "unat (word_of_nat n :: byte) = n" by (simp add: unat_of_nat)
    with True n show ?thesis by (simp add: utf8_char_def n_def[symmetric] Let_def)
  next
    case False
    have "n div 64 < 4" "n div 64 \<ge> 2" using False n by (auto simp: div_le_mono less_mult_imp_div_less)
    moreover have "n mod 64 < 64" by simp
    ultimately have
      "unat (word_of_nat (192 + n div 64) :: byte) = 192 + n div 64"
      "unat (word_of_nat (128 + n mod 64) :: byte) = 128 + n mod 64"
      by (intro unat_byte; simp)+
    moreover have "(n div 64) * 64 + n mod 64 = n" by simp
    ultimately show ?thesis using False n \<open>n div 64 < 4\<close> \<open>n div 64 \<ge> 2\<close>
      by (simp add: utf8_char_def n_def[symmetric] Let_def)
  qed
qed

theorem utf8_decode_encode: "utf8_decode (utf8_encode s) = Some s"
  by (induction s) (simp_all add: utf8_encode_def utf8_decode_char)

lemma utf8_encode_inj: "utf8_encode s = utf8_encode t \<Longrightarrow> s = t"
  by (metis option.inject utf8_decode_encode)

lemma utf8_encode_ascii:
  "is_ascii s \<Longrightarrow> utf8_encode s = map (\<lambda>c. word_of_nat (of_char c)) s"
  by (induction s) (simp_all add: utf8_encode_def utf8_char_def is_ascii_def)

section \<open>Bytes\<close>

definition byte_space :: "byte \<Rightarrow> bool" where
  "byte_space b \<longleftrightarrow> 9 \<le> unat b \<and> unat b \<le> 13 \<or> unat b = 32"

definition bytes_strip :: "bytes \<Rightarrow> bytes" where
  "bytes_strip bs = rev (dropWhile byte_space (rev (dropWhile byte_space bs)))"

lemma bytes_strip_id:
  "bs = [] \<or> \<not> byte_space (hd bs) \<and> \<not> byte_space (last bs) \<Longrightarrow> bytes_strip bs = bs"
proof (elim disjE conjE)
  assume h: "\<not> byte_space (hd bs)" and l: "\<not> byte_space (last bs)"
  show "bytes_strip bs = bs"
  proof (cases bs rule: rev_cases)
    case (snoc xs x)
    from h have "dropWhile byte_space bs = bs" by (cases bs) simp_all
    then show ?thesis using l snoc by (simp add: bytes_strip_def)
  qed (simp add: bytes_strip_def)
qed (simp add: bytes_strip_def)

section \<open>json.dumps\<close>

text \<open>Default options: separators \<open>", "\<close> and \<open>": "\<close>, all non-ASCII and control characters escaped.\<close>

definition json_char :: "char \<Rightarrow> string" where
  "json_char c =
     (if c = CHR 0x22 \<or> c = CHR 0x5C then [CHR 0x5C, c]
      else if c = CHR 0x0A then [CHR 0x5C, CHR ''n'']
      else if c = CHR 0x0D then [CHR 0x5C, CHR ''r'']
      else if c = CHR 0x09 then [CHR 0x5C, CHR ''t'']
      else if c = CHR 0x0C then [CHR 0x5C, CHR ''f'']
      else if c = CHR 0x08 then [CHR 0x5C, CHR ''b'']
      else if 32 \<le> (of_char c :: nat) \<and> (of_char c :: nat) \<le> 126 then [c]
      else [CHR 0x5C, CHR ''u'', CHR ''0'', CHR ''0''] @ hex2 (of_char c))"

definition json_str :: "string \<Rightarrow> string" where
  "json_str s = [CHR 0x22] @ concat (map json_char s) @ [CHR 0x22]"

fun json_float :: "pyfloat \<Rightarrow> string" where
  "json_float (FFinite _ s) = s"
| "json_float (FInf neg) = (if neg then ''-Infinity'' else ''Infinity'')"
| "json_float FNan = ''NaN''"

fun json_dumps :: "pyval \<Rightarrow> string" where
  "json_dumps PNone = ''null''"
| "json_dumps (PBool b) = (if b then ''true'' else ''false'')"
| "json_dumps (PInt n) = show_int n"
| "json_dumps (PFloat f) = json_float f"
| "json_dumps (PStr s) = json_str s"
| "json_dumps (PList xs) = ''['' @ join '', '' (map json_dumps xs) @ '']''"
| "json_dumps (PDict kvs) =
     ''{'' @ join '', '' (map (\<lambda>kv. json_str (fst kv) @ '': '' @ json_dumps (snd kv)) kvs) @ ''}''"

end
