(* ===== verification/MessageRow.thy ===== *)
theory MessageRow
  imports PyText
begin

text \<open>
  A row of the \<open>messages\<close> table of db.py, without its autoincrement id (which the table
  model keeps beside it). The text columns hold strings; the timestamp is whatever the
  caller passed, since the WebSocket handler forwards the client's value unchecked.
\<close>

record message_row =
  m_msg_id :: string
  m_username :: string
  m_plaintext :: string
  m_ciphertext :: string
  m_signature :: string
  m_pubkey :: string
  m_timestamp :: pyval
  m_prev_hash :: string
  m_record_hash :: string

text \<open>An entry of the in-memory feed: the tuple \<open>(msg_id, username, plaintext, timestamp)\<close>.\<close>

record feed_item =
  f_id :: string
  f_username :: string
  f_plaintext :: string
  f_timestamp :: pyval

definition feed_of_row :: "message_row \<Rightarrow> feed_item" where
  "feed_of_row r = \<lparr>f_id = m_msg_id r, f_username = m_username r,
     f_plaintext = m_plaintext r, f_timestamp = m_timestamp r\<rparr>"

lemma f_id_feed_of_row [simp]: "f_id (feed_of_row r) = m_msg_id r"
  by (simp add: feed_of_row_def)

lemma f_plaintext_feed_of_row [simp]: "f_plaintext (feed_of_row r) = m_plaintext r"
  by (simp add: feed_of_row_def)

end
