(* ===== verification/SqlTable.thy ===== *)
theory SqlTable
  imports MessageRow
begin

text \<open>
  The SQL the source issues against SQLite, on one table with an \<open>INTEGER PRIMARY KEY
  AUTOINCREMENT\<close> id and one \<open>UNIQUE\<close> column: \<open>INSERT OR IGNORE\<close>, \<open>executemany\<close>,
  \<open>SELECT ... ORDER BY id\<close> with a limit, \<open>DELETE\<close> with the reset of \<open>sqlite_sequence\<close>. An
  ignored row still takes an id from the sequence. A row whose values cannot be bound raises
  before it is inserted, and the rows before it in an \<open>executemany\<close> stay inserted.

  The interface \<open>row_store\<close> is what the writers of a table rely on; it is interpreted on the
  message tables of db.py and of dbservice/main.py in their theories.
\<close>

section \<open>Tables\<close>

record 'r sqltable =
  tbl_rows :: "(nat \<times> 'r) list"
  tbl_seq :: nat

definition empty_table :: "'r sqltable" where
  "empty_table = \<lparr>tbl_rows = [], tbl_seq = 0\<rparr>"

definition contents :: "'r sqltable \<Rightarrow> 'r list" where
  "contents t = map snd (tbl_rows t)"

text \<open>\<open>key\<close> is the \<open>UNIQUE\<close> column (\<open>None\<close> is \<open>NULL\<close>, which never conflicts), \<open>ok\<close> the \<open>NOT NULL\<close> checks.\<close>

definition sql_insert_or_ignore ::
  "('r \<Rightarrow> 'k option) \<Rightarrow> ('r \<Rightarrow> bool) \<Rightarrow> 'r \<Rightarrow> 'r sqltable \<Rightarrow> 'r sqltable" where
  "sql_insert_or_ignore key ok r t =
     (let i = Suc (tbl_seq t); t' = t\<lparr>tbl_seq := i\<rparr>
      in if ok r \<and> (key r = None \<or> key r \<notin> set (map key (contents t)))
         then t'\<lparr>tbl_rows := tbl_rows t @ [(i, r)]\<rparr> else t')"

fun sql_executemany ::
  "('r \<Rightarrow> pyexc option) \<Rightarrow> ('r \<Rightarrow> 'r sqltable \<Rightarrow> 'r sqltable) \<Rightarrow> 'r list \<Rightarrow> 'r sqltable \<Rightarrow>
     'r sqltable \<times> pyexc option" where
  "sql_executemany bind_error ins [] t = (t, None)"
| "sql_executemany bind_error ins (r # rs) t =
     (case bind_error r of
        Some e \<Rightarrow> (t, Some e)
      | None \<Rightarrow> sql_executemany bind_error ins rs (ins r t))"

definition sql_select_by_id :: "'r sqltable \<Rightarrow> (nat \<times> 'r) list" where
  "sql_select_by_id t = sort_key fst (tbl_rows t)"

text \<open>\<open>LIMIT n\<close>; a negative limit is no limit.\<close>

definition sql_limit :: "int \<Rightarrow> 'a list \<Rightarrow> 'a list" where
  "sql_limit n xs = (if n < 0 then xs else take (nat n) xs)"

definition sql_delete_all :: "'r sqltable \<Rightarrow> 'r sqltable" where
  "sql_delete_all t = t\<lparr>tbl_rows := [], tbl_seq := 0\<rparr>"

section \<open>Well-formed tables\<close>

definition table_wf :: "('r \<Rightarrow> 'k option) \<Rightarrow> 'r sqltable \<Rightarrow> bool" where
  "table_wf key t \<longleftrightarrow>
     sorted_wrt (<) (map fst (tbl_rows t)) \<and>
     (\<forall>i \<in> set (map fst (tbl_rows t)). i \<le> tbl_seq t) \<and>
     distinct (filter (\<lambda>k. k \<noteq> None) (map key (contents t)))"

lemma contents_empty [simp]: "contents empty_table = []"
  by (simp add: contents_def empty_table_def)

lemma contents_delete_all [simp]: "contents (sql_delete_all t) = []"
  by (simp add: contents_def sql_delete_all_def)

lemma table_wf_empty [simp]: "table_wf key empty_table"
  by (simp add: table_wf_def empty_table_def contents_def)

lemma table_wf_delete_all [simp]: "table_wf key (sql_delete_all t)"
  by (simp add: table_wf_def sql_delete_all_def contents_def)

lemma sorted_ids_select:
  "sorted_wrt (<) (map fst (tbl_rows t)) \<Longrightarrow> sql_select_by_id t = tbl_rows t"
  unfolding sql_select_by_id_def
  by (metis sort_key_id_if_sorted sorted_wrt_mono_rel less_imp_le)

lemma select_wf: "table_wf key t \<Longrightarrow> sql_select_by_id t = tbl_rows t"
  by (simp add: table_wf_def sorted_ids_select)

lemma contents_insert:
  "contents (sql_insert_or_ignore key ok r t) =
     (if ok r \<and> (key r = None \<or> key r \<notin> set (map key (contents t)))
      then contents t @ [r] else contents t)"
  by (simp add: sql_insert_or_ignore_def contents_def Let_def)

lemma table_wf_insert:
  assumes "table_wf key t"
  shows "table_wf key (sql_insert_or_ignore key ok r t)"
  using assms
  by (auto simp: table_wf_def sql_insert_or_ignore_def contents_def Let_def sorted_wrt_append
      dest: bspec)

section \<open>The interface of a deduplicating row store\<close>

locale row_store =
  fixes put :: "'r \<Rightarrow> 't \<Rightarrow> 't"
    and stored_rows :: "'t \<Rightarrow> 'r list"
    and rkey :: "'r \<Rightarrow> 'k option"
    and accepts :: "'r \<Rightarrow> bool"
    and wf :: "'t \<Rightarrow> bool"
  assumes rows_put: "wf t \<Longrightarrow> stored_rows (put r t) =
      (if accepts r \<and> (rkey r = None \<or> rkey r \<notin> rkey ` set (stored_rows t))
       then stored_rows t @ [r] else stored_rows t)"
    and wf_put: "wf t \<Longrightarrow> wf (put r t)"
    and wf_keys: "wf t \<Longrightarrow> distinct (filter (\<lambda>k. k \<noteq> None) (map rkey (stored_rows t)))"
begin

text \<open>The rows of a batch that are new after the rows \<open>old\<close>: the first of each key, in order.\<close>

fun fresh_rows :: "'r list \<Rightarrow> 'r list \<Rightarrow> 'r list" where
  "fresh_rows old [] = []"
| "fresh_rows old (r # rs) =
     (if accepts r \<and> (rkey r = None \<or> rkey r \<notin> rkey ` set old)
      then r # fresh_rows (old @ [r]) rs else fresh_rows old rs)"

lemma wf_fold: "wf t \<Longrightarrow> wf (fold put rs t)"
  by (induction rs arbitrary: t) (simp_all add: wf_put)

lemma rows_fold:
  "wf t \<Longrightarrow> stored_rows (fold put rs t) = stored_rows t @ fresh_rows (stored_rows t) rs"
  by (induction rs arbitrary: t) (auto simp: rows_put wf_put)

lemma fresh_rows_all:
  assumes "\<forall>r \<in> set rs. accepts r \<and> rkey r \<noteq> None"
    and "distinct (map rkey rs)" "set (map rkey rs) \<inter> rkey ` set old = {}"
  shows "fresh_rows old rs = rs"
  using assms by (induction rs arbitrary: old) auto

lemma fresh_rows_none:
  "\<forall>r \<in> set rs. rkey r \<noteq> None \<and> rkey r \<in> rkey ` set old \<Longrightarrow> fresh_rows old rs = []"
  by (induction rs) auto

lemma fresh_rows_keys:
  "rkey ` set old \<union> rkey ` set (fresh_rows old rs) = rkey ` set old \<union> rkey ` {r \<in> set rs. accepts r}"
proof (induction rs arbitrary: old)
  case (Cons r rs)
  show ?case using Cons[of old] Cons[of "old @ [r]"] by auto
qed simp

lemma keys_fold:
  assumes "wf t"
  shows "rkey ` set (stored_rows (fold put rs t)) =
    rkey ` set (stored_rows t) \<union> rkey ` {r \<in> set rs. accepts r}"
  using rows_fold[OF assms] fresh_rows_keys[of "stored_rows t" rs] by (simp add: image_Un)

text \<open>Storing new rows appends them; storing rows that are all there already changes nothing.\<close>

lemma rows_fold_new:
  assumes "wf t" "\<forall>r \<in> set rs. accepts r \<and> rkey r \<noteq> None" "distinct (map rkey rs)"
    "set (map rkey rs) \<inter> rkey ` set (stored_rows t) = {}"
  shows "stored_rows (fold put rs t) = stored_rows t @ rs"
  using assms by (simp add: rows_fold fresh_rows_all)

lemma rows_fold_again:
  assumes "wf t" "\<forall>r \<in> set rs. accepts r \<and> rkey r \<noteq> None"
  shows "stored_rows (fold put rs (fold put rs t)) = stored_rows (fold put rs t)"
proof -
  have "\<forall>r \<in> set rs. rkey r \<noteq> None \<and> rkey r \<in> rkey ` set (stored_rows (fold put rs t))"
    using assms keys_fold[OF assms(1), of rs] by auto
  then show ?thesis by (simp add: rows_fold[OF wf_fold[OF assms(1)]] fresh_rows_none)
qed

lemma fresh_rows_subset: "set (fresh_rows old rs) \<subseteq> set rs"
  by (induction rs arbitrary: old) auto

lemma rows_fold_subset:
  "wf t \<Longrightarrow> set (stored_rows (fold put rs t)) \<subseteq> set (stored_rows t) \<union> set rs"
  using fresh_rows_subset by (fastforce simp: rows_fold)

end

lemma sql_row_store:
  "row_store (sql_insert_or_ignore key ok) contents key ok (table_wf key)"
  by unfold_locales (simp_all add: contents_insert table_wf_insert, simp add: table_wf_def)

section \<open>executemany\<close>

text \<open>The rows before the first one that cannot be bound.\<close>

definition bindable_prefix :: "('r \<Rightarrow> pyexc option) \<Rightarrow> 'r list \<Rightarrow> 'r list" where
  "bindable_prefix bind_error rs = takeWhile (\<lambda>r. bind_error r = None) rs"

lemma executemany_result:
  "sql_executemany bind_error ins rs t =
     (fold ins (bindable_prefix bind_error rs) t,
      case dropWhile (\<lambda>r. bind_error r = None) rs of [] \<Rightarrow> None | r # _ \<Rightarrow> bind_error r)"
  by (induction rs arbitrary: t) (auto simp: bindable_prefix_def split: option.splits)

lemma executemany_ok:
  "\<forall>r \<in> set rs. bind_error r = None \<Longrightarrow> sql_executemany bind_error ins rs t = (fold ins rs t, None)"
  by (induction rs arbitrary: t) auto

lemma executemany_error:
  "snd (sql_executemany bind_error ins rs t) = None \<longleftrightarrow> (\<forall>r \<in> set rs. bind_error r = None)"
  by (induction rs arbitrary: t) (auto split: option.splits)

declare sql_insert_or_ignore_def [run_defs] contents_def [run_defs] empty_table_def [run_defs]
  sql_delete_all_def [run_defs]

end
