(* ===== verification/SqlAffinity.thy ===== *)
theory SqlAffinity
  imports PyText
begin

text \<open>
  What a column declared INTEGER makes of the value bound to it: booleans and floats that are whole
  64-bit numbers become integers, and so does text that is a numeric literal. The value of a literal
  with a fraction, an exponent or too many digits is SQLite's own conversion of decimal text to a
  float, which is not part of the source: it is the parameter \<open>lit\<close>.
\<close>

section \<open>Numeric literals\<close>

datatype sql_literal = NotNumeric | IntegerLit int | RealLit

definition sql_space :: "char \<Rightarrow> bool" where
  "sql_space c \<longleftrightarrow> (let n = (of_char c :: nat) in 9 \<le> n \<and> n \<le> 13 \<or> n = 32)"

definition sql_strip :: "string \<Rightarrow> string" where
  "sql_strip s = rev (dropWhile sql_space (rev (dropWhile sql_space s)))"

definition drop_sign :: "string \<Rightarrow> string" where
  "drop_sign s = (case s of [] \<Rightarrow> [] | c # r \<Rightarrow> if c = CHR ''-'' \<or> c = CHR ''+'' then r else s)"

definition digits_value :: "string \<Rightarrow> int" where
  "digits_value ds = fold (\<lambda>c a. a * 10 + int (digit_val c)) ds 0"

text \<open>The part after the digits: nothing, or an exponent.\<close>

fun sql_exponent :: "string \<Rightarrow> bool option" where
  "sql_exponent [] = Some False"
| "sql_exponent (c # r) =
     (if (c = CHR ''e'' \<or> c = CHR ''E'') \<and> drop_sign r \<noteq> [] \<and> list_all is_digit (drop_sign r)
      then Some True else None)"

definition sql_number :: "string \<Rightarrow> sql_literal" where
  "sql_number s =
     (let t = sql_strip s; u = drop_sign t;
          whole = takeWhile is_digit u; r = dropWhile is_digit u;
          dot = (r \<noteq> [] \<and> hd r = CHR ''.'');
          frac = (if dot then takeWhile is_digit (tl r) else []);
          rest = (if dot then dropWhile is_digit (tl r) else r)
      in if whole = [] \<and> frac = [] then NotNumeric
         else case sql_exponent rest of
                None \<Rightarrow> NotNumeric
              | Some has_exponent \<Rightarrow>
                  if dot \<or> has_exponent then RealLit
                  else IntegerLit ((if hd t = CHR ''-'' then - 1 else 1) * digits_value whole))"

section \<open>INTEGER affinity\<close>

text \<open>The value of a literal, with the text Python prints for it; SQLite has no NaN.\<close>

datatype sql_float = SqlFinite rat string | SqlInf bool

fun float_of_sql :: "sql_float \<Rightarrow> pyfloat" where
  "float_of_sql (SqlFinite r s) = FFinite r s"
| "float_of_sql (SqlInf neg) = FInf neg"

definition float_affinity :: "pyfloat \<Rightarrow> pyval" where
  "float_affinity f =
     (case f of
        FFinite r s \<Rightarrow>
          if r = of_int \<lfloor>r\<rfloor> \<and> - (2 ^ 63) < \<lfloor>r\<rfloor> \<and> \<lfloor>r\<rfloor> < 2 ^ 63 - 1 then PInt \<lfloor>r\<rfloor> else PFloat f
      | _ \<Rightarrow> PFloat f)"

fun integer_affinity :: "(string \<Rightarrow> sql_float) \<Rightarrow> pyval \<Rightarrow> pyval" where
  "integer_affinity lit (PBool b) = PInt (if b then 1 else 0)"
| "integer_affinity lit (PFloat f) = float_affinity f"
| "integer_affinity lit (PStr s) =
     (case sql_number s of
        NotNumeric \<Rightarrow> PStr s
      | IntegerLit n \<Rightarrow> if - (2 ^ 63) \<le> n \<and> n < 2 ^ 63 then PInt n else float_affinity (float_of_sql (lit s))
      | RealLit \<Rightarrow> float_affinity (float_of_sql (lit s)))"
| "integer_affinity lit v = v"

lemma float_affinity_again: "integer_affinity lit (float_affinity f) = float_affinity f"
  by (cases f) (simp_all add: float_affinity_def)

text \<open>What was read from the column can be written back unchanged.\<close>

lemma integer_affinity_again [simp]:
  "integer_affinity lit (integer_affinity lit v) = integer_affinity lit v"
  by (cases v) (simp_all add: float_affinity_again split: sql_literal.split)

fun int_time :: "pyval \<Rightarrow> bool" where
  "int_time (PInt n) = True"
| "int_time _ = False"

lemma integer_affinity_int [simp]: "int_time v \<Longrightarrow> integer_affinity lit v = v"
  by (cases v) simp_all

lemma float_affinity_null: "float_affinity f \<noteq> PNone" "float_affinity f = PFloat FNan \<longleftrightarrow> f = FNan"
  by (cases f; simp add: float_affinity_def)+

lemma integer_affinity_null [simp]:
  "integer_affinity lit v = PNone \<longleftrightarrow> v = PNone"
  "integer_affinity lit v = PFloat FNan \<longleftrightarrow> v = PFloat FNan"
proof -
  have "float_of_sql f \<noteq> FNan" for f by (cases f) simp_all
  then show "integer_affinity lit v = PNone \<longleftrightarrow> v = PNone"
    "integer_affinity lit v = PFloat FNan \<longleftrightarrow> v = PFloat FNan"
    by (cases v; simp add: float_affinity_null split: sql_literal.split)+
qed

end
