(* ===== verification/MessageLog.thy ===== *)
theory MessageLog
  imports Prelude
begin

text \<open>
  The interface the request handlers rely on: a log of messages in which an identifier occurs
  at most once. \<open>post\<close> stores a message and says whether it was new. The lemmas of the interface
  are about sequences of posts; it is interpreted on \<open>save_message\<close> of db.py in the theory Db.
\<close>

locale message_log =
  fixes post :: "'m \<Rightarrow> 's \<Rightarrow> bool \<times> 's"
    and log :: "'s \<Rightarrow> 'e list"
    and entry :: "'m \<Rightarrow> 'e"
    and ident :: "'e \<Rightarrow> 'k"
    and ok :: "'s \<Rightarrow> bool"
  assumes post_new: "ok s \<Longrightarrow> ident (entry m) \<notin> ident ` set (log s) \<Longrightarrow>
      fst (post m s) \<and> log (snd (post m s)) = log s @ [entry m]"
    and post_dup: "ok s \<Longrightarrow> ident (entry m) \<in> ident ` set (log s) \<Longrightarrow>
      \<not> fst (post m s) \<and> log (snd (post m s)) = log s"
    and post_ok: "ok s \<Longrightarrow> ok (snd (post m s))"
    and ok_distinct: "ok s \<Longrightarrow> distinct (map ident (log s))"
begin

fun post_all :: "'m list \<Rightarrow> 's \<Rightarrow> 's" where
  "post_all [] s = s"
| "post_all (m # ms) s = post_all ms (snd (post m s))"

text \<open>The reference: keep the first message of each identifier, in order.\<close>

fun first_posts :: "'e list \<Rightarrow> 'm list \<Rightarrow> 'e list" where
  "first_posts es [] = es"
| "first_posts es (m # ms) =
     (if ident (entry m) \<in> ident ` set es then first_posts es ms
      else first_posts (es @ [entry m]) ms)"

lemma post_all_ok: "ok s \<Longrightarrow> ok (post_all ms s)"
  by (induction ms arbitrary: s) (simp_all add: post_ok)

lemma post_all_log: "ok s \<Longrightarrow> log (post_all ms s) = first_posts (log s) ms"
proof (induction ms arbitrary: s)
  case (Cons m ms)
  then show ?case
    using post_new[of s m] post_dup[of s m]
    by (cases "ident (entry m) \<in> ident ` set (log s)") (simp_all add: post_ok)
qed simp

lemma first_posts_append: "first_posts es (ms @ ns) = first_posts (first_posts es ms) ns"
  by (induction ms arbitrary: es) simp_all

lemma first_posts_idents:
  "ident ` set (first_posts es ms) = ident ` set es \<union> (ident \<circ> entry) ` set ms"
proof (induction ms arbitrary: es)
  case (Cons m ms)
  then show ?case by (cases "ident (entry m) \<in> ident ` set es") auto
qed simp

lemma first_posts_known:
  "(ident \<circ> entry) ` set ms \<subseteq> ident ` set es \<Longrightarrow> first_posts es ms = es"
  by (induction ms) auto

lemma post_all_distinct: "ok s \<Longrightarrow> distinct (map ident (log (post_all ms s)))"
  by (simp add: ok_distinct post_all_ok)

text \<open>Replaying a batch, as a client that retries does, leaves the log as it is.\<close>

lemma post_all_again: "ok s \<Longrightarrow> log (post_all ms (post_all ms s)) = log (post_all ms s)"
  by (simp add: post_all_log post_all_ok first_posts_known first_posts_idents)

lemma post_all_prefix: "ok s \<Longrightarrow> \<exists>es. log (post_all ms s) = log s @ es"
proof (induction ms arbitrary: s)
  case (Cons m ms)
  from Cons.IH[OF post_ok[OF Cons.prems, of m]] obtain es where
    "log (post_all (m # ms) s) = log (snd (post m s)) @ es" by auto
  then show ?case
    using post_new[OF Cons.prems, of m] post_dup[OF Cons.prems, of m]
    by (cases "ident (entry m) \<in> ident ` set (log s)") auto
qed simp

end

end
