(* ===== verification/Sha256.thy ===== *)
theory Sha256
  imports PyText
begin

unbundle bit_operations_syntax

text \<open>
  \<open>hashlib.sha256(b).hexdigest()\<close> of the standard library, written out on 32-bit words
  (FIPS 180-4): padding, message schedule, compression, and the hexadecimal digest. The
  digest has 64 characters, all of them lower-case hexadecimal digits.
\<close>

type_synonym u32 = "32 word"

section \<open>Constants and round functions\<close>

definition sha_k :: "u32 list" where
  "sha_k =
    [
     1116352408, 1899447441, 3049323471, 3921009573, 961987163, 1508970993, 2453635748,
     2870763221, 3624381080, 310598401, 607225278, 1426881987, 1925078388, 2162078206,
     2614888103, 3248222580, 3835390401, 4022224774, 264347078, 604807628, 770255983,
     1249150122, 1555081692, 1996064986, 2554220882, 2821834349, 2952996808, 3210313671,
     3336571891, 3584528711, 113926993, 338241895, 666307205, 773529912, 1294757372,
     1396182291, 1695183700, 1986661051, 2177026350, 2456956037, 2730485921, 2820302411,
     3259730800, 3345764771, 3516065817, 3600352804, 4094571909, 275423344, 430227734,
     506948616, 659060556, 883997877, 958139571, 1322822218, 1537002063, 1747873779,
     1955562222, 2024104815, 2227730452, 2361852424, 2428436474, 2756734187, 3204031479,
     3329325298
    ]"

text \<open>The working variables a to h.\<close>

datatype sha_state = Sha u32 u32 u32 u32 u32 u32 u32 u32

definition sha_init :: sha_state where
  "sha_init = Sha 1779033703 3144134277 1013904242 2773480762
                  1359893119 2600822924 528734635 1541459225"

definition rotr :: "nat \<Rightarrow> u32 \<Rightarrow> u32" where
  "rotr n x = drop_bit n x OR push_bit (32 - n) x"

definition small_sigma0 :: "u32 \<Rightarrow> u32" where
  "small_sigma0 x = rotr 7 x XOR rotr 18 x XOR drop_bit 3 x"

definition small_sigma1 :: "u32 \<Rightarrow> u32" where
  "small_sigma1 x = rotr 17 x XOR rotr 19 x XOR drop_bit 10 x"

definition big_sigma0 :: "u32 \<Rightarrow> u32" where
  "big_sigma0 x = rotr 2 x XOR rotr 13 x XOR rotr 22 x"

definition big_sigma1 :: "u32 \<Rightarrow> u32" where
  "big_sigma1 x = rotr 6 x XOR rotr 11 x XOR rotr 25 x"

definition sha_ch :: "u32 \<Rightarrow> u32 \<Rightarrow> u32 \<Rightarrow> u32" where
  "sha_ch x y z = (x AND y) XOR (NOT x AND z)"

definition sha_maj :: "u32 \<Rightarrow> u32 \<Rightarrow> u32 \<Rightarrow> u32" where
  "sha_maj x y z = (x AND y) XOR (x AND z) XOR (y AND z)"

section \<open>Padding, schedule, compression\<close>

definition word_be :: "byte \<Rightarrow> byte \<Rightarrow> byte \<Rightarrow> byte \<Rightarrow> u32" where
  "word_be b0 b1 b2 b3 =
     push_bit 24 (ucast b0) OR push_bit 16 (ucast b1) OR push_bit 8 (ucast b2) OR ucast b3"

fun words_of_bytes :: "bytes \<Rightarrow> u32 list" where
  "words_of_bytes (b0 # b1 # b2 # b3 # bs) = word_be b0 b1 b2 b3 # words_of_bytes bs"
| "words_of_bytes _ = []"

definition len_bytes :: "nat \<Rightarrow> bytes" where
  "len_bytes n = map (\<lambda>i. ucast (drop_bit (8 * i) (word_of_nat n :: 64 word))) [7, 6, 5, 4, 3, 2, 1, 0]"

definition sha_pad :: "bytes \<Rightarrow> bytes" where
  "sha_pad m = m @ [0x80] @ replicate ((119 - length m mod 64) mod 64) 0 @ len_bytes (8 * length m)"

text \<open>The schedule is extended newest word first, so \<open>w ! i\<close> is the word \<open>i + 1\<close> rounds ago.\<close>

fun sha_extend :: "nat \<Rightarrow> u32 list \<Rightarrow> u32 list" where
  "sha_extend 0 w = w"
| "sha_extend (Suc n) w =
     sha_extend n ((small_sigma1 (w ! 1) + w ! 6 + small_sigma0 (w ! 14) + w ! 15) # w)"

definition sha_schedule :: "u32 list \<Rightarrow> u32 list" where
  "sha_schedule block = rev (sha_extend 48 (rev block))"

fun sha_round :: "sha_state \<Rightarrow> u32 \<times> u32 \<Rightarrow> sha_state" where
  "sha_round (Sha a b c d e f g h) (k, w) =
     (let t1 = h + big_sigma1 e + sha_ch e f g + k + w;
          t2 = big_sigma0 a + sha_maj a b c
      in Sha (t1 + t2) a b c (d + t1) e f g)"

fun sha_add :: "sha_state \<Rightarrow> sha_state \<Rightarrow> sha_state" where
  "sha_add (Sha a b c d e f g h) (Sha a' b' c' d' e' f' g' h') =
     Sha (a + a') (b + b') (c + c') (d + d') (e + e') (f + f') (g + g') (h + h')"

definition sha_block :: "sha_state \<Rightarrow> u32 list \<Rightarrow> sha_state" where
  "sha_block s block = sha_add s (foldl sha_round s (zip sha_k (sha_schedule block)))"

function sha_blocks :: "sha_state \<Rightarrow> u32 list \<Rightarrow> sha_state" where
  "sha_blocks s ws = (if ws = [] then s else sha_blocks (sha_block s (take 16 ws)) (drop 16 ws))"
  by pat_completeness auto
termination
  by (relation "measure (\<lambda>(s, ws). length ws)") auto

declare sha_blocks.simps [simp del]

section \<open>Digest\<close>

definition hex_word :: "u32 \<Rightarrow> string" where
  "hex_word w = map (\<lambda>i. hex_digit (unat (drop_bit (4 * i) w AND 15))) [7, 6, 5, 4, 3, 2, 1, 0]"

fun hex_state :: "sha_state \<Rightarrow> string" where
  "hex_state (Sha a b c d e f g h) = concat (map hex_word [a, b, c, d, e, f, g, h])"

definition sha256_hexdigest :: "bytes \<Rightarrow> string" where
  "sha256_hexdigest m = hex_state (sha_blocks sha_init (words_of_bytes (sha_pad m)))"

definition is_hex :: "char \<Rightarrow> bool" where
  "is_hex c \<longleftrightarrow> (let n = (of_char c :: nat) in 48 \<le> n \<and> n \<le> 57 \<or> 97 \<le> n \<and> n \<le> 102)"

lemma is_hex_hex_digit [simp]: "d < 16 \<Longrightarrow> is_hex (hex_digit d)"
  by (simp add: is_hex_def hex_digit_def)

lemma nibble_lt: "unat (w AND 15 :: u32) < 16"
proof -
  have "w AND 15 \<le> (15 :: u32)" by (rule word_and_le1)
  then show ?thesis by (simp add: word_le_nat_alt)
qed

lemma hex_word_hex: "list_all is_hex (hex_word w)"
  by (simp add: hex_word_def nibble_lt)

lemma length_hex_word [simp]: "length (hex_word w) = 8"
  by (simp add: hex_word_def)

lemma sha256_length: "length (sha256_hexdigest m) = 64"
  unfolding sha256_hexdigest_def by (cases "sha_blocks sha_init (words_of_bytes (sha_pad m))") simp

lemma sha256_hex: "list_all is_hex (sha256_hexdigest m)"
  unfolding sha256_hexdigest_def
  by (cases "sha_blocks sha_init (words_of_bytes (sha_pad m))") (simp add: hex_word_hex)

lemma is_hex_no_bar: "is_hex c \<Longrightarrow> c \<noteq> CHR ''|''"
  by (auto simp: is_hex_def)

lemma sha256_no_bar: "CHR ''|'' \<notin> set (sha256_hexdigest m)"
  using sha256_hex[of m] is_hex_no_bar by (auto simp: list_all_iff)

text \<open>Padding fills whole blocks, so the block loop never sees a short block.\<close>

lemma pad_fill: "(n + 9 + (119 - n mod 64) mod 64) mod 64 = (0 :: nat)"
proof -
  obtain q r where n: "n = r + 64 * q" and r: "r < 64"
    by (metis mod_div_mult_eq mod_less_divisor mult.commute zero_less_numeral)
  have nr: "n mod 64 = r" using n r by simp
  show ?thesis
  proof (cases "r \<le> 55")
    case True
    then have "(119 - r) mod 64 = 55 - r" by (simp add: mod_if)
    then have "n + 9 + (119 - n mod 64) mod 64 = 64 * (q + 1)" using n nr True by simp
    then show ?thesis by (simp del: mult_Suc_right add_mult_distrib2)
  next
    case False
    then have "(119 - r) mod 64 = 119 - r" by simp
    then have "n + 9 + (119 - n mod 64) mod 64 = 64 * (q + 2)" using n nr False r by simp
    then show ?thesis by (simp del: mult_Suc_right add_mult_distrib2)
  qed
qed

lemma length_sha_pad: "length (sha_pad m) mod 64 = 0"
proof -
  have "length (sha_pad m) = length m + 9 + (119 - length m mod 64) mod 64"
    by (simp add: sha_pad_def len_bytes_def)
  then show ?thesis by (simp only: pad_fill)
qed

end
