(* ===== verification/Integrity.thy ===== *)
theory Integrity
  imports MessageRow Sha256
begin

text \<open>
  integrity.py: the record hash, the check of one row and the walk over the stored history.
  The interface \<open>hash_chain\<close> states what a verifier that links each record to the hash
  stored before it guarantees, for any link function; it is interpreted on the functions of
  integrity.py.
\<close>

section \<open>The code\<close>

definition GENESIS_HASH :: string where
  "GENESIS_HASH = replicate 64 (CHR ''0'')"

definition record_payload :: "string \<Rightarrow> string \<Rightarrow> string \<Rightarrow> string \<Rightarrow> pyval \<Rightarrow> string" where
  "record_payload prev_hash username ciphertext signature timestamp =
     prev_hash @ ''|'' @ username @ ''|'' @ ciphertext @ ''|'' @ signature @ ''|'' @ py_str timestamp"

definition compute_record_hash :: "string \<Rightarrow> string \<Rightarrow> string \<Rightarrow> string \<Rightarrow> pyval \<Rightarrow> string" where
  "compute_record_hash prev_hash username ciphertext signature timestamp =
     sha256_hexdigest (utf8_encode (record_payload prev_hash username ciphertext signature timestamp))"

definition verify_record :: "message_row \<Rightarrow> string \<Rightarrow> bool" where
  "verify_record row prev_hash \<longleftrightarrow>
     compute_record_hash prev_hash (m_username row) (m_ciphertext row) (m_signature row)
       (m_timestamp row) = m_record_hash row"

text \<open>The loop of \<open>verify_chain\<close>: the results so far and the hash the next row has to link to.\<close>

fun verify_loop :: "bool list \<Rightarrow> string \<Rightarrow> message_row list \<Rightarrow> bool list" where
  "verify_loop results prev_hash [] = results"
| "verify_loop results prev_hash (row # rows) =
     verify_loop (results @ [verify_record row prev_hash]) (m_record_hash row) rows"

definition verify_chain :: "message_row list \<Rightarrow> bool list" where
  "verify_chain rows = verify_loop [] GENESIS_HASH rows"

section \<open>The interface of a hash chain\<close>

text \<open>
  \<open>link p r\<close> is the hash of record \<open>r\<close> after predecessor hash \<open>p\<close>, \<open>stored r\<close> the hash the
  record carries, and \<open>check p rs\<close> the verdicts of a verifier started with predecessor \<open>p\<close>.
\<close>

locale hash_chain =
  fixes link :: "'h \<Rightarrow> 'r \<Rightarrow> 'h"
    and stored :: "'r \<Rightarrow> 'h"
    and check :: "'h \<Rightarrow> 'r list \<Rightarrow> bool list"
  assumes check_Nil: "check p [] = []"
    and check_Cons: "check p (r # rs) = (link p r = stored r) # check (stored r) rs"
begin

text \<open>The hash after a history: what the next record links to.\<close>

definition tip :: "'h \<Rightarrow> 'r list \<Rightarrow> 'h" where
  "tip p rs = (if rs = [] then p else stored (last rs))"

definition intact :: "'h \<Rightarrow> 'r list \<Rightarrow> bool" where
  "intact p rs \<longleftrightarrow> list_all (\<lambda>b. b) (check p rs)"

fun links :: "'h \<Rightarrow> 'r list \<Rightarrow> ('h \<times> 'r) set" where
  "links p [] = {}"
| "links p (r # rs) = insert (p, r) (links (stored r) rs)"

lemma tip_simps [simp]: "tip p [] = p" "tip p (r # rs) = tip (stored r) rs"
  by (simp_all add: tip_def)

lemma length_check [simp]: "length (check p rs) = length rs"
  by (induction rs arbitrary: p) (simp_all add: check_Nil check_Cons)

lemma tip_append [simp]: "tip p (rs @ ss) = tip (tip p rs) ss"
  by (induction rs arbitrary: p) simp_all

lemma check_append: "check p (rs @ ss) = check p rs @ check (tip p rs) ss"
  by (induction rs arbitrary: p) (simp_all add: check_Nil check_Cons)

lemma check_nth:
  "i < length rs \<Longrightarrow> check p rs ! i = (link (tip p (take i rs)) (rs ! i) = stored (rs ! i))"
proof (induction rs arbitrary: p i)
  case (Cons r rs)
  then show ?case by (cases i) (simp_all add: check_Cons)
qed simp

lemma intact_simps [simp]:
  "intact p []" "intact p (r # rs) \<longleftrightarrow> link p r = stored r \<and> intact (stored r) rs"
  by (simp_all add: intact_def check_Nil check_Cons)

lemma intact_append: "intact p (rs @ ss) \<longleftrightarrow> intact p rs \<and> intact (tip p rs) ss"
  by (simp add: intact_def check_append)

lemma links_append: "links p (rs @ ss) = links p rs \<union> links (tip p rs) ss"
  by (induction rs arbitrary: p) auto

lemma links_stored: "intact p rs \<Longrightarrow> (q, r) \<in> links p rs \<Longrightarrow> link q r = stored r"
  by (induction rs arbitrary: p) auto

text \<open>
  Editing one record without touching its stored hash changes no verdict but its own:
  the walk continues from the stored hash.
\<close>

lemma check_edit:
  assumes "stored r' = stored r"
  shows "check p (rs @ r' # ss) = (check p (rs @ r # ss))[length rs := (link (tip p rs) r' = stored r)]"
  using assms by (simp add: check_append check_Cons list_update_append)

text \<open>
  Two intact histories with the same tip carry the same records, where the link function
  does not collide on the links the two histories contain and never yields the starting hash.
\<close>

lemma tip_commits:
  assumes "intact p rs" "intact p rs'" "tip p rs = tip p rs'"
    and no_coll: "\<And>q r q' r'. (q, r) \<in> links p rs \<Longrightarrow> (q', r') \<in> links p rs' \<Longrightarrow>
      link q r = link q' r' \<Longrightarrow> q = q' \<and> core r = core r'"
    and no_start: "length rs = length rs' \<or>
      (\<forall>q r. (q, r) \<in> links p rs \<union> links p rs' \<longrightarrow> link q r \<noteq> p)"
  shows "map core rs = map core rs'"
  using assms
proof (induction rs arbitrary: rs' rule: rev_induct)
  case Nil
  show ?case
  proof (cases rs' rule: rev_cases)
    case (snoc ys y)
    with Nil have "link (tip p ys) y = p" "(tip p ys, y) \<in> links p rs'"
      by (simp_all add: intact_append links_append)
    with Nil(5) snoc show ?thesis by auto
  qed simp
next
  case (snoc x xs)
  show ?case
  proof (cases rs' rule: rev_cases)
    case Nil
    with snoc.prems have "link (tip p xs) x = p" "(tip p xs, x) \<in> links p (xs @ [x])"
      by (simp_all add: intact_append links_append)
    with snoc.prems(5) Nil show ?thesis by auto
  next
    case ys: (snoc ys y)
    with snoc.prems have eq: "link (tip p xs) x = link (tip p ys) y"
      by (simp add: intact_append)
    have "(tip p xs, x) \<in> links p (xs @ [x])" "(tip p ys, y) \<in> links p rs'"
      by (simp_all add: ys links_append)
    with eq snoc.prems(4) have step: "tip p xs = tip p ys" "core x = core y" by blast+
    moreover have "map core xs = map core ys"
      using snoc.prems step(1)
      by (intro snoc.IH) (auto simp: ys intact_append links_append)
    ultimately show ?thesis by (simp add: ys)
  qed
qed

end

section \<open>integrity.py provides a hash chain\<close>

definition row_link :: "string \<Rightarrow> message_row \<Rightarrow> string" where
  "row_link p r = compute_record_hash p (m_username r) (m_ciphertext r) (m_signature r) (m_timestamp r)"

lemma verify_loop_results:
  "verify_loop results p rows = results @ verify_loop [] p rows"
proof (induction rows arbitrary: results p)
  case (Cons row rows)
  show ?case
    using Cons[of "results @ [verify_record row p]" "m_record_hash row"]
      Cons[of "[verify_record row p]" "m_record_hash row"] by simp
qed simp

interpretation vc: hash_chain row_link m_record_hash "verify_loop []"
proof unfold_locales
  show "verify_loop [] p (r # rs) = (row_link p r = m_record_hash r) # verify_loop [] (m_record_hash r) rs"
    for p r rs
    using verify_loop_results[of "[verify_record r p]" "m_record_hash r" rs]
    by (simp add: verify_record_def row_link_def)
qed simp

text \<open>The history is intact: every verdict of \<open>verify_chain\<close> is true.\<close>

definition chain_intact :: "message_row list \<Rightarrow> bool" where
  "chain_intact rows \<longleftrightarrow> list_all (\<lambda>b. b) (verify_chain rows)"

definition chain_tip :: "message_row list \<Rightarrow> string" where
  "chain_tip rows = (if rows = [] then GENESIS_HASH else m_record_hash (last rows))"

lemma chain_intact_vc: "chain_intact rows = vc.intact GENESIS_HASH rows"
  by (simp add: chain_intact_def verify_chain_def vc.intact_def)

lemma chain_tip_vc: "chain_tip rows = vc.tip GENESIS_HASH rows"
  by (simp add: chain_tip_def vc.tip_def)

lemma chain_intact_Nil [simp]: "chain_intact []"
  by (simp add: chain_intact_vc)

lemma chain_tip_snoc [simp]: "chain_tip (rows @ [r]) = m_record_hash r"
  by (simp add: chain_tip_def)

lemma chain_intact_snoc:
  "chain_intact (rows @ [r]) \<longleftrightarrow>
     chain_intact rows \<and> row_link (chain_tip rows) r = m_record_hash r"
  by (simp add: chain_intact_vc chain_tip_vc vc.intact_append)

section \<open>The payload\<close>

lemma split_at_first:
  assumes "xs @ b # ys = xs' @ b # ys'" "b \<notin> set xs" "b \<notin> set xs'"
  shows "xs = xs' \<and> ys = ys'"
proof -
  have tw: "takeWhile ((\<noteq>) b) (zs @ b # ws) = zs" if "b \<notin> set zs" for zs ws
    using that by (induction zs) auto
  from assms have "xs = xs'" by (metis tw)
  with assms(1) show ?thesis by simp
qed

lemma split_at_last:
  assumes "xs @ b # ys = xs' @ b # ys'" "b \<notin> set ys" "b \<notin> set ys'"
  shows "xs = xs' \<and> ys = ys'"
proof -
  from assms(1) have "rev (xs @ b # ys) = rev (xs' @ b # ys')" by (rule arg_cong)
  then have "rev ys @ b # rev xs = rev ys' @ b # rev xs'" by simp
  with assms(2,3) have "rev ys = rev ys' \<and> rev xs = rev xs'"
    by (intro split_at_first) simp_all
  then show ?thesis by simp
qed

definition no_bar :: "string \<Rightarrow> bool" where
  "no_bar s \<longleftrightarrow> CHR ''|'' \<notin> set s"

lemma record_payload_inj:
  assumes eq: "record_payload p u c s (PInt t) = record_payload p' u' c' s' (PInt t')"
    and "no_bar p" "no_bar c" "no_bar s" "no_bar p'" "no_bar c'" "no_bar s'"
  shows "p = p' \<and> u = u' \<and> c = c' \<and> s = s' \<and> t = t'"
proof -
  let ?b = "CHR ''|''"
  from eq have "p @ ?b # (u @ ?b # c @ ?b # s @ ?b # show_int t) =
      p' @ ?b # (u' @ ?b # c' @ ?b # s' @ ?b # show_int t')"
    by (simp add: record_payload_def)
  then have p: "p = p'" and "u @ ?b # c @ ?b # s @ ?b # show_int t =
      u' @ ?b # c' @ ?b # s' @ ?b # show_int t'"
    using assms split_at_first[of p ?b _ p'] by (simp_all add: no_bar_def)
  then have "(u @ ?b # c @ ?b # s) @ ?b # show_int t = (u' @ ?b # c' @ ?b # s') @ ?b # show_int t'"
    by simp
  then have t: "show_int t = show_int t'" and "u @ ?b # c @ ?b # s = u' @ ?b # c' @ ?b # s'"
    using split_at_last[OF _ show_int_no_bar show_int_no_bar] by blast+
  then have "(u @ ?b # c) @ ?b # s = (u' @ ?b # c') @ ?b # s'" by simp
  then have s: "s = s'" and "u @ ?b # c = u' @ ?b # c'"
    using assms split_at_last[of "u @ ?b # c" ?b s] by (simp_all add: no_bar_def)
  then have "u = u' \<and> c = c'"
    using assms split_at_last[of u ?b c] by (simp add: no_bar_def)
  with p t s show ?thesis by (simp add: show_int_inj)
qed

lemma no_bar_hash [simp]: "no_bar (compute_record_hash p u c s t)"
  by (simp add: no_bar_def compute_record_hash_def sha256_no_bar)

lemma no_bar_genesis [simp]: "no_bar GENESIS_HASH"
  by (simp add: no_bar_def GENESIS_HASH_def)

lemma length_compute_record_hash [simp]: "length (compute_record_hash p u c s t) = 64"
  by (simp add: compute_record_hash_def sha256_length)

section \<open>What the chain detects\<close>

definition hashed_fields :: "message_row \<Rightarrow> string \<times> string \<times> string \<times> pyval \<times> string" where
  "hashed_fields r = (m_username r, m_ciphertext r, m_signature r, m_timestamp r, m_record_hash r)"

text \<open>Ciphertext and signature are base64 text, so they hold no bar, and the timestamp is an integer.\<close>

definition row_clean :: "message_row \<Rightarrow> bool" where
  "row_clean r \<longleftrightarrow> no_bar (m_ciphertext r) \<and> no_bar (m_signature r) \<and>
     (case m_timestamp r of PInt _ \<Rightarrow> True | _ \<Rightarrow> False)"

definition chain_payloads :: "message_row list \<Rightarrow> bytes list" where
  "chain_payloads rows =
     map (\<lambda>(p, r). utf8_encode (record_payload p (m_username r) (m_ciphertext r) (m_signature r) (m_timestamp r)))
       (zip (GENESIS_HASH # map m_record_hash rows) rows)"

lemma links_zip: "vc.links p rows = set (zip (p # map m_record_hash rows) rows)"
  by (induction rows arbitrary: p) auto

lemma links_payload:
  assumes "(p, r) \<in> vc.links GENESIS_HASH rows"
  shows "utf8_encode (record_payload p (m_username r) (m_ciphertext r) (m_signature r) (m_timestamp r))
    \<in> set (chain_payloads rows)"
  using assms by (force simp: chain_payloads_def links_zip)

lemma row_link_payload:
  "row_link p r = sha256_hexdigest (utf8_encode (record_payload p (m_username r) (m_ciphertext r)
     (m_signature r) (m_timestamp r)))"
  by (simp add: row_link_def compute_record_hash_def)

lemma links_hash:
  "(p, r) \<in> vc.links GENESIS_HASH rows \<Longrightarrow>
     row_link p r \<in> sha256_hexdigest ` set (chain_payloads rows)"
  using links_payload by (simp add: row_link_payload)

lemma links_row: "(p, r) \<in> vc.links q rows \<Longrightarrow> r \<in> set rows"
  by (induction rows arbitrary: q) auto

lemma links_no_bar:
  "vc.intact q rows \<Longrightarrow> (p, r) \<in> vc.links q rows \<Longrightarrow> no_bar q \<Longrightarrow> no_bar p"
proof (induction rows arbitrary: q)
  case (Cons x rows)
  have "no_bar (m_record_hash x)" using Cons.prems(1) by (metis no_bar_hash row_link_def vc.intact_simps(2))
  with Cons show ?case by auto
qed simp

text \<open>The argument for histories that end in the same record hash.\<close>

lemma intact_commits:
  assumes "chain_intact rs" "chain_intact rs'" "chain_tip rs = chain_tip rs'"
    and "list_all row_clean rs" "list_all row_clean rs'"
    and "inj_on sha256_hexdigest (set (chain_payloads rs) \<union> set (chain_payloads rs'))"
    and "length rs = length rs' \<or>
      GENESIS_HASH \<notin> sha256_hexdigest ` (set (chain_payloads rs) \<union> set (chain_payloads rs'))"
  shows "map hashed_fields rs = map hashed_fields rs'"
proof (rule vc.tip_commits[where p = GENESIS_HASH])
  fix q r q' r'
  assume l: "(q, r) \<in> vc.links GENESIS_HASH rs" "(q', r') \<in> vc.links GENESIS_HASH rs'"
    and eq: "row_link q r = row_link q' r'"
  have same: "record_payload q (m_username r) (m_ciphertext r) (m_signature r) (m_timestamp r) =
      record_payload q' (m_username r') (m_ciphertext r') (m_signature r') (m_timestamp r')"
    using eq l[THEN links_payload] assms(6)
    unfolding row_link_payload by (metis UnCI inj_onD utf8_encode_inj)
  have nb: "no_bar q" "no_bar q'"
    using l assms(1,2) by (auto simp: chain_intact_vc intro: links_no_bar)
  have cl: "row_clean r" "row_clean r'"
    using l[THEN links_row] assms(4,5) by (simp_all add: list_all_iff)
  then obtain t t' where t: "m_timestamp r = PInt t" "m_timestamp r' = PInt t'"
    by (auto simp: row_clean_def split: pyval.splits)
  have "q = q' \<and> m_username r = m_username r' \<and> m_ciphertext r = m_ciphertext r' \<and>
      m_signature r = m_signature r' \<and> t = t'"
    using record_payload_inj[OF same[unfolded t]] nb cl by (simp add: row_clean_def)
  moreover have "m_record_hash r = m_record_hash r'"
    using eq l assms(1,2) by (metis chain_intact_vc vc.links_stored)
  ultimately show "q = q' \<and> hashed_fields r = hashed_fields r'"
    by (simp add: hashed_fields_def t)
next
  show "length rs = length rs' \<or>
    (\<forall>q r. (q, r) \<in> vc.links GENESIS_HASH rs \<union> vc.links GENESIS_HASH rs' \<longrightarrow> row_link q r \<noteq> GENESIS_HASH)"
    using assms(7) links_hash by (metis UnE UnCI image_Un)
qed (use assms in \<open>simp_all add: chain_intact_vc chain_tip_vc\<close>)

text \<open>
  C5: The hash of the last record commits to the whole history, for histories of the kind the program
  writes: take two histories that both pass \<open>verify_chain\<close> and end in the same record hash, whose rows
  have no bar in the ciphertext or the signature and an integer as timestamp (\<open>row_clean\<close>; without it
  the hashed text is ambiguous, see the property on shifting fields), and that are of equal length or
  contain no payload hashing to the genesis hash. As long as SHA-256 has no collision among the
  payloads of the two histories, they agree, record by record, in every field the hash covers.
\<close>
theorem verify_chain_commits:
  assumes "chain_intact rs" "chain_intact rs'" "chain_tip rs = chain_tip rs'"
    and "list_all row_clean rs" "list_all row_clean rs'"
    and "inj_on sha256_hexdigest (set (chain_payloads rs) \<union> set (chain_payloads rs'))"
    and "length rs = length rs' \<or>
      GENESIS_HASH \<notin> sha256_hexdigest ` (set (chain_payloads rs) \<union> set (chain_payloads rs'))"
  shows "map hashed_fields rs = map hashed_fields rs'"
  using intact_commits[OF assms] .

definition sample_row :: message_row where
  "sample_row = \<lparr>m_msg_id = ''m1'', m_username = ''alice'', m_plaintext = ''hi'',
     m_ciphertext = ''gAAA'', m_signature = ''MEUC'', m_pubkey = ''pem'', m_timestamp = PInt 1700000000000,
     m_prev_hash = GENESIS_HASH,
     m_record_hash = compute_record_hash GENESIS_HASH ''alice'' ''gAAA'' ''MEUC'' (PInt 1700000000000)\<rparr>"

lemma sample_row_intact: "chain_intact [sample_row\<lparr>m_plaintext := p\<rparr>]"
  using chain_intact_snoc[of "[]"] by (simp add: sample_row_def row_link_def chain_tip_def)

theorem verify_chain_commits_witness:
  "map hashed_fields [sample_row] = map hashed_fields [sample_row\<lparr>m_plaintext := ''edited''\<rparr>]"
  using sample_row_intact[of "''edited''"] sample_row_intact[of "''hi''"]
  by (intro verify_chain_commits)
    (simp_all add: sample_row_def chain_tip_def row_clean_def no_bar_def chain_payloads_def)

text \<open>
  C14: The verdict on row \<open>i\<close> is exactly whether its record hash is the hash of its fields after the
  record hash stored in row \<open>i - 1\<close> (the genesis hash for the first row), one verdict per row.
\<close>
theorem verify_chain_verdicts:
  "verify_chain rows =
     map (\<lambda>i. row_link (if i = 0 then GENESIS_HASH else m_record_hash (rows ! (i - 1))) (rows ! i) =
       m_record_hash (rows ! i)) [0..<length rows]"
proof (rule nth_equalityI)
  fix i
  assume "i < length (verify_chain rows)"
  then have i: "i < length rows" by (simp add: verify_chain_def)
  then have "vc.tip GENESIS_HASH (take i rows) =
      (if i = 0 then GENESIS_HASH else m_record_hash (rows ! (i - 1)))"
    by (auto simp: vc.tip_def last_conv_nth)
  with i show "verify_chain rows ! i =
      map (\<lambda>i. row_link (if i = 0 then GENESIS_HASH else m_record_hash (rows ! (i - 1))) (rows ! i) =
        m_record_hash (rows ! i)) [0..<length rows] ! i"
    by (simp add: verify_chain_def vc.check_nth)
qed (simp add: verify_chain_def)

text \<open>
  C28: An edited row that keeps its stored record hash changes its own verdict only: the verdicts of
  all later rows stay what they were.
\<close>
theorem verify_chain_edit_is_local:
  assumes "m_record_hash r' = m_record_hash r"
  shows "verify_chain (rs @ r' # ss) =
    (verify_chain (rs @ r # ss))[length rs := verify_record r' (chain_tip rs)]"
  using vc.check_edit[OF assms, of GENESIS_HASH rs ss] assms
  by (simp add: verify_chain_def verify_record_def row_link_def chain_tip_vc)

theorem verify_chain_edit_is_local_witness:
  "verify_chain ([sample_row] @ sample_row\<lparr>m_username := ''mallory''\<rparr> # [sample_row]) =
     (verify_chain ([sample_row] @ sample_row # [sample_row]))
       [1 := verify_record (sample_row\<lparr>m_username := ''mallory''\<rparr>) (m_record_hash sample_row)]"
  using verify_chain_edit_is_local[of "sample_row\<lparr>m_username := ''mallory''\<rparr>" sample_row "[sample_row]" "[sample_row]"]
  by (simp add: chain_tip_def)

text \<open>
  C29: The walk does not look at the message id, the plaintext, the public key or the stored previous
  hash: rewriting these columns in any row changes no verdict. Cutting the newest rows off changes
  no verdict on the rows that remain.
\<close>
theorem verify_chain_blind_spots:
  "verify_chain (map (\<lambda>r. r\<lparr>m_msg_id := a r, m_plaintext := b r, m_pubkey := c r, m_prev_hash := d r\<rparr>) rows)
     = verify_chain rows \<and>
   verify_chain (take n rows) = take n (verify_chain rows)"
proof
  have "verify_loop res p (map (\<lambda>r. r\<lparr>m_msg_id := a r, m_plaintext := b r, m_pubkey := c r, m_prev_hash := d r\<rparr>) rows)
      = verify_loop res p rows" for res p
    by (induction rows arbitrary: res p) (simp_all add: verify_record_def)
  then show "verify_chain (map (\<lambda>r. r\<lparr>m_msg_id := a r, m_plaintext := b r, m_pubkey := c r, m_prev_hash := d r\<rparr>) rows)
      = verify_chain rows"
    by (simp add: verify_chain_def)
  show "verify_chain (take n rows) = take n (verify_chain rows)"
  proof (cases "n \<le> length rows")
    case True
    with vc.check_append[of GENESIS_HASH "take n rows" "drop n rows"] show ?thesis
      by (simp add: verify_chain_def)
  qed (simp add: verify_chain_def)
qed

text \<open>
  C30: The bar that separates the hashed fields is not escaped: moving text across the boundary of
  user name and ciphertext leaves the record hash and the verdict as they were.
\<close>
theorem verify_record_field_shift:
  "verify_record (r\<lparr>m_username := u @ ''|'' @ x, m_ciphertext := c\<rparr>) p =
   verify_record (r\<lparr>m_username := u, m_ciphertext := x @ ''|'' @ c\<rparr>) p"
  by (simp add: verify_record_def compute_record_hash_def record_payload_def)

end
