(* ===== verification/Db.thy ===== *)
theory Db
  imports SqlTable SqlAffinity MessageLog Integrity
begin

text \<open>
  db.py: the state the module keeps (the SQLite file, its connection with a possibly open
  transaction, the set of seen ids, the in-memory feed, the queue of rows waiting to be written)
  and its operations. Statements run inside a transaction that only \<open>commit\<close> makes durable: the
  connection sees \<open>db_view\<close>, a restart sees \<open>db_disk\<close>. The timestamp column has INTEGER affinity; how
  the linked SQLite reads a literal that is no plain integer is the field \<open>sql_lit\<close>, which no
  operation changes. SQLite's I/O errors are not modelled.
\<close>

section \<open>State\<close>

record db_image =
  img_messages :: "message_row sqltable"
  img_users :: "(string, string) pydict"

record db_state =
  db_disk :: db_image
  db_txn :: "db_image option"
  conn_pid :: "int option"
  os_pid :: int
  seen_msg_ids :: "string set"
  memory_feed :: "feed_item list"
  write_queue :: "message_row list"
  writer_started :: bool
  sql_lit :: "string \<Rightarrow> sql_float"

text \<open>\<open>DB_SERVICE_URL\<close> and \<open>IS_SHARED_DB_HOST\<close>.\<close>

record db_config =
  db_service_url :: string
  is_shared_db_host :: bool

definition db_view :: "db_state \<Rightarrow> db_image" where
  "db_view s = (case db_txn s of None \<Rightarrow> db_disk s | Some i \<Rightarrow> i)"

definition write_queue_maxsize :: nat where
  "write_queue_maxsize = 200000"

section \<open>Connection and statements\<close>

text \<open>A new connection, in particular after a fork, starts from the committed file.\<close>

definition get_conn :: "db_state \<Rightarrow> db_state" where
  "get_conn s =
     (if conn_pid s = None \<or> conn_pid s \<noteq> Some (os_pid s)
      then s\<lparr>conn_pid := Some (os_pid s), db_txn := None\<rparr> else s)"

definition db_commit :: "db_state \<Rightarrow> db_state" where
  "db_commit s = s\<lparr>db_disk := db_view s, db_txn := None\<rparr>"

fun bind_value :: "pyval \<Rightarrow> pyexc option" where
  "bind_value (PInt n) =
     (if - (2 ^ 63) \<le> n \<and> n < 2 ^ 63 then None
      else Some (Exn OverflowError ''Python int too large to convert to SQLite INTEGER''))"
| "bind_value (PList _) = Some (Exn ProgrammingError ''type list is not supported'')"
| "bind_value (PDict _) = Some (Exn ProgrammingError ''type dict is not supported'')"
| "bind_value _ = None"

definition messages_bind_error :: "message_row \<Rightarrow> pyexc option" where
  "messages_bind_error r = bind_value (m_timestamp r)"

definition messages_key :: "message_row \<Rightarrow> string option" where
  "messages_key r = Some (m_msg_id r)"

text \<open>The text columns are never \<open>NULL\<close>; \<open>None\<close> and NaN are bound as \<open>NULL\<close>.\<close>

definition messages_not_null :: "message_row \<Rightarrow> bool" where
  "messages_not_null r \<longleftrightarrow> m_timestamp r \<noteq> PNone \<and> m_timestamp r \<noteq> PFloat FNan"

definition messages_put :: "message_row \<Rightarrow> message_row sqltable \<Rightarrow> message_row sqltable" where
  "messages_put = sql_insert_or_ignore messages_key messages_not_null"

text \<open>The row as its columns hold it.\<close>

definition messages_convert :: "(string \<Rightarrow> sql_float) \<Rightarrow> message_row \<Rightarrow> message_row" where
  "messages_convert lit r = r\<lparr>m_timestamp := integer_affinity lit (m_timestamp r)\<rparr>"

definition messages_insert ::
  "(string \<Rightarrow> sql_float) \<Rightarrow> message_row \<Rightarrow> message_row sqltable \<Rightarrow> message_row sqltable" where
  "messages_insert lit r = messages_put (messages_convert lit r)"

definition insert_rows :: "message_row list \<Rightarrow> db_state \<Rightarrow> pyexc option \<times> db_state" where
  "insert_rows rows s =
     (let s1 = get_conn s;
          (t, err) = sql_executemany messages_bind_error (messages_insert (sql_lit s1)) rows (img_messages (db_view s1))
      in (err, s1\<lparr>db_txn := Some ((db_view s1)\<lparr>img_messages := t\<rparr>)\<rparr>))"

section \<open>Start-up\<close>

definition ensure_writer_started :: "db_state \<Rightarrow> db_state" where
  "ensure_writer_started s = (if \<not> writer_started s then s\<lparr>writer_started := True\<rparr> else s)"

definition init_db :: "db_state \<Rightarrow> db_state" where
  "init_db s =
     (let rows = map snd (sql_select_by_id (img_messages (db_disk s)))
      in ensure_writer_started
           (s\<lparr>seen_msg_ids := set (map m_msg_id rows), memory_feed := map feed_of_row rows\<rparr>))"

definition get_last_hash :: "db_state \<Rightarrow> string \<times> db_state" where
  "get_last_hash s =
     (let s1 = get_conn s
      in (case rev (sql_select_by_id (img_messages (db_view s1))) of
            [] \<Rightarrow> replicate 64 (CHR ''0'')
          | (i, r) # _ \<Rightarrow> m_record_hash r, s1))"

section \<open>Saving one message\<close>

text \<open>The locked regions of \<open>save_message\<close>, each atomic.\<close>

definition seen_add :: "string \<Rightarrow> db_state \<Rightarrow> bool \<times> db_state" where
  "seen_add i s =
     (if i \<in> seen_msg_ids s then (False, s)
      else (True, s\<lparr>seen_msg_ids := insert i (seen_msg_ids s)\<rparr>))"

definition feed_append :: "feed_item \<Rightarrow> db_state \<Rightarrow> db_state" where
  "feed_append item s = s\<lparr>memory_feed := memory_feed s @ [item]\<rparr>"

text \<open>\<open>put_nowait\<close>: \<open>None\<close> where it raises \<open>queue.Full\<close>; the direct write is a region of its own.\<close>

definition queue_put :: "message_row \<Rightarrow> db_state \<Rightarrow> db_state option" where
  "queue_put r s =
     (if length (write_queue s) < write_queue_maxsize
      then Some (s\<lparr>write_queue := write_queue s @ [r]\<rparr>) else None)"

definition write_through :: "message_row \<Rightarrow> db_state \<Rightarrow> pyexc option \<times> db_state" where
  "write_through r s =
     (case insert_rows [r] s of
        (Some e, s1) \<Rightarrow> (Some e, s1)
      | (None, s1) \<Rightarrow> (None, db_commit s1))"

definition enqueue_row :: "message_row \<Rightarrow> db_state \<Rightarrow> pyexc option \<times> db_state" where
  "enqueue_row r s =
     (case queue_put r s of
        Some s1 \<Rightarrow> (None, s1)
      | None \<Rightarrow> write_through r s)"

definition save_message :: "message_row \<Rightarrow> db_state \<Rightarrow> bool res \<times> db_state" where
  "save_message r s =
     (let s0 = ensure_writer_started s
      in case seen_add (m_msg_id r) s0 of
           (False, s1) \<Rightarrow> (Inr False, s1)
         | (True, s1) \<Rightarrow>
             (case enqueue_row r (feed_append (feed_of_row r) s1) of
                (Some e, s2) \<Rightarrow> (Inl e, s2)
              | (None, s2) \<Rightarrow> (Inr True, s2)))"

section \<open>Reading\<close>

definition load_history :: "nat \<Rightarrow> db_state \<Rightarrow> pyval list" where
  "load_history limit s =
     map (\<lambda>t. PDict [(''username'', PStr (f_username t)), (''plaintext'', PStr (f_plaintext t)),
       (''timestamp'', f_timestamp t)]) (take limit (memory_feed s))"

definition feed_entry :: "feed_item \<Rightarrow> pyval" where
  "feed_entry t = PDict [(''id'', PStr (f_id t)), (''client-name'', PStr (f_username t)),
     (''msg'', PStr (f_plaintext t)), (''timestamp'', f_timestamp t)]"

definition get_messages_for_feed :: "db_state \<Rightarrow> pyval list" where
  "get_messages_for_feed s = map feed_entry (memory_feed s)"

definition get_feed_json :: "db_state \<Rightarrow> string" where
  "get_feed_json s = json_dumps (PList (map feed_entry (memory_feed s)))"

definition message_exists :: "string \<Rightarrow> db_state \<Rightarrow> bool" where
  "message_exists i s \<longleftrightarrow> i \<in> seen_msg_ids s"

definition get_message_count :: "db_state \<Rightarrow> nat" where
  "get_message_count s = card (seen_msg_ids s)"

definition shared_entry :: "nat \<times> message_row \<Rightarrow> pyval" where
  "shared_entry ir = (case ir of (i, r) \<Rightarrow> PDict
     [(''id'', PInt (int i)), (''msg_id'', PStr (m_msg_id r)), (''username'', PStr (m_username r)),
      (''display_name'', PStr (m_username r)), (''ciphertext'', PStr (m_ciphertext r)),
      (''signature'', PStr (m_signature r)), (''hmac_digest'', PStr (m_record_hash r)),
      (''timestamp'', m_timestamp r), (''plaintext'', PStr (m_plaintext r))])"

definition load_shared_messages :: "int \<Rightarrow> db_state \<Rightarrow> pyval list res \<times> db_state" where
  "load_shared_messages limit s =
     (let s1 = get_conn s
      in case bind_value (PInt limit) of
           Some e \<Rightarrow> (Inl e, s1)
         | None \<Rightarrow> (Inr (map shared_entry (sql_limit limit (sql_select_by_id (img_messages (db_view s1))))), s1))"

definition upsert_user_pubkey :: "string \<Rightarrow> string \<Rightarrow> db_state \<Rightarrow> db_state" where
  "upsert_user_pubkey username pubkey s =
     (let s1 = get_conn s; i = db_view s1
      in db_commit (s1\<lparr>db_txn := Some (i\<lparr>img_users := dict_set username pubkey (img_users i)\<rparr>)\<rparr>))"

section \<open>Batch ingestion\<close>

definition str_or2 :: "(string \<times> pyval) list \<Rightarrow> string \<Rightarrow> string \<Rightarrow> string" where
  "str_or2 d k1 k2 = py_str (py_or (py_or (dget d k1) (dget d k2)) (PStr []))"

definition str_or3 :: "(string \<times> pyval) list \<Rightarrow> string \<Rightarrow> string \<Rightarrow> string \<Rightarrow> string" where
  "str_or3 d k1 k2 k3 = py_str (py_or (py_or (py_or (dget d k1) (dget d k2)) (dget d k3)) (PStr []))"

definition str_or1 :: "(string \<times> pyval) list \<Rightarrow> string \<Rightarrow> string" where
  "str_or1 d k = py_str (py_or (dget d k) (PStr []))"

text \<open>
  \<open>int(item.get("timestamp") or time.time() * 1000)\<close>: \<open>ValueError\<close> and \<open>TypeError\<close> fall back to
  the clock, \<open>OverflowError\<close> is not caught. \<open>now\<close> is the clock in milliseconds, already truncated.
\<close>

definition batch_timestamp :: "int \<Rightarrow> (string \<times> pyval) list \<Rightarrow> int res" where
  "batch_timestamp now d =
     (let v = dget d ''timestamp''
      in if \<not> truthy v then Inr now
         else case py_int v of
                Inr n \<Rightarrow> Inr n
              | Inl e \<Rightarrow> if exn_class e \<in> {ValueError, TypeError} then Inr now else Inl e)"

text \<open>One turn of the loop: \<open>None\<close> for an item without an id, which is skipped.\<close>

definition batch_item :: "int \<Rightarrow> pyval \<Rightarrow> message_row option res" where
  "batch_item now item =
     (case item of
        PDict d \<Rightarrow>
          (let msg_id = str_or2 d ''msg_id'' ''id''
           in if msg_id = [] then Inr None
              else case batch_timestamp now d of
                     Inl e \<Rightarrow> Inl e
                   | Inr ts \<Rightarrow> Inr (Some \<lparr>m_msg_id = msg_id,
                       m_username = str_or3 d ''username'' ''display_name'' ''client-name'',
                       m_plaintext = str_or3 d ''plaintext'' ''msg'' ''text'',
                       m_ciphertext = str_or1 d ''ciphertext'', m_signature = str_or1 d ''signature'',
                       m_pubkey = str_or1 d ''pubkey_jwk'', m_timestamp = PInt ts,
                       m_prev_hash = str_or1 d ''prev_hash'',
                       m_record_hash = str_or2 d ''record_hash'' ''hmac_digest''\<rparr>))
      | v \<Rightarrow> (case py_get v ''msg_id'' of Inl e \<Rightarrow> Inl e | Inr _ \<Rightarrow> Inr None))"

fun batch_rows :: "int \<Rightarrow> pyval list \<Rightarrow> message_row list res" where
  "batch_rows now [] = Inr []"
| "batch_rows now (item # items) =
     (case batch_item now item of
        Inl e \<Rightarrow> Inl e
      | Inr None \<Rightarrow> batch_rows now items
      | Inr (Some r) \<Rightarrow> map_sum id ((#) r) (batch_rows now items))"

definition save_messages_batch :: "db_config \<Rightarrow> int \<Rightarrow> pyval list \<Rightarrow> db_state \<Rightarrow> nat res \<times> db_state" where
  "save_messages_batch cfg now batch s =
     (if batch = [] then (Inr 0, s)
      else case batch_rows now batch of
             Inl e \<Rightarrow> (Inl e, s)
           | Inr rows \<Rightarrow>
               if rows = [] then (Inr 0, s)
               else (case insert_rows rows s of
                       (Some e, s1) \<Rightarrow> (Inl e, s1)
                     | (None, s1) \<Rightarrow>
                         (let s2 = db_commit s1
                          in (Inr (length rows),
                              if \<not> is_shared_db_host cfg
                              then s2\<lparr>seen_msg_ids := seen_msg_ids s2 \<union> set (map m_msg_id rows),
                                     memory_feed := memory_feed s2 @ map feed_of_row rows\<rparr>
                              else s2))))"

section \<open>Reset\<close>

text \<open>The module defines \<open>reset_db\<close> twice; the second definition is the one in force.\<close>

fun drain_queue :: "'a list \<Rightarrow> 'a list" where
  "drain_queue [] = []"
| "drain_queue (x # xs) = drain_queue xs"

definition delete_messages :: "db_state \<Rightarrow> db_state" where
  "delete_messages s =
     (let s1 = get_conn s; i = db_view s1
      in db_commit (s1\<lparr>db_txn := Some (i\<lparr>img_messages := sql_delete_all (img_messages i)\<rparr>)\<rparr>))"

definition reset_db :: "db_state \<Rightarrow> db_state" where
  "reset_db s =
     (let s1 = s\<lparr>write_queue := drain_queue (write_queue s)\<rparr>;
          s2 = s1\<lparr>seen_msg_ids := {}\<rparr>;
          s3 = s2\<lparr>memory_feed := []\<rparr>
      in delete_messages s3)"

text \<open>The first definition, which the second one shadows: it leaves the write queue alone.\<close>

definition reset_db_shadowed :: "db_state \<Rightarrow> db_state" where
  "reset_db_shadowed s = (delete_messages s)\<lparr>seen_msg_ids := {}, memory_feed := []\<rparr>"

declare get_conn_def [run_defs] db_view_def [run_defs] db_commit_def [run_defs]
  messages_bind_error_def [run_defs] messages_key_def [run_defs] messages_not_null_def [run_defs]
  messages_put_def [run_defs] messages_convert_def [run_defs] messages_insert_def [run_defs]
  insert_rows_def [run_defs] ensure_writer_started_def [run_defs]
  seen_add_def [run_defs] feed_append_def [run_defs] enqueue_row_def [run_defs]
  queue_put_def [run_defs] write_through_def [run_defs]
  write_queue_maxsize_def [run_defs] message_exists_def [run_defs] delete_messages_def [run_defs]

end
