(* ===== verification/DbInv.thy ===== *)
theory DbInv
  imports Db
begin

text \<open>
  What db.py keeps: well-formed tables (\<open>db_wf\<close>), agreement of the seen ids with the feed
  (\<open>feed_ok\<close>), and agreement of the feed with what is stored or still queued (\<open>durable_ok\<close>). The
  message table is a \<open>row_store\<close>, the module as a whole a \<open>message_log\<close>.
\<close>

interpretation msgs: row_store messages_put contents messages_key messages_not_null
  "table_wf messages_key"
  unfolding messages_put_def by (rule sql_row_store)

section \<open>Frames\<close>

lemma view_get_conn: "conn_pid s = Some (os_pid s) \<Longrightarrow> get_conn s = s"
  by (simp add: get_conn_def)

lemma get_conn_fields [simp]:
  "db_disk (get_conn s) = db_disk s" "seen_msg_ids (get_conn s) = seen_msg_ids s"
  "memory_feed (get_conn s) = memory_feed s" "write_queue (get_conn s) = write_queue s"
  "os_pid (get_conn s) = os_pid s" "sql_lit (get_conn s) = sql_lit s" "conn_pid (get_conn s) = Some (os_pid s)"
  by (simp_all add: get_conn_def)

lemma get_conn_idem [simp]: "get_conn (get_conn s) = get_conn s"
  by (simp add: get_conn_def)

lemma commit_fields [simp]:
  "db_disk (db_commit s) = db_view s" "db_txn (db_commit s) = None" "db_view (db_commit s) = db_view s"
  "seen_msg_ids (db_commit s) = seen_msg_ids s" "memory_feed (db_commit s) = memory_feed s"
  "write_queue (db_commit s) = write_queue s" "os_pid (db_commit s) = os_pid s"
  "conn_pid (db_commit s) = conn_pid s" "sql_lit (db_commit s) = sql_lit s"
  by (simp_all add: db_commit_def db_view_def)

text \<open>The messages the connection sees, as a list of rows in insertion order.\<close>

definition stored :: "db_state \<Rightarrow> message_row list" where
  "stored s = contents (img_messages (db_view (get_conn s)))"

definition committed :: "db_state \<Rightarrow> message_row list" where
  "committed s = contents (img_messages (db_disk s))"

section \<open>What the columns hold\<close>

definition feed_convert :: "(string \<Rightarrow> sql_float) \<Rightarrow> feed_item \<Rightarrow> feed_item" where
  "feed_convert lit t = t\<lparr>f_timestamp := integer_affinity lit (f_timestamp t)\<rparr>"

abbreviation col_row :: "db_state \<Rightarrow> message_row \<Rightarrow> message_row" where
  "col_row s \<equiv> messages_convert (sql_lit s)"

abbreviation col_item :: "db_state \<Rightarrow> feed_item \<Rightarrow> feed_item" where
  "col_item s \<equiv> feed_convert (sql_lit s)"

lemma convert_fields [simp]:
  "m_msg_id (messages_convert lit r) = m_msg_id r"
  "m_record_hash (messages_convert lit r) = m_record_hash r"
  "m_prev_hash (messages_convert lit r) = m_prev_hash r"
  "messages_key (messages_convert lit r) = messages_key r"
  "messages_not_null (messages_convert lit r) = messages_not_null r"
  "messages_convert lit (messages_convert lit r) = messages_convert lit r"
  "f_id (feed_convert lit t) = f_id t"
  by (simp_all add: messages_convert_def feed_convert_def messages_key_def messages_not_null_def)

lemma feed_of_convert: "feed_of_row (messages_convert lit r) = feed_convert lit (feed_of_row r)"
  by (simp add: messages_convert_def feed_convert_def feed_of_row_def)

lemma convert_feed:
  "map (feed_convert lit) (map feed_of_row rs) = map feed_of_row (map (messages_convert lit) rs)"
  by (simp add: feed_of_convert)

lemma convert_keys:
  "messages_key ` {r \<in> set (map (messages_convert lit) rs). messages_not_null r} =
     messages_key ` {r \<in> set rs. messages_not_null r}"
  by (auto simp: image_iff) force

lemma convert_int [simp]:
  "int_time (m_timestamp r) \<Longrightarrow> messages_convert lit r = r"
  "int_time (f_timestamp t) \<Longrightarrow> feed_convert lit t = t"
  by (simp_all add: messages_convert_def feed_convert_def)

lemma convert_ids [simp]: "map (m_msg_id \<circ> messages_convert lit) rs = map m_msg_id rs"
  "map (f_id \<circ> feed_convert lit) ts = map f_id ts"
  by simp_all

text \<open>Every row of the table is as its columns hold it.\<close>

definition columns_ok :: "(string \<Rightarrow> sql_float) \<Rightarrow> message_row list \<Rightarrow> bool" where
  "columns_ok lit rows \<longleftrightarrow> map (messages_convert lit) rows = rows"

lemma insert_fold:
  "fold (messages_insert lit) rs t = fold messages_put (map (messages_convert lit) rs) t"
  by (induction rs arbitrary: t) (simp_all add: messages_insert_def)

lemma columns_fold:
  assumes "table_wf messages_key t" "columns_ok lit (contents t)"
  shows "columns_ok lit (contents (fold messages_put (map (messages_convert lit) rs) t))"
proof -
  let ?rs = "map (messages_convert lit) rs"
  have keep: "f x = x" if "map f xs = xs" "x \<in> set xs" for f :: "'a \<Rightarrow> 'a" and x xs
    using that by (induction xs) auto
  have sub: "set (contents (fold messages_put ?rs t)) \<subseteq> set (contents t) \<union> set ?rs"
    by (rule msgs.rows_fold_subset[OF assms(1)])
  have "messages_convert lit r = r" if "r \<in> set (contents t) \<union> set ?rs" for r
    using that keep[OF assms(2)[unfolded columns_ok_def]] by auto
  with sub show ?thesis unfolding columns_ok_def by (intro map_idI) blast
qed

section \<open>Invariants\<close>

definition db_wf :: "db_state \<Rightarrow> bool" where
  "db_wf s \<longleftrightarrow>
     table_wf messages_key (img_messages (db_disk s)) \<and>
     table_wf messages_key (img_messages (db_view (get_conn s))) \<and>
     columns_ok (sql_lit s) (contents (img_messages (db_disk s))) \<and>
     columns_ok (sql_lit s) (contents (img_messages (db_view (get_conn s)))) \<and>
     dict_ok (img_users (db_disk s)) \<and> dict_ok (img_users (db_view (get_conn s)))"

text \<open>The seen set and the feed describe the same messages, each once.\<close>

definition feed_ok :: "db_state \<Rightarrow> bool" where
  "feed_ok s \<longleftrightarrow> distinct (map f_id (memory_feed s)) \<and> set (map f_id (memory_feed s)) = seen_msg_ids s"

text \<open>
  Everything in the feed is stored or queued, in the order of the feed, up to what the column makes of
  a timestamp, and what is queued can be written.
\<close>

definition durable_ok :: "db_state \<Rightarrow> bool" where
  "durable_ok s \<longleftrightarrow>
     map feed_of_row (stored s @ map (col_row s) (write_queue s)) = map (col_item s) (memory_feed s) \<and>
     (\<forall>r \<in> set (write_queue s). messages_bind_error r = None \<and> messages_not_null r)"

lemma insert_rows_fields [simp]:
  "seen_msg_ids (snd (insert_rows rs s)) = seen_msg_ids s"
  "memory_feed (snd (insert_rows rs s)) = memory_feed s"
  "write_queue (snd (insert_rows rs s)) = write_queue s"
  "db_disk (snd (insert_rows rs s)) = db_disk s"
  "os_pid (snd (insert_rows rs s)) = os_pid s"
  "conn_pid (snd (insert_rows rs s)) = Some (os_pid s)" "sql_lit (snd (insert_rows rs s)) = sql_lit s"
  by (simp_all add: insert_rows_def Let_def split: prod.split)

lemma insert_rows_view:
  "img_messages (db_view (snd (insert_rows rs s))) =
     fold messages_put (map (col_row s) (bindable_prefix messages_bind_error rs)) (img_messages (db_view (get_conn s)))"
  "img_users (db_view (snd (insert_rows rs s))) = img_users (db_view (get_conn s))"
  by (simp_all add: insert_rows_def Let_def executemany_result db_view_def insert_fold split: prod.split)

lemma insert_rows_error:
  "fst (insert_rows rs s) = None \<longleftrightarrow> (\<forall>r \<in> set rs. messages_bind_error r = None)"
  using executemany_error[of messages_bind_error "messages_insert (sql_lit s)" rs]
  by (simp add: insert_rows_def Let_def split: prod.split) (metis sndI)

lemma insert_rows_wf:
  assumes "db_wf s"
  shows "db_wf (snd (insert_rows rs s))"
  using assms msgs.wf_fold columns_fold
  by (simp add: db_wf_def view_get_conn insert_rows_view)

lemma commit_wf: "db_wf s \<Longrightarrow> conn_pid s = Some (os_pid s) \<Longrightarrow> db_wf (db_commit s)"
  by (simp add: db_wf_def view_get_conn)

lemma stored_insert_rows:
  assumes "db_wf s"
  shows "stored (snd (insert_rows rs s)) =
    stored s @ msgs.fresh_rows (stored s) (map (col_row s) (bindable_prefix messages_bind_error rs))"
  using assms by (simp add: stored_def view_get_conn insert_rows_view msgs.rows_fold db_wf_def)

lemma stored_commit [simp]:
  "conn_pid s = Some (os_pid s) \<Longrightarrow> stored (db_commit s) = stored s"
  "committed (db_commit s) = contents (img_messages (db_view s))"
  by (simp_all add: stored_def committed_def view_get_conn)

lemma bindable_all:
  "\<forall>r \<in> set rs. messages_bind_error r = None \<Longrightarrow> bindable_prefix messages_bind_error rs = rs"
  by (simp add: bindable_prefix_def takeWhile_eq_all_conv)

section \<open>Saving\<close>

lemma ensure_writer_fields [simp]:
  "db_disk (ensure_writer_started s) = db_disk s" "db_txn (ensure_writer_started s) = db_txn s"
  "seen_msg_ids (ensure_writer_started s) = seen_msg_ids s"
  "memory_feed (ensure_writer_started s) = memory_feed s"
  "write_queue (ensure_writer_started s) = write_queue s"
  "conn_pid (ensure_writer_started s) = conn_pid s" "os_pid (ensure_writer_started s) = os_pid s"
  "sql_lit (ensure_writer_started s) = sql_lit s"
  by (simp_all add: ensure_writer_started_def)

lemma write_through_eq:
  "write_through r s =
     (fst (insert_rows [r] s),
      if fst (insert_rows [r] s) = None then db_commit (snd (insert_rows [r] s)) else snd (insert_rows [r] s))"
  by (cases "insert_rows [r] s") (simp add: write_through_def split: option.split)

lemma enqueue_fields [simp]:
  "seen_msg_ids (snd (enqueue_row r s)) = seen_msg_ids s"
  "memory_feed (snd (enqueue_row r s)) = memory_feed s"
  "sql_lit (snd (enqueue_row r s)) = sql_lit s"
  by (simp_all add: enqueue_row_def queue_put_def write_through_eq)

text \<open>The state between the two in-memory updates and the queue.\<close>

definition admit :: "message_row \<Rightarrow> db_state \<Rightarrow> db_state" where
  "admit r s = feed_append (feed_of_row r) ((ensure_writer_started s)
     \<lparr>seen_msg_ids := insert (m_msg_id r) (seen_msg_ids s)\<rparr>)"

lemma admit_fields [simp]:
  "seen_msg_ids (admit r s) = insert (m_msg_id r) (seen_msg_ids s)"
  "memory_feed (admit r s) = memory_feed s @ [feed_of_row r]"
  "write_queue (admit r s) = write_queue s"
  "db_disk (admit r s) = db_disk s" "db_txn (admit r s) = db_txn s"
  "conn_pid (admit r s) = conn_pid s" "os_pid (admit r s) = os_pid s" "sql_lit (admit r s) = sql_lit s"
  by (simp_all add: admit_def feed_append_def)

lemma save_message_fresh:
  assumes "m_msg_id r \<notin> seen_msg_ids s"
  shows "save_message r s =
    (case fst (enqueue_row r (admit r s)) of None \<Rightarrow> Inr True | Some e \<Rightarrow> Inl e,
     snd (enqueue_row r (admit r s)))"
  using assms by (simp add: save_message_def seen_add_def Let_def admit_def split: prod.split option.split)

lemma save_message_new:
  assumes "m_msg_id r \<notin> seen_msg_ids s"
  shows "seen_msg_ids (snd (save_message r s)) = insert (m_msg_id r) (seen_msg_ids s)"
    and "memory_feed (snd (save_message r s)) = memory_feed s @ [feed_of_row r]"
    and "fst (save_message r s) \<noteq> Inr False"
  using assms by (simp_all add: save_message_fresh split: option.split)

lemma save_message_dup:
  "m_msg_id r \<in> seen_msg_ids s \<Longrightarrow> save_message r s = (Inr False, ensure_writer_started s)"
  by (simp add: save_message_def seen_add_def Let_def)

text \<open>Whether a message was accepted: every outcome but \<open>False\<close>, an exception included.\<close>

definition save_accepts :: "message_row \<Rightarrow> db_state \<Rightarrow> bool \<times> db_state" where
  "save_accepts r s = (case save_message r s of (v, s') \<Rightarrow> (v \<noteq> Inr False, s'))"

lemma save_accepts_simps:
  "fst (save_accepts r s) = (fst (save_message r s) \<noteq> Inr False)"
  "snd (save_accepts r s) = snd (save_message r s)"
  by (simp_all add: save_accepts_def split: prod.split)

interpretation dblog: message_log save_accepts memory_feed feed_of_row f_id feed_ok
proof unfold_locales
  fix s m
  assume ok: "feed_ok s"
  show "f_id (feed_of_row m) \<notin> f_id ` set (memory_feed s) \<Longrightarrow>
      fst (save_accepts m s) \<and> memory_feed (snd (save_accepts m s)) = memory_feed s @ [feed_of_row m]"
    using ok by (simp add: save_accepts_simps feed_ok_def save_message_new)
  show "f_id (feed_of_row m) \<in> f_id ` set (memory_feed s) \<Longrightarrow>
      \<not> fst (save_accepts m s) \<and> memory_feed (snd (save_accepts m s)) = memory_feed s"
    using ok by (simp add: save_accepts_simps feed_ok_def save_message_dup)
  show "feed_ok (snd (save_accepts m s))"
    using ok save_message_new[of m s] save_message_dup[of m s]
    by (cases "m_msg_id m \<in> seen_msg_ids s") (auto simp: save_accepts_simps feed_ok_def)
  show "distinct (map f_id (memory_feed s))"
    using ok by (simp add: feed_ok_def)
qed

end
