(* ===== verification/Writer.thy ===== *)
theory Writer
  imports DbInv
begin

text \<open>
  The background writer of db.py: one turn of its loop takes a batch of at most 200 rows off the
  queue, inserts it, commits, and replicates it to the shared database service. Every turn is
  split where another thread can run: \<open>writer_take\<close> empties the queue, \<open>writer_flush\<close> holds the
  database lock. The durability results are about whole runs of the writer.
\<close>

section \<open>The code\<close>

definition batch_limit :: nat where
  "batch_limit = 200"

text \<open>\<open>while len(batch) < 200\<close>, stopped by \<open>queue.Empty\<close>.\<close>

fun fill_batch :: "message_row list \<Rightarrow> message_row list \<Rightarrow> message_row list \<times> message_row list" where
  "fill_batch batch [] = (batch, [])"
| "fill_batch batch (r # q) =
     (if length batch < batch_limit then fill_batch (batch @ [r]) q else (batch, r # q))"

text \<open>The blocking \<open>get\<close> times out on an empty queue: no batch.\<close>

definition writer_take :: "db_state \<Rightarrow> message_row list \<times> db_state" where
  "writer_take s =
     (case write_queue s of
        [] \<Rightarrow> ([], s)
      | r # q \<Rightarrow> (case fill_batch [r] q of (batch, q') \<Rightarrow> (batch, s\<lparr>write_queue := q'\<rparr>)))"

definition replicated_row :: "message_row \<Rightarrow> pyval" where
  "replicated_row r = PDict
     [(''msg_id'', PStr (m_msg_id r)), (''username'', PStr (m_username r)),
      (''display_name'', PStr (m_username r)), (''plaintext'', PStr (m_plaintext r)),
      (''ciphertext'', PStr (m_ciphertext r)), (''signature'', PStr (m_signature r)),
      (''pubkey_jwk'', PStr (m_pubkey r)), (''timestamp'', PStr (py_str (m_timestamp r))),
      (''prev_hash'', PStr (m_prev_hash r)), (''hmac_digest'', PStr (m_record_hash r))]"

text \<open>
  The result is the list posted to \<open>DB_SERVICE_URL/messages/batch\<close>, if any; whether the service
  answers makes no difference to the writer. An exception while inserting drops the batch.
\<close>

definition writer_flush :: "db_config \<Rightarrow> message_row list \<Rightarrow> db_state \<Rightarrow> pyval list option \<times> db_state" where
  "writer_flush cfg batch s =
     (if batch = [] then (None, s)
      else case insert_rows batch s of
             (Some e, s1) \<Rightarrow> (None, s1)
           | (None, s1) \<Rightarrow>
               (if db_service_url cfg \<noteq> [] \<and> \<not> is_shared_db_host cfg
                then Some (map replicated_row batch) else None,
                db_commit s1))"

definition writer_step :: "db_config \<Rightarrow> db_state \<Rightarrow> pyval list option \<times> db_state" where
  "writer_step cfg s = (case writer_take s of (batch, s1) \<Rightarrow> writer_flush cfg batch s1)"

text \<open>A number of turns of the loop.\<close>

fun writer_run :: "db_config \<Rightarrow> nat \<Rightarrow> db_state \<Rightarrow> db_state" where
  "writer_run cfg 0 s = s"
| "writer_run cfg (Suc n) s = writer_run cfg n (snd (writer_step cfg s))"

declare batch_limit_def [run_defs] writer_take_def [run_defs] writer_flush_def [run_defs]

section \<open>Batches\<close>

lemma fill_batch_eq:
  "length batch \<le> batch_limit \<Longrightarrow>
     fill_batch batch q = (batch @ take (batch_limit - length batch) q, drop (batch_limit - length batch) q)"
proof (induction batch q rule: fill_batch.induct)
  case (2 batch r q)
  show ?case
  proof (cases "length batch < batch_limit")
    case True
    then have "batch_limit - length batch = Suc (batch_limit - Suc (length batch))" by simp
    with True 2 show ?thesis by simp
  next
    case False
    with 2 show ?thesis by simp
  qed
qed simp

lemma writer_take_eq:
  "writer_take s = (take batch_limit (write_queue s), s\<lparr>write_queue := drop batch_limit (write_queue s)\<rparr>)"
proof (cases "write_queue s")
  case Nil
  then show ?thesis by (simp add: writer_take_def)
next
  case (Cons r q)
  have "fill_batch [r] q = (r # take 199 q, drop 199 q)"
    using fill_batch_eq[of "[r]" q] by (simp add: batch_limit_def)
  with Cons show ?thesis by (simp add: writer_take_def batch_limit_def numeral_eq_Suc)
qed

lemma writer_flush_fields [simp]:
  "seen_msg_ids (snd (writer_flush cfg b s)) = seen_msg_ids s"
  "memory_feed (snd (writer_flush cfg b s)) = memory_feed s"
  "write_queue (snd (writer_flush cfg b s)) = write_queue s"
  "os_pid (snd (writer_flush cfg b s)) = os_pid s"
  "sql_lit (snd (writer_flush cfg b s)) = sql_lit s"
  using insert_rows_fields[of b s]
  by (cases "insert_rows b s"; simp add: writer_flush_def split: option.split)+

lemma writer_step_eq:
  "writer_step cfg s = writer_flush cfg (take batch_limit (write_queue s))
     (s\<lparr>write_queue := drop batch_limit (write_queue s)\<rparr>)"
  by (simp add: writer_step_def writer_take_eq)

lemma writer_step_fields [simp]:
  "seen_msg_ids (snd (writer_step cfg s)) = seen_msg_ids s"
  "memory_feed (snd (writer_step cfg s)) = memory_feed s"
  "write_queue (snd (writer_step cfg s)) = drop batch_limit (write_queue s)"
  "sql_lit (snd (writer_step cfg s)) = sql_lit s"
  by (simp_all add: writer_step_eq)

lemma queue_update_view [simp]:
  "db_view (s\<lparr>write_queue := q\<rparr>) = db_view s"
  "get_conn (s\<lparr>write_queue := q\<rparr>) = (get_conn s)\<lparr>write_queue := q\<rparr>"
  by (simp_all add: db_view_def get_conn_def split: option.split)

lemma stored_queue_update [simp]:
  "stored (s\<lparr>write_queue := q\<rparr>) = stored s" "db_wf (s\<lparr>write_queue := q\<rparr>) = db_wf s"
  by (simp_all add: stored_def db_wf_def)

section \<open>One turn\<close>

lemma fresh_rows_new:
  assumes "\<forall>r \<in> set b. messages_not_null r" "distinct (map m_msg_id (old @ b))"
  shows "msgs.fresh_rows old (map (messages_convert lit) b) = map (messages_convert lit) b"
proof (rule msgs.fresh_rows_all)
  have "distinct (map m_msg_id b)" using assms(2) by simp
  then show "distinct (map messages_key (map (messages_convert lit) b))"
    by (auto simp: distinct_map inj_on_def messages_key_def)
  show "set (map messages_key (map (messages_convert lit) b)) \<inter> messages_key ` set old = {}"
    using assms(2) by (auto simp: messages_key_def)
qed (use assms(1) in \<open>simp add: messages_key_def\<close>)

lemma durable_ids:
  assumes "durable_ok s" "feed_ok s"
  shows "distinct (map m_msg_id (stored s @ write_queue s))"
proof -
  have "map f_id (map feed_of_row (stored s @ map (col_row s) (write_queue s))) = map f_id (map (col_item s) (memory_feed s))"
    using assms(1) by (simp only: durable_ok_def)
  then have "map m_msg_id (stored s @ write_queue s) = map f_id (memory_feed s)" by (simp add: o_def)
  with assms(2) show ?thesis by (simp add: feed_ok_def)
qed

text \<open>A batch of new, bindable rows is stored whole, in order, as the columns hold it, and committed.\<close>

lemma writer_flush_good:
  assumes wf: "db_wf s" and good: "\<forall>r \<in> set b. messages_bind_error r = None \<and> messages_not_null r"
    and new: "distinct (map m_msg_id (stored s @ b))" and ne: "b \<noteq> []"
  shows "stored (snd (writer_flush cfg b s)) = stored s @ map (col_row s) b"
    and "committed (snd (writer_flush cfg b s)) = stored s @ map (col_row s) b"
    and "db_wf (snd (writer_flush cfg b s))"
    and "db_txn (snd (writer_flush cfg b s)) = None"
proof -
  let ?s1 = "snd (insert_rows b s)"
  have nerr: "fst (insert_rows b s) = None" using good by (simp add: insert_rows_error)
  then have fl: "snd (writer_flush cfg b s) = db_commit ?s1"
    using ne by (cases "insert_rows b s") (simp add: writer_flush_def)
  have "bindable_prefix messages_bind_error b = b" using good by (simp add: bindable_all)
  moreover have "msgs.fresh_rows (stored s) (map (col_row s) b) = map (col_row s) b"
    using good new by (intro fresh_rows_new) auto
  ultimately have st: "stored ?s1 = stored s @ map (col_row s) b"
    using stored_insert_rows[OF wf, of b] by simp
  then show "stored (snd (writer_flush cfg b s)) = stored s @ map (col_row s) b" by (simp add: fl)
  have "stored ?s1 = contents (img_messages (db_view ?s1))" by (simp add: stored_def view_get_conn)
  with st show "committed (snd (writer_flush cfg b s)) = stored s @ map (col_row s) b" by (simp add: fl)
  show "db_wf (snd (writer_flush cfg b s))"
    using insert_rows_wf[OF wf] by (simp add: fl commit_wf)
  show "db_txn (snd (writer_flush cfg b s)) = None" by (simp add: fl)
qed

lemma writer_step_rows:
  assumes "db_wf s" "durable_ok s" "feed_ok s" "write_queue s \<noteq> []"
  shows "stored (snd (writer_step cfg s)) = stored s @ map (col_row s) (take batch_limit (write_queue s))"
    and "committed (snd (writer_step cfg s)) = stored (snd (writer_step cfg s))"
    and "db_wf (snd (writer_step cfg s))" and "db_txn (snd (writer_step cfg s)) = None"
proof -
  let ?b = "take batch_limit (write_queue s)" and ?q = "drop batch_limit (write_queue s)"
  let ?s0 = "s\<lparr>write_queue := ?q\<rparr>"
  have ne: "?b \<noteq> []" using assms(4) by (simp add: batch_limit_def)
  have good: "\<forall>r \<in> set ?b. messages_bind_error r = None \<and> messages_not_null r"
    using assms(2) by (auto simp: durable_ok_def dest: in_set_takeD)
  have "distinct (map m_msg_id ((stored s @ ?b) @ ?q))"
    using durable_ids[OF assms(2,3)] by (simp only: append_assoc append_take_drop_id)
  then have new: "distinct (map m_msg_id (stored ?s0 @ ?b))"
    by (simp only: map_append[of _ "stored s @ ?b" ?q] distinct_append stored_queue_update)
  have wf0: "db_wf ?s0" using assms(1) by simp
  note fl = writer_flush_good[OF wf0 good new ne, of cfg]
  then show "stored (snd (writer_step cfg s)) = stored s @ map (col_row s) (take batch_limit (write_queue s))"
    and "committed (snd (writer_step cfg s)) = stored (snd (writer_step cfg s))"
    and "db_wf (snd (writer_step cfg s))" and "db_txn (snd (writer_step cfg s)) = None"
    unfolding writer_step_eq by simp_all
qed

lemma writer_step_durable:
  assumes "db_wf s" "durable_ok s" "feed_ok s"
  shows "db_wf (snd (writer_step cfg s)) \<and> durable_ok (snd (writer_step cfg s)) \<and>
    feed_ok (snd (writer_step cfg s)) \<and>
    (write_queue s \<noteq> [] \<or> db_txn s = None \<and> conn_pid s = Some (os_pid s) \<longrightarrow>
      committed (snd (writer_step cfg s)) = stored (snd (writer_step cfg s)))"
proof (cases "write_queue s = []")
  case True
  then have "writer_step cfg s = (None, s)"
    by (simp add: writer_step_eq writer_flush_def)
  then show ?thesis
    using assms True by (auto simp: stored_def committed_def view_get_conn db_view_def)
next
  case False
  note rows = writer_step_rows[OF assms False, of cfg]
  have "set (drop batch_limit (write_queue s)) \<subseteq> set (write_queue s)" by (rule set_drop_subset)
  moreover have "map (col_row s) (take batch_limit (write_queue s)) @ map (col_row s) (drop batch_limit (write_queue s)) =
      map (col_row s) (write_queue s)"
    by (simp flip: map_append)
  ultimately show ?thesis
    using assms(2,3) rows by (auto simp: durable_ok_def feed_ok_def simp flip: map_append)
qed

lemma writer_run_fields [simp]:
  "memory_feed (writer_run cfg n s) = memory_feed s"
  "seen_msg_ids (writer_run cfg n s) = seen_msg_ids s"
  "sql_lit (writer_run cfg n s) = sql_lit s"
  by (induction n arbitrary: s) simp_all

lemma writer_run_queue: "write_queue (writer_run cfg n s) = drop (n * batch_limit) (write_queue s)"
  by (induction n arbitrary: s) (simp_all add: add.commute)

lemma writer_run_durable:
  assumes "db_wf s" "durable_ok s" "feed_ok s"
  shows "db_wf (writer_run cfg n s) \<and> durable_ok (writer_run cfg n s) \<and> feed_ok (writer_run cfg n s)"
  using assms by (induction n arbitrary: s) (simp_all add: writer_step_durable)

lemma writer_step_txn:
  assumes "db_wf s" "durable_ok s" "feed_ok s" "db_txn s = None"
  shows "db_txn (snd (writer_step cfg s)) = None"
proof (cases "write_queue s = []")
  case True
  with assms show ?thesis by (simp add: writer_step_eq writer_flush_def)
next
  case False
  with assms show ?thesis by (simp add: writer_step_rows)
qed

lemma writer_run_txn:
  "db_wf s \<Longrightarrow> durable_ok s \<Longrightarrow> feed_ok s \<Longrightarrow> db_txn s = None \<Longrightarrow> db_txn (writer_run cfg n s) = None"
  by (induction n arbitrary: s) (simp_all add: writer_step_durable writer_step_txn)

end
