(* ===== verification/Base64.thy ===== *)
theory Base64
  imports PyText
begin

text \<open>
  \<open>base64.b64encode\<close> and \<open>base64.b64decode\<close> of the standard library, as signatures.py uses
  them: the encoder works on groups of three bytes, the decoder is the lenient state machine of
  \<open>binascii.a2b_base64\<close>, which skips characters outside the alphabet and stops at a complete
  padding. Decoding an encoded byte string gives it back.
\<close>

section \<open>Alphabet\<close>

definition b64_char :: "nat \<Rightarrow> char" where
  "b64_char d =
     (if d < 26 then char_of (65 + d)
      else if d < 52 then char_of (71 + d)
      else if d < 62 then char_of (d - 4)
      else if d = 62 then CHR ''+'' else CHR ''/'')"

definition b64_val :: "char \<Rightarrow> nat option" where
  "b64_val c = (let n = (of_char c :: nat) in
     if 65 \<le> n \<and> n \<le> 90 then Some (n - 65)
     else if 97 \<le> n \<and> n \<le> 122 then Some (n - 71)
     else if 48 \<le> n \<and> n \<le> 57 then Some (n + 4)
     else if n = 43 then Some 62
     else if n = 47 then Some 63
     else None)"

lemma b64_val_char: "d < 64 \<Longrightarrow> b64_val (b64_char d) = Some d"
  by (auto simp: b64_val_def b64_char_def Let_def)

lemma b64_char_not_pad: "d < 64 \<Longrightarrow> b64_char d \<noteq> CHR ''=''"
  using b64_val_char[of d] by (auto simp: b64_val_def)

lemma b64_char_ascii: "d < 64 \<Longrightarrow> (of_char (b64_char d) :: nat) < 128"
  by (auto simp: b64_char_def)

section \<open>Encoding and decoding\<close>

fun b64_text :: "bytes \<Rightarrow> string" where
  "b64_text [] = []"
| "b64_text [a] =
     [b64_char (unat a div 4), b64_char (unat a mod 4 * 16), CHR ''='', CHR ''='']"
| "b64_text [a, b] =
     [b64_char (unat a div 4), b64_char (unat a mod 4 * 16 + unat b div 16),
      b64_char (unat b mod 16 * 4), CHR ''='']"
| "b64_text (a # b # c # bs) =
     [b64_char (unat a div 4), b64_char (unat a mod 4 * 16 + unat b div 16),
      b64_char (unat b mod 16 * 4 + unat c div 64), b64_char (unat c mod 64)] @ b64_text bs"

definition b64encode :: "bytes \<Rightarrow> bytes" where
  "b64encode bs = map (\<lambda>c. word_of_nat (of_char c)) (b64_text bs)"

fun a2b_base64 :: "nat \<Rightarrow> nat \<Rightarrow> nat \<Rightarrow> string \<Rightarrow> bytes res" where
  "a2b_base64 quad left pads [] =
     (if quad = 0 then Inr [] else Inl (Exn ValueError ''Incorrect padding''))"
| "a2b_base64 quad left pads (c # cs) =
     (if c = CHR ''='' then
        (if 2 \<le> quad \<and> 4 \<le> quad + Suc pads then Inr []
         else a2b_base64 quad left (if 2 \<le> quad then Suc pads else pads) cs)
      else case b64_val c of
             None \<Rightarrow> a2b_base64 quad left pads cs
           | Some v \<Rightarrow>
               if quad = 0 then a2b_base64 1 v 0 cs
               else if quad = 1 then map_sum id ((#) (word_of_nat (left * 4 + v div 16))) (a2b_base64 2 (v mod 16) 0 cs)
               else if quad = 2 then map_sum id ((#) (word_of_nat (left * 16 + v div 4))) (a2b_base64 3 (v mod 4) 0 cs)
               else map_sum id ((#) (word_of_nat (left * 64 + v))) (a2b_base64 0 0 0 cs))"

definition b64decode :: "string \<Rightarrow> bytes res" where
  "b64decode s =
     (if is_ascii s then a2b_base64 0 0 0 s
      else Inl (Exn ValueError ''string argument should contain only ASCII characters''))"

section \<open>Round trip\<close>

lemma byte_bound: "unat (b :: byte) < 256"
proof -
  have "unat b < 2 ^ LENGTH(8)" by (rule unsigned_less)
  then show ?thesis by simp
qed

text \<open>The six-bit groups of up to three bytes, and the bytes the decoder puts together from them.\<close>

lemma sextets:
  fixes a b c :: nat
  assumes "a < 256" "b < 256" "c < 256"
  shows "a div 4 < 64" "a mod 4 * 16 < 64" "a mod 4 * 16 + b div 16 < 64"
    and "b mod 16 * 4 < 64" "b mod 16 * 4 + c div 64 < 64" "c mod 64 < 64"
proof -
  have "a mod 4 \<le> 3" "b div 16 \<le> 15" "b mod 16 \<le> 15" "c div 64 \<le> 3" using assms by auto
  then show "a mod 4 * 16 < 64" "a mod 4 * 16 + b div 16 < 64" "b mod 16 * 4 < 64"
    "b mod 16 * 4 + c div 64 < 64" by linarith+
qed (use assms in auto)

lemma octets:
  fixes a b c :: nat
  assumes "b < 256" "c < 256"
  shows "a div 4 * 4 + (a mod 4 * 16) div 16 = a"
    and "a div 4 * 4 + (a mod 4 * 16 + b div 16) div 16 = a"
    and "(a mod 4 * 16 + b div 16) mod 16 * 16 + (b mod 16 * 4) div 4 = b"
    and "(a mod 4 * 16 + b div 16) mod 16 * 16 + (b mod 16 * 4 + c div 64) div 4 = b"
    and "(b mod 16 * 4 + c div 64) mod 4 * 64 + c mod 64 = c"
proof -
  have "b div 16 < 16" "c div 64 < 4" using assms by auto
  then show "a div 4 * 4 + (a mod 4 * 16 + b div 16) div 16 = a"
    "(a mod 4 * 16 + b div 16) mod 16 * 16 + (b mod 16 * 4) div 4 = b"
    "(a mod 4 * 16 + b div 16) mod 16 * 16 + (b mod 16 * 4 + c div 64) div 4 = b"
    "(b mod 16 * 4 + c div 64) mod 4 * 64 + c mod 64 = c"
    by (simp_all add: div_add1_eq)
qed simp

lemmas byte_sextets = sextets[OF byte_bound byte_bound byte_bound]
lemmas byte_octets = octets[OF byte_bound byte_bound]

lemma b64_text_ascii: "is_ascii (b64_text bs)"
  by (induction bs rule: b64_text.induct) (simp_all add: is_ascii_def b64_char_ascii byte_sextets)

lemma b64encode_decodes: "utf8_decode (b64encode bs) = Some (b64_text bs)"
  using utf8_decode_encode[of "b64_text bs"] utf8_encode_ascii[OF b64_text_ascii[of bs]]
  by (simp add: b64encode_def)

lemma a2b_digit:
  assumes "d < 64"
  shows "a2b_base64 0 l p (b64_char d # cs) = a2b_base64 (Suc 0) d 0 cs"
    and "a2b_base64 (Suc 0) l p (b64_char d # cs) =
      map_sum id ((#) (word_of_nat (l * 4 + d div 16))) (a2b_base64 2 (d mod 16) 0 cs)"
    and "a2b_base64 2 l p (b64_char d # cs) =
      map_sum id ((#) (word_of_nat (l * 16 + d div 4))) (a2b_base64 3 (d mod 4) 0 cs)"
    and "a2b_base64 3 l p (b64_char d # cs) =
      map_sum id ((#) (word_of_nat (l * 64 + d))) (a2b_base64 0 0 0 cs)"
  using assms by (simp_all add: b64_val_char b64_char_not_pad)

lemma a2b_pad: "a2b_base64 2 l 0 ''=='' = Inr []" "a2b_base64 3 l 0 ''='' = Inr []"
  by simp_all

lemma b64_roundtrip_text: "a2b_base64 0 0 0 (b64_text bs) = Inr bs"
proof (induction bs rule: b64_text.induct)
  case (2 a)
  show ?case
    by (simp only: b64_text.simps a2b_digit a2b_pad byte_sextets byte_octets) simp
next
  case (3 a b)
  show ?case
    by (simp only: b64_text.simps a2b_digit a2b_pad byte_sextets byte_octets) simp
next
  case (4 a b c bs)
  then show ?case
    by (simp only: b64_text.simps append_Cons append_Nil a2b_digit byte_sextets byte_octets) simp
qed simp

lemma b64decode_b64_text: "b64decode (b64_text bs) = Inr bs"
  by (simp add: b64decode_def b64_text_ascii b64_roundtrip_text)

lemma b64_char_not_bar: "d < 64 \<Longrightarrow> b64_char d \<noteq> CHR ''|''"
  using b64_val_char[of d] by (auto simp: b64_val_def)

lemma b64_text_no_bar: "CHR ''|'' \<notin> set (b64_text bs)"
  by (induction bs rule: b64_text.induct)
    (simp_all add: b64_char_not_bar[symmetric] byte_sextets)

end
