(* ===== verification/CryptoUtils.thy ===== *)
theory CryptoUtils
  imports Base64
begin

text \<open>
  crypto_utils.py: loading or creating the server key, encrypting a message text and decrypting
  a stored ciphertext. Fernet is a third-party library: its operations are the fields of
  \<open>fernet_lib\<close>, a parameter of every definition, and what the code relies on is stated as the
  predicates \<open>fernet_roundtrip\<close>, \<open>fernet_ascii\<close>, \<open>fernet_no_bar\<close> and
  \<open>fernet_rejects\<close>.
\<close>

section \<open>The library\<close>

text \<open>\<open>fn_generate_key\<close> and \<open>fn_encrypt\<close> draw randomness, here a number.\<close>

record fernet_lib =
  fn_generate_key :: "nat \<Rightarrow> bytes"
  fn_key_error :: "bytes \<Rightarrow> pyexc option"
  fn_encrypt :: "bytes \<Rightarrow> bytes \<Rightarrow> nat \<Rightarrow> bytes"
  fn_decrypt :: "bytes \<Rightarrow> bytes \<Rightarrow> bytes res"

definition fernet_roundtrip :: "fernet_lib \<Rightarrow> bytes \<Rightarrow> bool" where
  "fernet_roundtrip F key \<longleftrightarrow> (\<forall>m seed. fn_decrypt F key (fn_encrypt F key m seed) = Inr m)"

definition fernet_ascii :: "fernet_lib \<Rightarrow> bytes \<Rightarrow> bool" where
  "fernet_ascii F key \<longleftrightarrow> (\<forall>m seed. list_all (\<lambda>b. unat b < 128) (fn_encrypt F key m seed))"

text \<open>A token is URL-safe base64 text; what matters to the hash chain is that it holds no bar.\<close>

definition fernet_no_bar :: "fernet_lib \<Rightarrow> bytes \<Rightarrow> bool" where
  "fernet_no_bar F key \<longleftrightarrow> (\<forall>m seed. 124 \<notin> set (fn_encrypt F key m seed))"

definition fernet_rejects :: "fernet_lib \<Rightarrow> bytes \<Rightarrow> bool" where
  "fernet_rejects F key \<longleftrightarrow> (\<forall>t e. fn_decrypt F key t = Inl e \<longrightarrow> exn_class e = InvalidToken)"

section \<open>The code\<close>

text \<open>
  The result is the key and the new content of \<open>secret.key\<close> (\<open>None\<close>: no such file). An unset
  and an empty environment variable are both ignored; the variable is used as it is, the file's
  content is stripped.
\<close>

definition load_or_create_key ::
  "fernet_lib \<Rightarrow> string option \<Rightarrow> bytes option \<Rightarrow> nat \<Rightarrow> bytes \<times> bytes option" where
  "load_or_create_key F env_key key_file seed =
     (if env_key \<noteq> None \<and> env_key \<noteq> Some [] then (utf8_encode (the env_key), key_file)
      else case key_file of
             Some content \<Rightarrow> (bytes_strip content, key_file)
           | None \<Rightarrow> let key = fn_generate_key F seed in (key, Some key))"

text \<open>\<open>_fernet = Fernet(_load_or_create_key())\<close> at import time.\<close>

definition init_fernet ::
  "fernet_lib \<Rightarrow> string option \<Rightarrow> bytes option \<Rightarrow> nat \<Rightarrow> bytes res \<times> bytes option" where
  "init_fernet F env_key key_file seed =
     (let (key, file') = load_or_create_key F env_key key_file seed
      in (case fn_key_error F key of None \<Rightarrow> Inr key | Some e \<Rightarrow> Inl e, file'))"

definition decode_error :: pyexc where
  "decode_error = Exn ValueError ''utf-8 codec error''"

definition encrypt_text :: "fernet_lib \<Rightarrow> bytes \<Rightarrow> nat \<Rightarrow> string \<Rightarrow> string res" where
  "encrypt_text F key seed plaintext =
     (case utf8_decode (fn_encrypt F key (utf8_encode plaintext) seed) of
        Some s \<Rightarrow> Inr s | None \<Rightarrow> Inl decode_error)"

definition decrypt_text :: "fernet_lib \<Rightarrow> bytes \<Rightarrow> string \<Rightarrow> string option res" where
  "decrypt_text F key ciphertext =
     (case fn_decrypt F key (utf8_encode ciphertext) of
        Inl e \<Rightarrow> if exn_class e = InvalidToken then Inr None else Inl e
      | Inr m \<Rightarrow> (case utf8_decode m of Some s \<Rightarrow> Inr (Some s) | None \<Rightarrow> Inl decode_error))"

section \<open>Facts\<close>

lemma utf8_decode_ascii:
  "list_all (\<lambda>b. unat b < 128) bs \<Longrightarrow> utf8_decode bs = Some (map (\<lambda>b. char_of (unat b)) bs)"
  by (induction bs) simp_all

lemma utf8_encode_decode_ascii:
  assumes "list_all (\<lambda>b. unat b < 128) bs" "utf8_decode bs = Some s"
  shows "utf8_encode s = bs"
proof -
  have s: "s = map (\<lambda>b. char_of (unat b)) bs" using assms utf8_decode_ascii by simp
  have "is_ascii s" using assms(1) byte_bound by (auto simp: s is_ascii_def list_all_iff)
  moreover have "map (\<lambda>c. word_of_nat (of_char c)) s = bs"
    using assms(1) by (auto simp: s list_all_iff intro!: map_idI)
  ultimately show ?thesis by (simp add: utf8_encode_ascii)
qed

lemma encrypt_text_ok:
  assumes "fernet_ascii F key"
  shows "\<exists>c. encrypt_text F key seed m = Inr c \<and> utf8_encode c = fn_encrypt F key (utf8_encode m) seed"
proof -
  let ?t = "fn_encrypt F key (utf8_encode m) seed"
  have a: "list_all (\<lambda>b. unat b < 128) ?t" using assms by (simp add: fernet_ascii_def)
  from utf8_decode_ascii[OF a] obtain c where c: "utf8_decode ?t = Some c" by blast
  with utf8_encode_decode_ascii[OF a] show ?thesis by (simp add: encrypt_text_def)
qed

lemma own_ciphertext_decrypts:
  assumes "fernet_roundtrip F key" "fernet_ascii F key" "encrypt_text F key seed m = Inr c"
  shows "decrypt_text F key c = Inr (Some m)"
  using assms encrypt_text_ok[OF assms(2), of seed m]
  by (auto simp: decrypt_text_def fernet_roundtrip_def utf8_decode_encode)

lemma bar_in_utf8: "CHR ''|'' \<in> set s \<Longrightarrow> 124 \<in> set (utf8_encode s)"
  by (force simp: utf8_encode_def utf8_char_def Let_def)

lemma own_ciphertext_no_bar:
  assumes "fernet_no_bar F key" "fernet_ascii F key" "encrypt_text F key seed m = Inr c"
  shows "CHR ''|'' \<notin> set c"
  using assms encrypt_text_ok[OF assms(2), of seed m] bar_in_utf8[of c] by (auto simp: fernet_no_bar_def)

text \<open>
  A concrete library for the witnesses: the token is the base64 text of the message, and a token
  that is not ASCII or not base64 is rejected. It has no secrecy, only the shape of the interface.
\<close>

definition toy_fernet :: fernet_lib where
  "toy_fernet = \<lparr>
     fn_generate_key = (\<lambda>seed. [75, 69, 89]),
     fn_key_error = (\<lambda>_. None),
     fn_encrypt = (\<lambda>key m seed. b64encode m),
     fn_decrypt = (\<lambda>key t. case utf8_decode t of
        None \<Rightarrow> Inl (Exn InvalidToken [])
      | Some s \<Rightarrow> (case b64decode s of Inr m \<Rightarrow> Inr m | Inl _ \<Rightarrow> Inl (Exn InvalidToken [])))\<rparr>"

lemma b64encode_ascii: "list_all (\<lambda>b. unat b < 128) (b64encode bs)"
proof -
  have "unat (word_of_nat (of_char c) :: byte) < 128" if "c \<in> set (b64_text bs)" for c
    using that b64_text_ascii[of bs] by (simp add: is_ascii_def list_all_iff unat_byte)
  then show ?thesis by (simp add: b64encode_def list_all_iff)
qed

lemma b64encode_no_bar: "124 \<notin> set (b64encode bs)"
proof
  assume "124 \<in> set (b64encode bs)"
  then obtain c where c: "c \<in> set (b64_text bs)" "(word_of_nat (of_char c) :: byte) = 124"
    by (auto simp: b64encode_def)
  have "unat (word_of_nat (of_char c) :: byte) = of_char c" by (rule unat_byte) simp
  then have "(of_char c :: nat) = 124" by (simp add: c(2))
  then have "c = char_of (124 :: nat)" by (metis char_of_char)
  moreover have "char_of (124 :: nat) = CHR ''|''" by code_simp
  ultimately have "c = CHR ''|''" by simp
  with c(1) b64_text_no_bar show False by simp
qed

lemma toy_fernet_ok:
  "fernet_roundtrip toy_fernet key" "fernet_ascii toy_fernet key" "fernet_rejects toy_fernet key"
  "fernet_no_bar toy_fernet key"
  by (auto simp: fernet_roundtrip_def fernet_ascii_def fernet_rejects_def fernet_no_bar_def toy_fernet_def
      b64encode_no_bar b64encode_decodes b64decode_b64_text b64encode_ascii split: option.splits sum.splits)

section \<open>Properties\<close>

text \<open>
  C31: A stored ciphertext decrypts to the text it was made from: encrypting never fails and
  decrypting what it returned gives the message back.
\<close>
theorem decrypt_encrypt_text:
  assumes "fernet_roundtrip F key" "fernet_ascii F key"
  shows "\<exists>c. encrypt_text F key seed m = Inr c \<and> decrypt_text F key c = Inr (Some m)"
  using encrypt_text_ok[OF assms(2)] own_ciphertext_decrypts[OF assms] by blast

theorem decrypt_encrypt_text_witness:
  "\<exists>c. encrypt_text toy_fernet [1] 7 ''hello'' = Inr c \<and> decrypt_text toy_fernet [1] c = Inr (Some ''hello'')"
  by (rule decrypt_encrypt_text) (rule toy_fernet_ok)+

text \<open>
  C34: A ciphertext the library rejects is reported as \<open>None\<close>, never as an exception: the only
  exception decrypting can raise is a decoding error on an accepted token.
\<close>
theorem decrypt_text_rejects:
  assumes "fernet_rejects F key"
  shows "(fn_decrypt F key (utf8_encode c) = Inl e \<longrightarrow> decrypt_text F key c = Inr None) \<and>
    (decrypt_text F key c = Inl e' \<longrightarrow>
       e' = decode_error \<and> (\<exists>m. fn_decrypt F key (utf8_encode c) = Inr m \<and> utf8_decode m = None))"
  using assms by (auto simp: decrypt_text_def fernet_rejects_def split: sum.splits option.splits if_splits)

theorem decrypt_text_rejects_witness:
  "decrypt_text toy_fernet [1] ''A'' = Inr None"
proof -
  have "fn_decrypt toy_fernet [1] (utf8_encode ''A'') = Inl (Exn InvalidToken [])"
    by code_simp
  with decrypt_text_rejects[OF toy_fernet_ok(3)] show ?thesis by blast
qed

text \<open>
  C35: The key survives a restart: whatever the first start found or generated, a second start with
  the same environment reads the same key and leaves the key file alone, as long as a generated
  key has no white space at its ends.
\<close>
theorem load_or_create_key_stable:
  assumes "bytes_strip (fn_generate_key F seed) = fn_generate_key F seed"
    and "load_or_create_key F env_key key_file seed = (key, file')"
  shows "load_or_create_key F env_key file' seed' = (key, file')"
  using assms by (auto simp: load_or_create_key_def Let_def split: option.splits if_splits)

theorem load_or_create_key_stable_witness:
  "load_or_create_key toy_fernet (Some []) (Some [75, 69, 89]) 5 = ([75, 69, 89], Some [75, 69, 89])"
proof (rule load_or_create_key_stable[where key_file = None and seed = 4])
  show "bytes_strip (fn_generate_key toy_fernet 4) = fn_generate_key toy_fernet 4"
    by (simp add: toy_fernet_def bytes_strip_def byte_space_def)
qed (simp add: load_or_create_key_def toy_fernet_def Let_def)

end
