(* ===== verification/Signatures.thy ===== *)
theory Signatures
  imports CryptoUtils
begin

text \<open>
  signatures.py: key pairs, PEM export, signing and verifying. The elliptic-curve library is
  third party: its operations are the fields of \<open>ecdsa_lib\<close>, keys are opaque handles, and
  \<open>ecdsa_correct\<close> and \<open>pem_correct\<close> state what the code relies on.
\<close>

type_synonym privkey = nat
type_synonym pubkey = nat

record ecdsa_lib =
  ec_public :: "privkey \<Rightarrow> pubkey"
  ec_pem :: "pubkey \<Rightarrow> bytes"
  ec_load_pem :: "bytes \<Rightarrow> pubkey res"
  ec_sign :: "privkey \<Rightarrow> bytes \<Rightarrow> nat \<Rightarrow> bytes"
  ec_verify :: "pubkey \<Rightarrow> bytes \<Rightarrow> bytes \<Rightarrow> unit res"

definition ecdsa_correct :: "ecdsa_lib \<Rightarrow> bool" where
  "ecdsa_correct E \<longleftrightarrow> (\<forall>sk m seed. ec_verify E (ec_public E sk) (ec_sign E sk m seed) m = Inr ())"

definition pem_correct :: "ecdsa_lib \<Rightarrow> bool" where
  "pem_correct E \<longleftrightarrow>
     (\<forall>pk. list_all (\<lambda>b. unat b < 128) (ec_pem E pk) \<and> ec_load_pem E (ec_pem E pk) = Inr pk)"

section \<open>The code\<close>

text \<open>The private key is the one the library drew.\<close>

definition generate_keypair :: "ecdsa_lib \<Rightarrow> privkey \<Rightarrow> privkey \<times> pubkey" where
  "generate_keypair E sk = (sk, ec_public E sk)"

definition public_key_to_pem :: "ecdsa_lib \<Rightarrow> pubkey \<Rightarrow> string res" where
  "public_key_to_pem E pk =
     (case utf8_decode (ec_pem E pk) of Some s \<Rightarrow> Inr s | None \<Rightarrow> Inl decode_error)"

definition sign_message :: "ecdsa_lib \<Rightarrow> privkey \<Rightarrow> nat \<Rightarrow> string \<Rightarrow> string res" where
  "sign_message E sk seed message =
     (let signature = ec_sign E sk (utf8_encode message) seed
      in case utf8_decode (b64encode signature) of Some s \<Rightarrow> Inr s | None \<Rightarrow> Inl decode_error)"

text \<open>The body of the \<open>try\<close> block, and the exceptions the handler turns into \<open>False\<close>.\<close>

definition verify_steps :: "ecdsa_lib \<Rightarrow> string \<Rightarrow> string \<Rightarrow> string \<Rightarrow> unit res" where
  "verify_steps E public_key_pem signature_b64 message =
     (case ec_load_pem E (utf8_encode public_key_pem) of
        Inl e \<Rightarrow> Inl e
      | Inr pk \<Rightarrow>
          (case b64decode signature_b64 of
             Inl e \<Rightarrow> Inl e
           | Inr signature \<Rightarrow> ec_verify E pk signature (utf8_encode message)))"

definition verify_signature :: "ecdsa_lib \<Rightarrow> string \<Rightarrow> string \<Rightarrow> string \<Rightarrow> bool res" where
  "verify_signature E public_key_pem signature_b64 message =
     (case verify_steps E public_key_pem signature_b64 message of
        Inr _ \<Rightarrow> Inr True
      | Inl e \<Rightarrow> if exn_class e \<in> {InvalidSignature, ValueError, TypeError} then Inr False else Inl e)"

section \<open>Facts\<close>

lemma sign_message_text:
  "sign_message E sk seed m = Inr (b64_text (ec_sign E sk (utf8_encode m) seed))"
  by (simp add: sign_message_def b64encode_decodes)

lemma public_key_to_pem_ok:
  assumes "pem_correct E"
  shows "\<exists>s. public_key_to_pem E pk = Inr s \<and> ec_load_pem E (utf8_encode s) = Inr pk"
proof -
  have a: "list_all (\<lambda>b. unat b < 128) (ec_pem E pk)" using assms by (simp add: pem_correct_def)
  from utf8_decode_ascii[OF a] obtain s where s: "utf8_decode (ec_pem E pk) = Some s" by blast
  then show ?thesis
    using utf8_encode_decode_ascii[OF a s] assms by (simp add: public_key_to_pem_def pem_correct_def)
qed

lemma own_signature_verifies:
  assumes "ecdsa_correct E" "pem_correct E" "public_key_to_pem E (ec_public E sk) = Inr pem"
    and "sign_message E sk seed m = Inr sig"
  shows "verify_signature E pem sig m = Inr True"
  using assms public_key_to_pem_ok[OF assms(2), of "ec_public E sk"]
  by (auto simp: verify_signature_def verify_steps_def sign_message_text b64decode_b64_text ecdsa_correct_def)

text \<open>A concrete library for the witnesses: a signature is the message itself.\<close>

definition toy_ecdsa :: ecdsa_lib where
  "toy_ecdsa = \<lparr>
     ec_public = (\<lambda>sk. sk),
     ec_pem = (\<lambda>pk. replicate pk 80),
     ec_load_pem = (\<lambda>bs. Inr (length bs)),
     ec_sign = (\<lambda>sk m seed. m),
     ec_verify = (\<lambda>pk s m. if s = m then Inr () else Inl (Exn InvalidSignature []))\<rparr>"

lemma toy_ecdsa_ok: "ecdsa_correct toy_ecdsa" "pem_correct toy_ecdsa"
  by (simp_all add: ecdsa_correct_def pem_correct_def toy_ecdsa_def list_all_iff)

section \<open>Properties\<close>

text \<open>
  C32: What the server signs verifies: the signature of a message under a generated private key is
  accepted with the PEM text of the matching public key.
\<close>
theorem sign_then_verify:
  assumes "ecdsa_correct E" "pem_correct E" "generate_keypair E drawn = (sk, pk)"
  shows "\<exists>pem sig. public_key_to_pem E pk = Inr pem \<and> sign_message E sk seed m = Inr sig \<and>
    verify_signature E pem sig m = Inr True"
  using assms public_key_to_pem_ok[OF assms(2), of pk] own_signature_verifies[OF assms(1,2)]
  by (auto simp: generate_keypair_def sign_message_text)

theorem sign_then_verify_witness:
  "\<exists>pem sig. public_key_to_pem toy_ecdsa 3 = Inr pem \<and> sign_message toy_ecdsa 3 9 ''hi'' = Inr sig \<and>
    verify_signature toy_ecdsa pem sig ''hi'' = Inr True"
  using sign_then_verify[OF toy_ecdsa_ok, of 3 3 3 9 "''hi''"] by (simp add: generate_keypair_def toy_ecdsa_def)

text \<open>
  C33: Verification accepts exactly when the key loads, the signature is base64 and the library
  accepts it; every invalid signature, unreadable key or malformed base64 text is \<open>False\<close>, and an
  exception leaves the function only if the library raised one outside the three classes caught.
\<close>
theorem verify_signature_verdict:
  "(verify_signature E pem sig m = Inr True \<longleftrightarrow>
     (\<exists>pk s. ec_load_pem E (utf8_encode pem) = Inr pk \<and> b64decode sig = Inr s \<and>
        ec_verify E pk s (utf8_encode m) = Inr ())) \<and>
   (verify_signature E pem sig m = Inl e \<longleftrightarrow>
     exn_class e \<notin> {InvalidSignature, ValueError, TypeError} \<and>
     (ec_load_pem E (utf8_encode pem) = Inl e \<or>
      (\<exists>pk s. ec_load_pem E (utf8_encode pem) = Inr pk \<and> b64decode sig = Inr s \<and>
        ec_verify E pk s (utf8_encode m) = Inl e)))"
proof -
  have b64: "exn_class e = ValueError" if "b64decode s = Inl e" for s e
  proof -
    have "exn_class e = ValueError" if "a2b_base64 q l p s = Inl e" for q l p s
      using that by (induction q l p s arbitrary: e rule: a2b_base64.induct)
        (auto split: if_splits option.splits simp: map_sum_eq_Inl)
    with that show ?thesis by (auto simp: b64decode_def split: if_splits)
  qed
  show ?thesis
    by (auto simp: verify_signature_def verify_steps_def dest: b64 split: sum.splits if_splits)
qed

end
