(* ===== verification/Metrics.thy ===== *)
theory Metrics
  imports PyText
begin

text \<open>
  The load metrics of app.py: the window of response times, the CPU sampler thread, the memory
  percentage and the composite score that \<open>GET /health\<close> reports to the load balancer. Floating
  point numbers are modelled by exact rationals, \<open>round\<close> by rounding half to even.
\<close>

section \<open>Rounding\<close>

definition round_int :: "rat \<Rightarrow> int" where
  "round_int y =
     (let f = \<lfloor>y\<rfloor>; d = y - of_int f
      in if d < 1 / 2 then f else if d > 1 / 2 then f + 1 else if even f then f else f + 1)"

definition round_half_even :: "nat \<Rightarrow> rat \<Rightarrow> rat" where
  "round_half_even n x = of_int (round_int (x * 10 ^ n)) / 10 ^ n"

lemma round_int_ge: "of_int a \<le> y \<Longrightarrow> a \<le> round_int y"
  using le_floor_iff[of a y] by (simp add: round_int_def Let_def)

lemma round_int_le:
  assumes "y \<le> of_int b"
  shows "round_int y \<le> b"
proof (cases "\<lfloor>y\<rfloor> = b")
  case True
  then have "y - of_int \<lfloor>y\<rfloor> \<le> 0" using assms by simp
  then have "\<not> y - of_int \<lfloor>y\<rfloor> > 1 / 2" "y - of_int \<lfloor>y\<rfloor> < 1 / 2" by linarith+
  with True show ?thesis by (simp add: round_int_def Let_def)
next
  case False
  moreover have "\<lfloor>y\<rfloor> \<le> b" using assms by (meson of_int_floor_le of_int_le_iff order_trans)
  ultimately show ?thesis by (simp add: round_int_def Let_def)
qed

lemma round_int_mono:
  assumes "u \<le> v"
  shows "round_int u \<le> round_int v"
proof (cases "\<lfloor>u\<rfloor> = \<lfloor>v\<rfloor>")
  case True
  with assms show ?thesis by (simp add: round_int_def Let_def)
next
  case False
  with floor_mono[OF assms] have "\<lfloor>u\<rfloor> + 1 \<le> \<lfloor>v\<rfloor>" by simp
  then show ?thesis by (simp add: round_int_def Let_def)
qed

lemma round_half_even_ge: "of_int a \<le> x \<Longrightarrow> of_int a \<le> round_half_even n x"
proof -
  assume "of_int a \<le> x"
  then have "of_int (a * 10 ^ n) \<le> x * 10 ^ n" by simp
  then have "(of_int (a * 10 ^ n) :: rat) \<le> of_int (round_int (x * 10 ^ n))"
    by (simp only: of_int_le_iff round_int_ge)
  then show ?thesis by (simp add: round_half_even_def field_simps)
qed

lemma round_half_even_le: "x \<le> of_int b \<Longrightarrow> round_half_even n x \<le> of_int b"
proof -
  assume "x \<le> of_int b"
  then have "x * 10 ^ n \<le> of_int (b * 10 ^ n)" by simp
  then have "of_int (round_int (x * 10 ^ n)) \<le> (of_int (b * 10 ^ n) :: rat)"
    by (simp only: of_int_le_iff round_int_le)
  then show ?thesis by (simp add: round_half_even_def field_simps)
qed

lemma round_half_even_mono: "x \<le> y \<Longrightarrow> round_half_even n x \<le> round_half_even n y"
  by (simp add: round_half_even_def divide_right_mono round_int_mono)

section \<open>The code\<close>

definition response_window :: nat where
  "response_window = 100"

definition track_response_time :: "rat \<Rightarrow> rat list \<Rightarrow> rat list" where
  "track_response_time elapsed_ms recent =
     (let ts = recent @ [elapsed_ms] in if length ts > response_window then tl ts else ts)"

text \<open>The sampler's variables; \<open>cs_cached\<close> is \<open>_cached_cpu\<close>.\<close>

record cpu_state =
  cs_prev_idle :: int
  cs_prev_total :: int
  cs_cached :: rat

definition cpu_start :: cpu_state where
  "cpu_start = \<lparr>cs_prev_idle = 0, cs_prev_total = 0, cs_cached = 5\<rparr>"

fun int_list :: "string list \<Rightarrow> int list option" where
  "int_list [] = Some []"
| "int_list (s # ss) =
     (case int_of_str s of
        None \<Rightarrow> None
      | Some n \<Rightarrow> map_option ((#) n) (int_list ss))"

text \<open>The counters of the first line of \<open>/proc/stat\<close>; \<open>None\<close> where the code raises.\<close>

definition stat_counters :: "string option \<Rightarrow> int list option" where
  "stat_counters read =
     (case read of
        None \<Rightarrow> None
      | Some line \<Rightarrow>
          (case int_list (drop 1 (py_split line)) of
             None \<Rightarrow> None
           | Some vals \<Rightarrow> if length vals \<le> 3 then None else Some vals))"

definition cpu_update :: "int list \<Rightarrow> cpu_state \<Rightarrow> cpu_state" where
  "cpu_update vals s =
     (let idle = vals ! 3; total = sum_list vals;
          d_idle = idle - cs_prev_idle s; d_total = total - cs_prev_total s;
          cached = (if cs_prev_total s > 0 \<and> d_total > 0
                    then round_half_even 1 (100 * (1 - of_int d_idle / of_int d_total))
                    else cs_cached s)
      in \<lparr>cs_prev_idle = idle, cs_prev_total = total, cs_cached = cached\<rparr>)"

text \<open>One turn of the sampler's loop; \<open>read\<close> is the line read, \<open>None\<close> if the file cannot be read.\<close>

definition cpu_sample :: "string option \<Rightarrow> cpu_state \<Rightarrow> cpu_state" where
  "cpu_sample read s = (case stat_counters read of None \<Rightarrow> s | Some vals \<Rightarrow> cpu_update vals s)"

fun cpu_run :: "string option list \<Rightarrow> cpu_state \<Rightarrow> cpu_state" where
  "cpu_run [] s = s"
| "cpu_run (r # rs) s = cpu_run rs (cpu_sample r s)"

definition get_cpu_percent :: "cpu_state \<Rightarrow> rat" where
  "get_cpu_percent s = cs_cached s"

definition rstrip_colon :: "string \<Rightarrow> string" where
  "rstrip_colon s = rev (dropWhile (\<lambda>c. c = CHR '':'') (rev s))"

fun meminfo_parse :: "string list \<Rightarrow> (string, int) pydict \<Rightarrow> (string, int) pydict option" where
  "meminfo_parse [] info = Some info"
| "meminfo_parse (line # lines) info =
     (let parts = py_split line
      in if length parts \<ge> 2
         then (case int_of_str (parts ! 1) of
                 None \<Rightarrow> None
               | Some n \<Rightarrow> meminfo_parse lines (dict_set (rstrip_colon (parts ! 0)) n info))
         else meminfo_parse lines info)"

definition mem_total :: "(string, int) pydict \<Rightarrow> int" where
  "mem_total info = (case map_of info ''MemTotal'' of None \<Rightarrow> 1 | Some n \<Rightarrow> n)"

definition mem_avail :: "(string, int) pydict \<Rightarrow> int" where
  "mem_avail info = (case map_of info ''MemAvailable'' of None \<Rightarrow> mem_total info | Some n \<Rightarrow> n)"

text \<open>
  \<open>psutil\<close> is the percentage the library reports, \<open>None\<close> when it is not installed; \<open>lines\<close> are
  those of \<open>/proc/meminfo\<close>, \<open>None\<close> if it cannot be read. A zero total raises and is reported as 0.
\<close>

definition get_mem_percent :: "rat option \<Rightarrow> string list option \<Rightarrow> rat" where
  "get_mem_percent psutil lines =
     (case psutil of
        Some p \<Rightarrow> p
      | None \<Rightarrow>
          (case lines of
             None \<Rightarrow> 0
           | Some ls \<Rightarrow>
               (case meminfo_parse ls [] of
                  None \<Rightarrow> 0
                | Some info \<Rightarrow>
                    (let total = mem_total info; avail = mem_avail info
                     in if total = 0 then 0
                        else round_half_even 1 (100 * of_int (total - avail) / of_int total)))))"

definition avg_response_ms :: "rat list \<Rightarrow> rat" where
  "avg_response_ms recent = (if recent \<noteq> [] then sum_list recent / of_nat (length recent) else 0)"

definition load_score :: "rat \<Rightarrow> rat \<Rightarrow> int \<Rightarrow> rat" where
  "load_score cpu_percent mem_percent active =
     round_half_even 2 (cpu_percent * (1 / 2) + mem_percent * (1 / 5) + of_int (min (active * 2) 30))"

section \<open>Facts\<close>

lemma track_response_time_bound:
  "length recent \<le> response_window \<Longrightarrow> length (track_response_time e recent) \<le> response_window"
  by (simp add: track_response_time_def Let_def response_window_def)

lemma list_le_sum:
  assumes "list_all2 (\<le>) v w"
  shows "sum_list v \<le> (sum_list w :: int)"
  using assms by (induction rule: list_all2_induct) simp_all

lemma list_le_sum_nth:
  assumes "list_all2 (\<le>) v w" "i < length v"
  shows "w ! i - v ! i \<le> (sum_list w - sum_list v :: int)" "v ! i \<le> w ! i"
proof -
  from assms show "v ! i \<le> w ! i" by (simp add: list_all2_nthD)
  from assms show "w ! i - v ! i \<le> sum_list w - sum_list v"
  proof (induction arbitrary: i rule: list_all2_induct)
    case (Cons x xs y ys)
    then have "sum_list xs \<le> sum_list ys" by (simp add: list_le_sum)
  moreover have "ys ! j - xs ! j \<le> sum_list ys - sum_list xs" if "j < length xs" for j
    using Cons.IH that .
  ultimately show ?case using Cons.hyps Cons.prems by (cases i) (auto, smt (verit))
  qed simp
qed

text \<open>The sampler remembers the counters \<open>v\<close>.\<close>

definition cpu_at :: "int list \<Rightarrow> cpu_state \<Rightarrow> bool" where
  "cpu_at v s \<longleftrightarrow> length v > 3 \<and> cs_prev_idle s = v ! 3 \<and> cs_prev_total s = sum_list v"

lemma stat_counters_length: "stat_counters r = Some v \<Longrightarrow> length v > 3"
  by (auto simp: stat_counters_def split: option.splits if_splits)

lemma cpu_update_at: "length v > 3 \<Longrightarrow> cpu_at v (cpu_update v s)"
  by (simp add: cpu_at_def cpu_update_def Let_def)

lemma cpu_update_bounds:
  assumes "0 \<le> cs_cached s" "cs_cached s \<le> 100"
    and "cs_prev_total s \<le> 0 \<or> (\<exists>v. cpu_at v s \<and> list_all2 (\<le>) v w)"
  shows "0 \<le> cs_cached (cpu_update w s) \<and> cs_cached (cpu_update w s) \<le> 100"
proof (cases "cs_prev_total s > 0 \<and> sum_list w - cs_prev_total s > 0")
  case True
  with assms(3) obtain v where v: "cpu_at v s" "list_all2 (\<le>) v w" by auto
  let ?i = "w ! 3 - cs_prev_idle s" and ?t = "sum_list w - cs_prev_total s"
  have b: "0 \<le> ?i" "?i \<le> ?t" "0 < ?t"
    using v list_le_sum_nth[of v w 3] True by (simp_all add: cpu_at_def)
  let ?q = "of_int ?i / (of_int ?t :: rat)"
  have "(0 :: rat) \<le> of_int ?i" "of_int ?i \<le> (of_int ?t :: rat)" "(0 :: rat) < of_int ?t"
    using b by (simp_all only: of_int_le_iff of_int_0_le_iff of_int_0_less_iff)
  then have q: "0 \<le> ?q" "?q \<le> 1" by (simp_all only: divide_nonneg_pos divide_le_eq_1_pos)
  let ?x = "100 * (1 - ?q)"
  have pc: "of_int 0 \<le> 100 * (1 - r) \<and> 100 * (1 - r) \<le> of_int 100" if "0 \<le> r" "r \<le> 1" for r :: rat
    using that by simp
  have "of_int 0 \<le> ?x" "?x \<le> of_int 100" using pc[OF q] by blast+
  then have "of_int 0 \<le> round_half_even 1 ?x" "round_half_even 1 ?x \<le> of_int 100"
    by (simp_all only: round_half_even_ge round_half_even_le)
  with True show ?thesis by (simp add: cpu_update_def Let_def)
next
  case False
  then show ?thesis using assms(1,2) by (auto simp: cpu_update_def Let_def)
qed

lemma cpu_run_bounds:
  assumes "0 \<le> cs_cached s" "cs_cached s \<le> 100"
    and "sorted_wrt (list_all2 (\<le>)) (List.map_filter stat_counters reads)"
    and "cs_prev_total s \<le> 0 \<or>
      (\<exists>v. cpu_at v s \<and> (\<forall>w \<in> set (List.map_filter stat_counters reads). list_all2 (\<le>) v w))"
  shows "0 \<le> cs_cached (cpu_run reads s) \<and> cs_cached (cpu_run reads s) \<le> 100"
  using assms
proof (induction reads arbitrary: s)
  case (Cons r rs)
  show ?case
  proof (cases "stat_counters r")
    case None
    then show ?thesis using Cons by (simp add: cpu_sample_def List.map_filter_simps)
  next
    case (Some w)
    have "cs_prev_total s \<le> 0 \<or> (\<exists>v. cpu_at v s \<and> list_all2 (\<le>) v w)"
      using Cons.prems(4) Some by (auto simp: List.map_filter_simps)
    note upd = cpu_update_bounds[OF Cons.prems(1,2) this]
    have at: "cpu_at w (cpu_update w s)" using stat_counters_length[OF Some] by (rule cpu_update_at)
    show ?thesis
      using Cons.IH[of "cpu_update w s"] Cons.prems(3) upd at Some
      by (auto simp: cpu_sample_def List.map_filter_simps)
  qed
qed simp

section \<open>Properties\<close>

text \<open>
  C36: The CPU figure the service reports stays a percentage: however many samples are taken, readable
  or not, as long as no kernel counter runs backwards, it lies between 0 and 100.
\<close>
theorem cpu_percent_bounds:
  assumes "sorted_wrt (list_all2 (\<le>)) (List.map_filter stat_counters reads)"
  shows "0 \<le> get_cpu_percent (cpu_run reads cpu_start) \<and> get_cpu_percent (cpu_run reads cpu_start) \<le> 100"
  using assms cpu_run_bounds[of cpu_start reads] by (simp add: get_cpu_percent_def cpu_start_def)

theorem cpu_percent_bounds_witness:
  "get_cpu_percent (cpu_run [Some ''cpu 1 2 3 4'', None, Some ''cpu 5 2 3 10''] cpu_start) = 40 \<and>
   0 \<le> get_cpu_percent (cpu_run [Some ''cpu 1 2 3 4'', None, Some ''cpu 5 2 3 10''] cpu_start)"
proof -
  have c: "stat_counters (Some ''cpu 1 2 3 4'') = Some [1, 2, 3, 4]"
    "stat_counters (Some ''cpu 5 2 3 10'') = Some [5, 2, 3, 10]" "stat_counters None = None"
    by code_simp+
  then have "sorted_wrt (list_all2 (\<le>))
      (List.map_filter stat_counters [Some ''cpu 1 2 3 4'', None, Some ''cpu 5 2 3 10''])"
    by (simp add: List.map_filter_simps)
  from cpu_percent_bounds[OF this] show ?thesis
    by (simp add: cpu_sample_def c cpu_update_def Let_def get_cpu_percent_def cpu_start_def
        round_half_even_def round_int_def)
qed

lemma load_score_mono: "a \<le> b \<Longrightarrow> load_score c m a \<le> load_score c m b"
  by (auto simp: load_score_def intro!: round_half_even_mono)

text \<open>
  C37: The load score is a number between 0 and 100 whenever the two percentages are, it never falls
  when more requests are in flight, and from fifteen requests on it no longer tells them apart.
\<close>
theorem load_score_bounds:
  assumes "0 \<le> cpu" "cpu \<le> 100" "0 \<le> mem" "mem \<le> 100" "0 \<le> active"
  shows "0 \<le> load_score cpu mem active \<and> load_score cpu mem active \<le> 100 \<and>
    (active \<le> busier \<longrightarrow> load_score cpu mem active \<le> load_score cpu mem busier) \<and>
    (15 \<le> active \<and> active \<le> busier \<longrightarrow> load_score cpu mem active = load_score cpu mem busier)"
proof -
  let ?x = "cpu * (1 / 2) + mem * (1 / 5) + of_int (min (active * 2) 30)"
  have m: "(0 :: rat) \<le> of_int (min (active * 2) 30)" "of_int (min (active * 2) 30) \<le> (30 :: rat)"
    using assms(5) by auto
  have "of_int 0 \<le> ?x" "?x \<le> of_int 100" using assms m by simp_all
  then have "of_int 0 \<le> load_score cpu mem active" "load_score cpu mem active \<le> of_int 100"
    by (simp_all only: load_score_def round_half_even_ge round_half_even_le)
  moreover have "load_score cpu mem active = load_score cpu mem busier" if "15 \<le> active" "active \<le> busier"
    using that by (simp add: load_score_def)
  ultimately show ?thesis by (simp add: load_score_mono)
qed

theorem load_score_bounds_witness:
  "load_score 40 50 3 = 36 \<and> load_score 40 50 3 \<le> 100 \<and> load_score 40 50 20 = load_score 40 50 90"
proof -
  have "load_score 40 50 3 = 36" by code_simp
  then show ?thesis using load_score_bounds[of 40 50 3] load_score_bounds[of 40 50 20 90] by simp
qed

end
