(* ===== verification/App.thy ===== *)
theory App
  imports Writer Signatures Metrics
begin

text \<open>
  app.py: the state of one backend process and its request handlers. A handler takes the libraries,
  the environment of the request (clock, drawn randomness, which sockets accept a frame) and the
  request, and returns the response, the WebSocket frames sent and the new state. Each handler is
  written here as if it ran alone; the interleaving of its locked regions is the subject of the
  theory Concurrency.
\<close>

section \<open>State and inputs\<close>

record app_libs =
  lib_ecdsa :: ecdsa_lib
  lib_fernet :: fernet_lib
  lib_key :: bytes

type_synonym socket = nat

record app_env =
  env_now :: int
  env_uuid :: string
  env_drawn :: privkey
  env_sign_seed :: nat
  env_fernet_seed :: nat
  env_elapsed :: rat
  env_send_ok :: "socket \<Rightarrow> bool"

record app_state =
  a_db :: db_state
  active_requests :: int
  response_times :: "rat list"
  cpu_sampler :: cpu_state
  keypair_cache :: "(string, privkey \<times> string) pydict"
  last_hash_val :: string
  ws_clients :: "(socket, string) pydict"
  ws_client_keys :: "(socket, privkey \<times> string) pydict"

type_synonym frame = "socket \<times> string"

datatype web_body = JsonBody pyval | TextBody string

record web_response =
  rsp_status :: nat
  rsp_body :: web_body

definition jsonify :: "nat \<Rightarrow> (string \<times> pyval) list \<Rightarrow> web_response" where
  "jsonify status kvs = \<lparr>rsp_status = status, rsp_body = JsonBody (PDict kvs)\<rparr>"

text \<open>
  What Flask says about the request: its content type, what \<open>get_json(force=True)\<close> returns or
  raises, the form fields, and what \<open>get_json(silent=True)\<close> returns.
\<close>

record web_request =
  rq_is_json :: bool
  rq_json_force :: "pyval res"
  rq_form :: "(string \<times> string) list"
  rq_json_silent :: pyval

section \<open>Keys and hashes\<close>

definition keypair_cache_limit :: nat where
  "keypair_cache_limit = 1000"

definition get_or_create_keypair ::
  "ecdsa_lib \<Rightarrow> privkey \<Rightarrow> string \<Rightarrow> app_state \<Rightarrow> (privkey \<times> string) res \<times> app_state" where
  "get_or_create_keypair E drawn username s =
     (case map_of (keypair_cache s) username of
        Some kp \<Rightarrow> (Inr kp, s)
      | None \<Rightarrow>
          (let s1 = (if length (keypair_cache s) > keypair_cache_limit then s\<lparr>keypair_cache := []\<rparr> else s);
               (priv, pub) = generate_keypair E drawn
           in case public_key_to_pem E pub of
                Inl e \<Rightarrow> (Inl e, s1)
              | Inr pem \<Rightarrow>
                  (Inr (priv, pem), s1\<lparr>keypair_cache := dict_set username (priv, pem) (keypair_cache s1)\<rparr>)))"

definition get_next_hashes ::
  "string \<Rightarrow> string \<Rightarrow> string \<Rightarrow> pyval \<Rightarrow> app_state \<Rightarrow> (string \<times> string) \<times> app_state" where
  "get_next_hashes client_name ciphertext signature timestamp s =
     (let prev = last_hash_val s;
          rec = compute_record_hash prev client_name ciphertext signature timestamp
      in ((prev, rec), s\<lparr>last_hash_val := rec\<rparr>))"

definition canonical_message :: "string \<Rightarrow> string \<Rightarrow> pyval \<Rightarrow> string" where
  "canonical_message username text timestamp = username @ ''|'' @ text @ ''|'' @ py_str timestamp"

section \<open>Broadcast\<close>

text \<open>Frames go to the sockets that accept them; the others are forgotten.\<close>

definition broadcast_ws :: "(socket \<Rightarrow> bool) \<Rightarrow> pyval \<Rightarrow> app_state \<Rightarrow> frame list \<times> app_state" where
  "broadcast_ws send_ok payload s =
     (let data = json_dumps payload;
          targets = map fst (ws_clients s);
          dead = filter (\<lambda>w. \<not> send_ok w) targets
      in (map (\<lambda>w. (w, data)) (filter send_ok targets),
          s\<lparr>ws_clients := fold dict_pop dead (ws_clients s),
            ws_client_keys := fold dict_pop dead (ws_client_keys s)\<rparr>))"

definition message_payload :: "string \<Rightarrow> string \<Rightarrow> pyval \<Rightarrow> pyval" where
  "message_payload username text timestamp = PDict
     [(''type'', PStr ''message''), (''username'', PStr username), (''text'', PStr text),
      (''timestamp'', timestamp), (''signature_valid'', PBool True), (''tampered'', PBool False)]"

section \<open>POST /message\<close>

definition request_data :: "web_request \<Rightarrow> pyval res" where
  "request_data rq =
     (if rq_is_json rq then map_sum id (\<lambda>v. py_or v (PDict [])) (rq_json_force rq)
      else (let data = PDict (map (\<lambda>(k, v). (k, PStr v)) (rq_form rq))
            in if \<not> truthy data then Inr (py_or (rq_json_silent rq) (PDict [])) else Inr data))"

text \<open>\<open>str(data.get(k1) or data.get(k2) or "")\<close>.\<close>

definition field_or :: "pyval \<Rightarrow> string \<Rightarrow> string \<Rightarrow> string res" where
  "field_or data k1 k2 =
     (case py_get data k1 of
        Inl e \<Rightarrow> Inl e
      | Inr a \<Rightarrow>
          if truthy a then Inr (py_str a)
          else (case py_get data k2 of
                  Inl e \<Rightarrow> Inl e
                | Inr b \<Rightarrow> Inr (py_str (py_or b (PStr [])))))"

definition post_fields :: "web_request \<Rightarrow> (string \<times> string \<times> string) res" where
  "post_fields rq =
     (case request_data rq of
        Inl e \<Rightarrow> Inl e
      | Inr data \<Rightarrow>
          (case field_or data ''client-name'' ''username'' of
             Inl e \<Rightarrow> Inl e
           | Inr client_name \<Rightarrow>
               (case field_or data ''msg'' ''text'' of
                  Inl e \<Rightarrow> Inl e
                | Inr msg_text \<Rightarrow>
                    (case field_or data ''msg_id'' ''id'' of
                       Inl e \<Rightarrow> Inl e
                     | Inr raw \<Rightarrow> Inr (client_name, msg_text, py_strip raw)))))"

text \<open>Signing, encrypting, linking and saving; every step may raise.\<close>

definition chat_row ::
  "string \<Rightarrow> string \<Rightarrow> string \<Rightarrow> string \<Rightarrow> string \<Rightarrow> string \<Rightarrow> pyval \<Rightarrow> string \<times> string \<Rightarrow> message_row" where
  "chat_row msg_id username text ciphertext signature pem timestamp hashes =
     \<lparr>m_msg_id = msg_id, m_username = username, m_plaintext = text, m_ciphertext = ciphertext,
      m_signature = signature, m_pubkey = pem, m_timestamp = timestamp,
      m_prev_hash = fst hashes, m_record_hash = snd hashes\<rparr>"

definition post_store ::
  "app_libs \<Rightarrow> app_env \<Rightarrow> string \<Rightarrow> string \<Rightarrow> string \<Rightarrow> app_state \<Rightarrow> bool res \<times> app_state" where
  "post_store L env client_name msg_text msg_id s =
     (let timestamp = PInt (env_now env)
      in case get_or_create_keypair (lib_ecdsa L) (env_drawn env) client_name s of
           (Inl e, s1) \<Rightarrow> (Inl e, s1)
         | (Inr (private_key, pem), s1) \<Rightarrow>
             (case sign_message (lib_ecdsa L) private_key (env_sign_seed env)
                     (canonical_message client_name msg_text timestamp) of
                Inl e \<Rightarrow> (Inl e, s1)
              | Inr signature \<Rightarrow>
                  (case encrypt_text (lib_fernet L) (lib_key L) (env_fernet_seed env) msg_text of
                     Inl e \<Rightarrow> (Inl e, s1)
                   | Inr ciphertext \<Rightarrow>
                       (case get_next_hashes client_name ciphertext signature timestamp s1 of
                          (hashes, s2) \<Rightarrow>
                            (case save_message (chat_row msg_id client_name msg_text ciphertext
                                    signature pem timestamp hashes) (a_db s2) of
                               (v, db) \<Rightarrow> (v, s2\<lparr>a_db := db\<rparr>))))))"

definition post_body ::
  "app_libs \<Rightarrow> app_env \<Rightarrow> web_request \<Rightarrow> app_state \<Rightarrow> web_response res \<times> frame list \<times> app_state" where
  "post_body L env rq s =
     (case post_fields rq of
        Inl e \<Rightarrow> (Inl e, [], s)
      | Inr (client_name, msg_text, given_id) \<Rightarrow>
          if client_name = [] then
            (Inr (jsonify 400 [(''error'', PStr ''client-name is required'')]), [], s)
          else if msg_text = [] then
            (Inr (jsonify 400 [(''error'', PStr ''msg is required'')]), [], s)
          else
            (let msg_id = (if given_id = [] then env_uuid env else given_id)
             in if message_exists msg_id (a_db s) then
                  (Inr (jsonify 200 [(''status'', PStr ''duplicate''), (''msg_id'', PStr msg_id),
                     (''client-name'', PStr client_name), (''msg'', PStr msg_text)]), [], s)
                else
                  (case post_store L env client_name msg_text msg_id s of
                     (Inl e, s1) \<Rightarrow> (Inl e, [], s1)
                   | (Inr inserted, s1) \<Rightarrow>
                       (case (if inserted \<and> ws_clients s1 \<noteq> []
                              then broadcast_ws (env_send_ok env)
                                     (message_payload client_name msg_text (PInt (env_now env))) s1
                              else ([], s1)) of
                          (sent, s2) \<Rightarrow>
                            (Inr (jsonify 200 [(''status'', PStr ''ok''), (''msg_id'', PStr msg_id),
                               (''client-name'', PStr client_name), (''msg'', PStr msg_text),
                               (''timestamp'', PInt (env_now env))]), sent, s2)))))"

text \<open>The handler: \<open>except Exception\<close> answers 500, \<open>finally\<close> restores the counter.\<close>

definition post_message ::
  "app_libs \<Rightarrow> app_env \<Rightarrow> web_request \<Rightarrow> app_state \<Rightarrow> web_response \<times> frame list \<times> app_state" where
  "post_message L env rq s =
     (case post_body L env rq (s\<lparr>active_requests := active_requests s + 1\<rparr>) of
        (r, sent, s1) \<Rightarrow>
          (case r of
             Inr response \<Rightarrow> response
           | Inl e \<Rightarrow> jsonify 500 [(''error'', PStr (exn_message e))],
           sent,
           s1\<lparr>active_requests := active_requests s1 - 1,
              response_times := track_response_time (env_elapsed env) (response_times s1)\<rparr>))"

section \<open>The other routes\<close>

definition get_feed :: "app_env \<Rightarrow> app_state \<Rightarrow> web_response \<times> app_state" where
  "get_feed env s =
     (\<lparr>rsp_status = 200, rsp_body = TextBody (get_feed_json (a_db s))\<rparr>,
      s\<lparr>response_times := track_response_time (env_elapsed env) (response_times s)\<rparr>)"

definition reset_state :: "app_state \<Rightarrow> web_response \<times> app_state" where
  "reset_state s =
     (let s1 = s\<lparr>a_db := reset_db (a_db s)\<rparr>;
          s2 = s1\<lparr>last_hash_val := replicate 64 (CHR ''0'')\<rparr>;
          s3 = s2\<lparr>keypair_cache := []\<rparr>
      in (jsonify 200 [(''status'', PStr ''ok''), (''message'', PStr ''database reset complete'')], s3))"

text \<open>An exception that leaves a handler is Flask's to answer; here it is the result \<open>Inl\<close>.\<close>

definition post_messages_batch ::
  "db_config \<Rightarrow> app_env \<Rightarrow> web_request \<Rightarrow> app_state \<Rightarrow> web_response res \<times> app_state" where
  "post_messages_batch cfg env rq s =
     (case py_or (rq_json_silent rq) (PList []) of
        PList (item # items) \<Rightarrow>
          (case save_messages_batch cfg (env_now env) (item # items) (a_db s) of
             (Inl e, db) \<Rightarrow> (Inl e, s\<lparr>a_db := db\<rparr>)
           | (Inr inserted, db) \<Rightarrow>
               (Inr (jsonify 200 [(''status'', PStr ''ok''), (''inserted'', PInt (int inserted))]),
                s\<lparr>a_db := db\<rparr>))
      | _ \<Rightarrow> (Inr (jsonify 200 [(''status'', PStr ''ok''), (''inserted'', PInt 0)]), s))"

text \<open>\<open>request.args.get("limit", 100000, type=int)\<close>: the default also when the text is no integer.\<close>

definition limit_arg :: "string option \<Rightarrow> int" where
  "limit_arg arg =
     (case arg of
        None \<Rightarrow> 100000
      | Some s \<Rightarrow> (case int_of_str s of None \<Rightarrow> 100000 | Some n \<Rightarrow> n))"

definition get_messages :: "string option \<Rightarrow> app_state \<Rightarrow> web_response res \<times> app_state" where
  "get_messages arg s =
     (case load_shared_messages (limit_arg arg) (a_db s) of
        (Inl e, db) \<Rightarrow> (Inl e, s\<lparr>a_db := db\<rparr>)
      | (Inr messages, db) \<Rightarrow>
          (Inr \<lparr>rsp_status = 200, rsp_body = JsonBody (PList messages)\<rparr>, s\<lparr>a_db := db\<rparr>))"

record health_report =
  h_cpu_percent :: rat
  h_memory_percent :: rat
  h_active_connections :: int
  h_avg_response_ms :: rat
  h_message_count :: nat
  h_load_score :: rat

definition health :: "rat option \<Rightarrow> string list option \<Rightarrow> app_state \<Rightarrow> health_report" where
  "health psutil meminfo s =
     (let cpu_percent = get_cpu_percent (cpu_sampler s);
          mem_percent = get_mem_percent psutil meminfo
      in \<lparr>h_cpu_percent = cpu_percent, h_memory_percent = mem_percent,
          h_active_connections = active_requests s,
          h_avg_response_ms = round_half_even 2 (avg_response_ms (response_times s)),
          h_message_count = get_message_count (a_db s),
          h_load_score = load_score cpu_percent mem_percent (active_requests s)\<rparr>)"

section \<open>Start of the process\<close>

definition app_start :: "db_state \<Rightarrow> app_state" where
  "app_start db =
     (case get_last_hash (init_db db) of
        (h, db1) \<Rightarrow> \<lparr>a_db = db1, active_requests = 0, response_times = [], cpu_sampler = cpu_start,
          keypair_cache = [], last_hash_val = h, ws_clients = [], ws_client_keys = []\<rparr>)"

declare keypair_cache_limit_def [run_defs] get_or_create_keypair_def [run_defs]
  get_next_hashes_def [run_defs] chat_row_def [run_defs] generate_keypair_def [run_defs]
  sign_message_text [run_defs] dict_set_absent [run_defs]

end
