(* ===== verification/WebSocket.thy ===== *)
theory WebSocket
  imports App
begin

text \<open>
  The WebSocket route of app.py: one handler per socket, driven by the frames it receives. A frame
  is what \<open>json.loads\<close> makes of it, or the exception \<open>receive\<close> raised; the handler ends when the
  socket closes, when sending the history fails, or when an exception leaves the loop, and always
  forgets the socket.
\<close>

datatype ws_event =
    WsClose
  | WsBroken pyexc
  | WsInvalid
  | WsDecoded pyval

datatype ws_outcome = WsNext | WsStop | WsRaise pyexc

text \<open>\<open>v.strip()\<close>: only strings have it.\<close>

fun py_strip_method :: "pyval \<Rightarrow> string res" where
  "py_strip_method (PStr s) = Inr (py_strip s)"
| "py_strip_method v = Inl (Exn AttributeError
     ([CHR 0x27] @ py_type_name v @ [CHR 0x27] @ '' object has no attribute '' @
      [CHR 0x27] @ ''strip'' @ [CHR 0x27]))"

definition join_name :: "(string \<times> pyval) list \<Rightarrow> string res" where
  "join_name d =
     (case py_strip_method (py_or (dget d ''username'') (PStr ''Anonymous'')) of
        Inl e \<Rightarrow> Inl e
      | Inr s \<Rightarrow> Inr (let name = take 24 s in if name = [] then ''Anonymous'' else name))"

definition history_entry :: "pyval \<Rightarrow> pyval" where
  "history_entry row =
     (case row of
        PDict d \<Rightarrow> PDict
          [(''username'', dget d ''username''), (''text'', dget d ''plaintext''),
           (''timestamp'', dget d ''timestamp''), (''tampered'', PBool False),
           (''signature_valid'', PBool True)]
      | v \<Rightarrow> v)"

definition history_limit :: nat where
  "history_limit = 100000"

definition history_payload :: "db_state \<Rightarrow> pyval" where
  "history_payload db = PDict
     [(''type'', PStr ''history''),
      (''messages'', PList (map history_entry (load_history history_limit db)))]"

definition ws_join ::
  "app_libs \<Rightarrow> app_env \<Rightarrow> socket \<Rightarrow> (string \<times> pyval) list \<Rightarrow> string option \<times> app_state \<Rightarrow>
     ws_outcome \<times> frame list \<times> string option \<times> app_state" where
  "ws_join L env ws d us =
     (case us of (username, s) \<Rightarrow>
        (case join_name d of
           Inl e \<Rightarrow> (WsRaise e, [], username, s)
         | Inr name \<Rightarrow>
             (let (private_key, public_key) = generate_keypair (lib_ecdsa L) (env_drawn env)
              in case public_key_to_pem (lib_ecdsa L) public_key of
                   Inl e \<Rightarrow> (WsRaise e, [], Some name, s)
                 | Inr pem \<Rightarrow>
                     (let s1 = s\<lparr>ws_clients := dict_set ws name (ws_clients s),
                                 ws_client_keys := dict_set ws (private_key, pem) (ws_client_keys s)\<rparr>;
                          s2 = s1\<lparr>a_db := upsert_user_pubkey name pem (a_db s1)\<rparr>
                      in if env_send_ok env ws
                         then (WsNext, [(ws, json_dumps (history_payload (a_db s2)))], Some name, s2)
                         else (WsRaise (Exn LibraryError ''connection closed''), [], Some name, s2)))))"

text \<open>The part of a message frame after the checks: sign, encrypt, link, save, broadcast.\<close>

definition ws_store ::
  "app_libs \<Rightarrow> app_env \<Rightarrow> privkey \<times> string \<Rightarrow> string \<Rightarrow> string \<Rightarrow> pyval \<Rightarrow> app_state \<Rightarrow>
     ws_outcome \<times> frame list \<times> app_state" where
  "ws_store L env key_data username text timestamp s =
     (case sign_message (lib_ecdsa L) (fst key_data) (env_sign_seed env)
             (canonical_message username text timestamp) of
        Inl e \<Rightarrow> (WsRaise e, [], s)
      | Inr signature \<Rightarrow>
          (case encrypt_text (lib_fernet L) (lib_key L) (env_fernet_seed env) text of
             Inl e \<Rightarrow> (WsRaise e, [], s)
           | Inr ciphertext \<Rightarrow>
               (case get_last_hash (a_db s) of
                  (prev_hash, db1) \<Rightarrow>
                    (let record_hash = compute_record_hash prev_hash username ciphertext signature timestamp
                     in case save_message (chat_row (env_uuid env) username text ciphertext signature
                               (snd key_data) timestamp (prev_hash, record_hash)) db1 of
                          (Inl e, db2) \<Rightarrow> (WsRaise e, [], s\<lparr>a_db := db2\<rparr>)
                        | (Inr _, db2) \<Rightarrow>
                            (case broadcast_ws (env_send_ok env) (message_payload username text timestamp)
                                    (s\<lparr>a_db := db2\<rparr>) of
                               (sent, s2) \<Rightarrow> (WsNext, sent, s2))))))"

definition ws_message ::
  "app_libs \<Rightarrow> app_env \<Rightarrow> socket \<Rightarrow> (string \<times> pyval) list \<Rightarrow> string option \<times> app_state \<Rightarrow>
     ws_outcome \<times> frame list \<times> string option \<times> app_state" where
  "ws_message L env ws d us =
     (case us of (username, s) \<Rightarrow>
        (if username = None \<or> username = Some [] then (WsNext, [], username, s)
         else
           (let text = take 2000 (py_str (dget_default d ''text'' (PStr [])));
                timestamp = py_or (dget d ''timestamp'') (PInt (env_now env))
            in if py_strip text = [] then (WsNext, [], username, s)
               else case map_of (ws_client_keys s) ws of
                      None \<Rightarrow> (WsNext, [], username, s)
                    | Some key_data \<Rightarrow>
                        (case ws_store L env key_data (the username) text timestamp s of
                           (out, sent, s1) \<Rightarrow> (out, sent, username, s1)))))"

definition ws_step ::
  "app_libs \<Rightarrow> app_env \<Rightarrow> socket \<Rightarrow> ws_event \<Rightarrow> string option \<times> app_state \<Rightarrow>
     ws_outcome \<times> frame list \<times> string option \<times> app_state" where
  "ws_step L env ws ev us =
     (case ev of
        WsClose \<Rightarrow> (WsStop, [], us)
      | WsBroken e \<Rightarrow> (WsRaise e, [], us)
      | WsInvalid \<Rightarrow> (WsNext, [], us)
      | WsDecoded (PDict d) \<Rightarrow>
          (if dget d ''type'' = PStr ''join'' then ws_join L env ws d us
           else if dget d ''type'' = PStr ''message'' then ws_message L env ws d us
           else (WsNext, [], us))
      | WsDecoded v \<Rightarrow>
          (case py_get v ''type'' of
             Inl e \<Rightarrow> (WsRaise e, [], us)
           | Inr _ \<Rightarrow> (WsNext, [], us)))"

text \<open>The loop over the frames, each with the environment it is handled in; the list ends with the input.\<close>

fun ws_loop ::
  "app_libs \<Rightarrow> socket \<Rightarrow> (app_env \<times> ws_event) list \<Rightarrow> string option \<times> app_state \<Rightarrow>
     ws_outcome \<times> frame list \<times> string option \<times> app_state" where
  "ws_loop L ws [] us = (WsNext, [], us)"
| "ws_loop L ws ((env, ev) # evs) us =
     (case ws_step L env ws ev us of
        (WsNext, sent, us1) \<Rightarrow>
          (case ws_loop L ws evs us1 of (out, sent', us2) \<Rightarrow> (out, sent @ sent', us2))
      | (out, sent, us1) \<Rightarrow> (out, sent, us1))"

text \<open>The \<open>finally\<close> clause.\<close>

definition ws_leave :: "socket \<Rightarrow> app_state \<Rightarrow> app_state" where
  "ws_leave ws s = s\<lparr>ws_clients := dict_pop ws (ws_clients s), ws_client_keys := dict_pop ws (ws_client_keys s)\<rparr>"

text \<open>A whole connection: a run of the loop, closed when the loop ended.\<close>

definition ws_handler ::
  "app_libs \<Rightarrow> socket \<Rightarrow> (app_env \<times> ws_event) list \<Rightarrow> app_state \<Rightarrow> ws_outcome \<times> frame list \<times> app_state" where
  "ws_handler L ws evs s =
     (case ws_loop L ws evs (None, s) of
        (out, sent, (_, s1)) \<Rightarrow> (out, sent, if out = WsNext then s1 else ws_leave ws s1))"

end
