(* ===== verification/DbProps.thy ===== *)
theory DbProps
  imports Writer
begin

text \<open>
  The properties of db.py and its writer thread: what saving does on every branch, that a run of
  saves keeps exactly the first message of each id, that everything in the feed reaches the
  committed table in the order of the feed, that a restart then restores the feed, what a reset
  clears.
\<close>

section \<open>Sequences of saves\<close>

fun save_all :: "message_row list \<Rightarrow> db_state \<Rightarrow> db_state" where
  "save_all [] s = s"
| "save_all (r # rs) s = save_all rs (snd (save_message r s))"

text \<open>The reference: of the rows with one id, the feed keeps the first.\<close>

fun keep_first :: "feed_item list \<Rightarrow> message_row list \<Rightarrow> feed_item list" where
  "keep_first feed [] = feed"
| "keep_first feed (r # rs) =
     (if m_msg_id r \<in> f_id ` set feed then keep_first feed rs
      else keep_first (feed @ [feed_of_row r]) rs)"

lemma save_all_log: "save_all rs s = dblog.post_all rs s"
  by (induction rs arbitrary: s) (simp_all add: save_accepts_simps)

lemma keep_first_log: "keep_first feed rs = dblog.first_posts feed rs"
  by (induction rs arbitrary: feed) simp_all

text \<open>The start of the service on an empty database.\<close>

definition empty_db :: db_state where
  "empty_db = \<lparr>db_disk = \<lparr>img_messages = empty_table, img_users = []\<rparr>, db_txn = None,
     conn_pid = None, os_pid = 100, seen_msg_ids = {}, memory_feed = [], write_queue = [],
     writer_started = False, sql_lit = (\<lambda>_. SqlFinite (1 / 2) ''0.5'')\<rparr>"

definition toy_cfg :: db_config where
  "toy_cfg = \<lparr>db_service_url = ''http://db'', is_shared_db_host = False\<rparr>"

lemma empty_db_ok [simp]: "db_wf empty_db" "feed_ok empty_db" "durable_ok empty_db"
  by (simp_all add: empty_db_def db_wf_def feed_ok_def durable_ok_def stored_def get_conn_def db_view_def columns_ok_def)

text \<open>
  C11: Saving a message: a known id is refused and changes no message; a new id is added to the
  feed once, is then known, and raises the count by one. The feed and the set of known ids agree
  before and after.
\<close>
theorem save_message_outcome:
  assumes "feed_ok s" "save_message r s = (v, s')"
  shows "feed_ok s' \<and> message_exists (m_msg_id r) s' \<and>
    (if message_exists (m_msg_id r) s
     then v = Inr False \<and> memory_feed s' = memory_feed s \<and> get_message_count s' = get_message_count s
     else v \<noteq> Inr False \<and> memory_feed s' = memory_feed s @ [feed_of_row r] \<and>
       get_message_count s' = Suc (get_message_count s))"
proof (cases "m_msg_id r \<in> seen_msg_ids s")
  case True
  then show ?thesis
    using assms by (auto simp: save_message_dup message_exists_def get_message_count_def feed_ok_def)
next
  case False
  have "finite (seen_msg_ids s)" using assms(1) by (metis feed_ok_def List.finite_set)
  moreover have "feed_ok s'"
    using dblog.post_ok[OF assms(1), of r] assms(2) by (simp add: save_accepts_simps)
  ultimately show ?thesis
    using False save_message_new[OF False] assms(2)
    by (simp add: message_exists_def get_message_count_def)
qed

theorem save_message_outcome_witness:
  "feed_ok (snd (save_message sample_row empty_db)) \<and>
   memory_feed (snd (save_message sample_row empty_db)) = [feed_of_row sample_row]"
  using save_message_outcome[OF empty_db_ok(2), of sample_row "fst (save_message sample_row empty_db)"
      "snd (save_message sample_row empty_db)"]
  by (simp add: message_exists_def empty_db_def)

text \<open>
  C12: A run of saves leaves in the feed exactly the first message of each id, in order of arrival,
  after what was there; running the same saves again changes nothing.
\<close>
theorem save_all_keeps_first:
  assumes "feed_ok s"
  shows "memory_feed (save_all rs s) = keep_first (memory_feed s) rs \<and>
    memory_feed (save_all rs (save_all rs s)) = memory_feed (save_all rs s) \<and>
    distinct (map f_id (memory_feed (save_all rs s)))"
  using assms dblog.post_all_distinct[OF assms, of rs]
  by (simp add: save_all_log keep_first_log dblog.post_all_log dblog.post_all_again)

theorem save_all_keeps_first_witness:
  "memory_feed (save_all [sample_row, sample_row\<lparr>m_plaintext := ''again''\<rparr>] empty_db) = [feed_of_row sample_row]"
  using save_all_keeps_first[OF empty_db_ok(2), of "[sample_row, sample_row\<lparr>m_plaintext := ''again''\<rparr>]"]
  by (simp add: empty_db_def sample_row_def)

section \<open>Durability\<close>

lemma stored_admit [simp]: "stored (admit r s) = stored s" "db_wf (admit r s) = db_wf s"
  by (simp_all add: stored_def db_wf_def db_view_def get_conn_def split: option.split)

lemma enqueue_room:
  "length (write_queue s) < write_queue_maxsize \<Longrightarrow>
     enqueue_row r s = (None, s\<lparr>write_queue := write_queue s @ [r]\<rparr>)"
  by (simp add: enqueue_row_def queue_put_def)

lemma save_message_durable_step:
  assumes "db_wf s" "feed_ok s" "durable_ok s"
    and "length (write_queue s) < write_queue_maxsize"
    and "messages_bind_error r = None" "messages_not_null r"
  shows "durable_ok (snd (save_message r s)) \<and> db_wf (snd (save_message r s)) \<and>
    fst (save_message r s) = Inr (\<not> message_exists (m_msg_id r) s)"
proof (cases "m_msg_id r \<in> seen_msg_ids s")
  case True
  have "stored (ensure_writer_started s) = stored s" "db_wf (ensure_writer_started s) = db_wf s"
    by (simp_all add: stored_def db_wf_def db_view_def get_conn_def split: option.split)
  then show ?thesis
    using assms True by (simp add: save_message_dup durable_ok_def message_exists_def)
next
  case False
  then have "save_message r s = (Inr True, (admit r s)\<lparr>write_queue := write_queue s @ [r]\<rparr>)"
    using assms(4) by (simp add: save_message_fresh enqueue_room)
  moreover have "map feed_of_row (stored s @ map (col_row s) (write_queue s) @ [col_row s r]) =
      map (col_item s) (memory_feed s @ [feed_of_row r])"
    using assms(3) by (simp add: durable_ok_def feed_of_convert)
  ultimately show ?thesis
    using assms False by (auto simp: durable_ok_def message_exists_def)
qed

text \<open>
  C13: While the queue has room, saving a row that SQLite can store keeps the agreement between the
  feed and what is stored or queued, and never fails.
\<close>
theorem save_message_durable:
  assumes "db_wf s" "feed_ok s" "durable_ok s"
    and "length (write_queue s) < write_queue_maxsize"
    and "messages_bind_error r = None" "messages_not_null r"
  shows "durable_ok (snd (save_message r s)) \<and> db_wf (snd (save_message r s)) \<and>
    fst (save_message r s) = Inr (\<not> message_exists (m_msg_id r) s)"
  using save_message_durable_step[OF assms] .

theorem save_message_durable_witness:
  "durable_ok (snd (save_message sample_row empty_db)) \<and>
   fst (save_message sample_row empty_db) = Inr True"
proof -
  have "messages_bind_error sample_row = None" "messages_not_null sample_row"
    by (simp_all add: sample_row_def messages_bind_error_def messages_not_null_def)
  with save_message_durable[OF empty_db_ok, of sample_row] show ?thesis
    by (simp add: empty_db_def write_queue_maxsize_def message_exists_def)
qed

text \<open>The empty service after one saved message.\<close>

definition saved_db :: db_state where
  "saved_db = snd (save_message sample_row empty_db)"

lemma sample_row_storable:
  "messages_bind_error sample_row = None" "messages_not_null sample_row"
  by (simp_all add: sample_row_def messages_bind_error_def messages_not_null_def)

lemma saved_db_eq: "memory_feed saved_db = [feed_of_row sample_row]" "write_queue saved_db = [sample_row]"
  "db_txn saved_db = None" "sql_lit saved_db = sql_lit empty_db"
  by (simp_all add: saved_db_def save_message_fresh enqueue_room write_queue_maxsize_def)
    (simp_all add: empty_db_def save_message_fresh enqueue_room write_queue_maxsize_def)

lemma saved_db_ok: "db_wf saved_db" "feed_ok saved_db" "durable_ok saved_db" "db_txn saved_db = None"
proof -
  let ?s = "empty_db"
  have "m_msg_id sample_row \<notin> seen_msg_ids ?s" "write_queue ?s = []"
    by (simp_all add: empty_db_def)
  then have "save_message sample_row ?s = (Inr True, (admit sample_row ?s)\<lparr>write_queue := [sample_row]\<rparr>)"
    by (simp add: save_message_fresh enqueue_room write_queue_maxsize_def)
  then have "stored saved_db = stored ?s" "db_wf saved_db = db_wf ?s" by (simp_all add: saved_db_def)
  moreover have "stored ?s = []" by (simp add: empty_db_def stored_def db_view_def get_conn_def)
  ultimately show "db_wf saved_db" "durable_ok saved_db"
    using sample_row_storable by (simp_all add: durable_ok_def saved_db_eq feed_of_convert)
  show "feed_ok saved_db"
    using dblog.post_ok[OF empty_db_ok(2)] by (simp add: saved_db_def save_accepts_simps)
  show "db_txn saved_db = None" by (rule saved_db_eq)
qed




text \<open>What a process knows after it has read the database file.\<close>

lemma init_db_ok:
  assumes "db_wf d" "db_txn d = None" "write_queue d = []"
  shows "memory_feed (init_db d) = map feed_of_row (committed d)"
    and "seen_msg_ids (init_db d) = set (map m_msg_id (committed d))"
    and "feed_ok (init_db d)" "durable_ok (init_db d)" "db_wf (init_db d)"
    and "stored (init_db d) = committed d" "write_queue (init_db d) = []" "db_txn (init_db d) = None"
    and "sql_lit (init_db d) = sql_lit d"
proof -
  let ?t = "init_db d"
  have wf: "table_wf messages_key (img_messages (db_disk d))" using assms(1) by (simp add: db_wf_def)
  have sel: "map snd (sql_select_by_id (img_messages (db_disk d))) = committed d"
    using select_wf[OF wf] by (simp add: committed_def contents_def)
  show feed: "memory_feed ?t = map feed_of_row (committed d)"
    and seen: "seen_msg_ids ?t = set (map m_msg_id (committed d))"
    using sel by (simp_all add: init_db_def Let_def)
  have ids: "map f_id (map feed_of_row rows) = map m_msg_id rows" for rows by simp
  show "write_queue ?t = []" "db_txn ?t = None" and lit: "sql_lit ?t = sql_lit d"
    using assms by (simp_all add: init_db_def Let_def)
  have conn: "get_conn ?t = ?t\<lparr>conn_pid := conn_pid (get_conn ?t)\<rparr>"
    using \<open>db_txn ?t = None\<close> by (simp add: get_conn_def)
  then have view: "db_view (get_conn ?t) = db_disk d"
    using assms(2) by (simp add: db_view_def get_conn_def init_db_def Let_def)
  then show st: "stored ?t = committed d" by (simp add: stored_def committed_def)
  have "db_disk ?t = db_disk d" by (simp add: init_db_def Let_def)
  then show "db_wf ?t" using assms(1) view lit by (simp add: db_wf_def)
  have "distinct (filter (\<lambda>k. k \<noteq> None) (map messages_key (committed d)))"
    using wf by (simp add: table_wf_def committed_def)
  moreover have "filter (\<lambda>k. k \<noteq> None) (map messages_key rows) = map Some (map m_msg_id rows)" for rows
    by (induction rows) (simp_all add: messages_key_def)
  ultimately have "distinct (map m_msg_id (committed d))" by (simp only: distinct_map)
  then show "feed_ok ?t" unfolding feed_ok_def feed seen ids by simp
  have "columns_ok (sql_lit d) (committed d)" using assms(1) by (simp add: db_wf_def committed_def)
  then have "map feed_of_row (committed d) = map (col_item d) (map feed_of_row (committed d))"
    by (simp only: convert_feed columns_ok_def)
  then show "durable_ok ?t" using st feed lit \<open>write_queue ?t = []\<close> by (simp add: durable_ok_def)
qed

text \<open>A fresh process on the database file of \<open>s\<close>, on the same machine.\<close>

definition restarted :: "db_state \<Rightarrow> db_state" where
  "restarted s = init_db (empty_db\<lparr>db_disk := db_disk s, sql_lit := sql_lit s\<rparr>)"

text \<open>
  C23: Restart: in a state with well-formed tables whose known ids are those of the feed, let every
  message of the feed be stored, in the order of the feed (\<open>durable_ok\<close> with an empty queue), and no
  transaction be open. A fresh process that initialises itself from the
  database file then has the same feed, each timestamp as an INTEGER column keeps it, the same known
  ids and an empty write queue, and satisfies the same invariants.
\<close>
theorem restart_restores_feed:
  assumes "db_wf s" "feed_ok s" "durable_ok s" "db_txn s = None" "write_queue s = []"
  shows "memory_feed (restarted s) = map (col_item s) (memory_feed s) \<and>
    seen_msg_ids (restarted s) = seen_msg_ids s \<and> write_queue (restarted s) = [] \<and>
    feed_ok (restarted s) \<and> durable_ok (restarted s)"
proof -
  let ?d = "empty_db\<lparr>db_disk := db_disk s, sql_lit := sql_lit s\<rparr>"
  have d: "db_txn ?d = None" "write_queue ?d = []" "committed ?d = committed s" "db_wf ?d"
    using assms(1) by (simp_all add: empty_db_def committed_def db_wf_def db_view_def get_conn_def)
  have "committed s = stored s"
    using assms(4) by (simp add: committed_def stored_def db_view_def get_conn_def)
  then have feed: "map feed_of_row (committed s) = map (col_item s) (memory_feed s)"
    using assms(3,5) by (simp add: durable_ok_def)
  then have "map f_id (map feed_of_row (committed s)) = map f_id (map (col_item s) (memory_feed s))"
    by (simp only:)
  then have "map f_id (memory_feed s) = map m_msg_id (committed s)" by (simp add: o_def)
  then have "set (map m_msg_id (committed s)) = seen_msg_ids s"
    using assms(2) by (metis feed_ok_def)
  then show ?thesis unfolding restarted_def using init_db_ok[OF d(4,1,2)] feed d(3) by simp
qed

theorem restart_restores_feed_witness:
  "memory_feed (restarted (writer_run toy_cfg 1 saved_db)) = [feed_of_row sample_row]"
proof -
  let ?w = "writer_run toy_cfg 1 saved_db"
  have "db_wf ?w" "feed_ok ?w" "durable_ok ?w"
    using writer_run_durable[of saved_db toy_cfg 1] saved_db_ok by blast+
  moreover have "db_txn ?w = None" using writer_run_txn saved_db_ok by blast
  moreover have "write_queue ?w = []" by (simp add: writer_step_fields saved_db_eq batch_limit_def)
  ultimately show ?thesis
    using restart_restores_feed[of ?w]
    by (simp add: saved_db_eq feed_convert_def feed_of_row_def sample_row_def)
qed

section \<open>Reading and clearing the store\<close>

lemma last_hash_tip: "db_wf s \<Longrightarrow> get_last_hash s = (chain_tip (stored s), get_conn s)"
proof -
  assume wf: "db_wf s"
  let ?t = "img_messages (db_view (get_conn s))"
  have sel: "sql_select_by_id ?t = tbl_rows ?t"
    using wf select_wf[of messages_key ?t] by (simp add: db_wf_def)
  show ?thesis
  proof (cases "tbl_rows ?t" rule: rev_cases)
    case Nil
    with sel show ?thesis
      by (simp add: get_last_hash_def Let_def stored_def contents_def chain_tip_def GENESIS_HASH_def)
  next
    case (snoc xs x)
    with sel show ?thesis
      by (cases x) (simp add: get_last_hash_def Let_def stored_def contents_def chain_tip_def)
  qed
qed

text \<open>
  C24: A reset empties everything the module keeps about messages (feed, known ids, queue, table,
  committed file and id sequence), so that the chain starts over at the genesis hash, whatever the
  state was; the writer then finds nothing to write.
\<close>
theorem reset_db_clears:
  "memory_feed (reset_db s) = [] \<and> seen_msg_ids (reset_db s) = {} \<and> write_queue (reset_db s) = [] \<and>
   stored (reset_db s) = [] \<and> committed (reset_db s) = [] \<and>
   tbl_seq (img_messages (db_disk (reset_db s))) = 0 \<and>
   get_message_count (reset_db s) = 0 \<and> fst (get_last_hash (reset_db s)) = GENESIS_HASH \<and>
   img_users (db_disk (reset_db s)) = img_users (db_view (get_conn s)) \<and>
   writer_step cfg (reset_db s) = (None, reset_db s)"
proof -
  have drain: "drain_queue q = []" for q :: "message_row list" by (induction q) simp_all
  have view: "get_conn (s\<lparr>write_queue := [], seen_msg_ids := {}, memory_feed := []\<rparr>) =
      (get_conn s)\<lparr>write_queue := [], seen_msg_ids := {}, memory_feed := []\<rparr>"
    by (simp add: get_conn_def)
  have q: "write_queue (reset_db s) = []"
    by (simp add: reset_db_def delete_messages_def Let_def drain)
  moreover have st: "stored (reset_db s) = []" "conn_pid (reset_db s) = Some (os_pid (reset_db s))"
    by (simp_all add: reset_db_def delete_messages_def Let_def drain stored_def view view_get_conn)
      (simp_all add: db_view_def)
  moreover have "committed (reset_db s) = []" "tbl_seq (img_messages (db_disk (reset_db s))) = 0"
    "img_users (db_disk (reset_db s)) = img_users (db_view (get_conn s))"
    by (simp_all add: reset_db_def delete_messages_def Let_def drain committed_def view)
      (simp_all add: db_view_def sql_delete_all_def contents_def split: option.split)
  moreover have "fst (get_last_hash (reset_db s)) = GENESIS_HASH"
  proof -
    have "tbl_rows (img_messages (db_view (get_conn (reset_db s)))) = []"
      using st(1) by (simp add: stored_def contents_def)
    then show ?thesis by (simp add: get_last_hash_def Let_def GENESIS_HASH_def sql_select_by_id_def)
  qed
  ultimately show ?thesis
    by (simp add: reset_db_def delete_messages_def Let_def get_message_count_def writer_step_eq writer_flush_def)
qed

end
