(* ===== verification/AppInv.thy ===== *)
theory AppInv
  imports App DbProps
begin

text \<open>
  The invariant of one backend process that serves its requests one after the other: the database
  module agrees with itself, the rows stored or queued form an intact hash chain whose tip is
  \<open>_last_hash_val\<close>, and each of them is genuine (its signature verifies under its own public key,
  its ciphertext decrypts to its plaintext, its hashed fields hold no separator). The requests, the writer's turns and the sampler's
  turns are the steps of a transition system that keeps it.
\<close>

section \<open>The whole history\<close>

text \<open>The rows on disk followed by those still queued.\<close>

definition history :: "db_state \<Rightarrow> message_row list" where
  "history s = stored s @ write_queue s"

text \<open>Every row names the hash before it.\<close>

definition links_back :: "message_row list \<Rightarrow> bool" where
  "links_back rows \<longleftrightarrow> map m_prev_hash rows = butlast (GENESIS_HASH # map m_record_hash rows)"

lemma links_back_Nil [simp]: "links_back []"
  by (simp add: links_back_def)

lemma links_back_snoc:
  "links_back (rows @ [r]) \<longleftrightarrow> links_back rows \<and> m_prev_hash r = chain_tip rows"
proof -
  have "butlast (GENESIS_HASH # map m_record_hash (rows @ [r])) = GENESIS_HASH # map m_record_hash rows"
    by (simp add: butlast_append)
  also have "\<dots> = butlast (GENESIS_HASH # map m_record_hash rows) @ [last (GENESIS_HASH # map m_record_hash rows)]"
    by (rule append_butlast_last_id[symmetric]) simp
  also have "last (GENESIS_HASH # map m_record_hash rows) = chain_tip rows"
    by (simp add: chain_tip_def last_map)
  finally show ?thesis by (simp add: links_back_def)
qed

definition row_genuine :: "app_libs \<Rightarrow> message_row \<Rightarrow> bool" where
  "row_genuine L r \<longleftrightarrow>
     verify_signature (lib_ecdsa L) (m_pubkey r) (m_signature r)
       (canonical_message (m_username r) (m_plaintext r) (m_timestamp r)) = Inr True \<and>
     decrypt_text (lib_fernet L) (lib_key L) (m_ciphertext r) = Inr (Some (m_plaintext r)) \<and>
     messages_bind_error r = None \<and> messages_not_null r \<and> row_clean r"

text \<open>What the libraries promise.\<close>

definition libs_ok :: "app_libs \<Rightarrow> bool" where
  "libs_ok L \<longleftrightarrow> ecdsa_correct (lib_ecdsa L) \<and> pem_correct (lib_ecdsa L) \<and>
     fernet_roundtrip (lib_fernet L) (lib_key L) \<and> fernet_ascii (lib_fernet L) (lib_key L) \<and>
     fernet_no_bar (lib_fernet L) (lib_key L)"

text \<open>The clock fits SQLite's integers.\<close>

definition clock_ok :: "app_env \<Rightarrow> bool" where
  "clock_ok env \<longleftrightarrow> - (2 ^ 63) \<le> env_now env \<and> env_now env < 2 ^ 63"

text \<open>Timestamps are integers, so that the table holds them as they were sent.\<close>

definition times_ok :: "db_state \<Rightarrow> bool" where
  "times_ok d \<longleftrightarrow> (\<forall>r \<in> set (write_queue d). int_time (m_timestamp r)) \<and>
     (\<forall>t \<in> set (memory_feed d). int_time (f_timestamp t))"

definition db_ok :: "db_state \<Rightarrow> bool" where
  "db_ok d \<longleftrightarrow> db_wf d \<and> feed_ok d \<and> durable_ok d \<and> times_ok d \<and> db_txn d = None"

definition room :: "db_state \<Rightarrow> bool" where
  "room d \<longleftrightarrow> length (write_queue d) < write_queue_maxsize"

definition keys_valid :: "ecdsa_lib \<Rightarrow> (string, privkey \<times> string) pydict \<Rightarrow> bool" where
  "keys_valid E cache \<longleftrightarrow>
     (\<forall>u sk pem. map_of cache u = Some (sk, pem) \<longrightarrow> public_key_to_pem E (ec_public E sk) = Inr pem)"

definition history_ok :: "app_libs \<Rightarrow> string \<Rightarrow> message_row list \<Rightarrow> bool" where
  "history_ok L tip rows \<longleftrightarrow> chain_intact rows \<and> links_back rows \<and> chain_tip rows = tip \<and>
     list_all (row_genuine L) rows"

definition rest_core :: "app_libs \<Rightarrow> app_state \<Rightarrow> bool" where
  "rest_core L s \<longleftrightarrow> db_ok (a_db s) \<and> history_ok L (last_hash_val s) (history (a_db s)) \<and>
     keys_valid (lib_ecdsa L) (keypair_cache s)"

definition rest_inv :: "app_libs \<Rightarrow> app_state \<Rightarrow> bool" where
  "rest_inv L s \<longleftrightarrow> rest_core L s \<and> active_requests s = 0 \<and>
     length (keypair_cache s) \<le> Suc keypair_cache_limit \<and> length (response_times s) \<le> response_window"

section \<open>Frames of the database operations\<close>

lemma int_rows_exact:
  "\<forall>r \<in> set rs. int_time (m_timestamp r) \<Longrightarrow> map (messages_convert lit) rs = rs"
  "\<forall>t \<in> set ts. int_time (f_timestamp t) \<Longrightarrow> map (feed_convert lit) ts = ts"
  by (simp_all add: map_idI)

lemma db_ok_exact:
  assumes "db_ok d"
  shows "map feed_of_row (history d) = memory_feed d" "map (col_row d) (write_queue d) = write_queue d"
proof -
  note q = int_rows_exact(1)[of "write_queue d" "sql_lit d"] and f = int_rows_exact(2)[of "memory_feed d" "sql_lit d"]
  show "map (col_row d) (write_queue d) = write_queue d" using assms q by (simp add: db_ok_def times_ok_def)
  then show "map feed_of_row (history d) = memory_feed d"
    using assms f by (simp add: db_ok_def times_ok_def durable_ok_def history_def)
qed

lemma get_conn_db_ok:
  assumes "db_txn d = None"
  shows "stored (get_conn d) = stored d" "db_ok (get_conn d) = db_ok d" "history (get_conn d) = history d"
proof -
  have t: "db_txn (get_conn d) = None" using assms by (simp add: get_conn_def)
  show st: "stored (get_conn d) = stored d" by (simp add: stored_def)
  then show "history (get_conn d) = history d" by (simp add: history_def)
  show "db_ok (get_conn d) = db_ok d"
    using assms t st by (simp add: db_ok_def db_wf_def feed_ok_def durable_ok_def times_ok_def)
qed

lemma save_message_history:
  assumes "room d" "m_msg_id r \<notin> seen_msg_ids d"
  shows "fst (save_message r d) = Inr True"
    "history (snd (save_message r d)) = history d @ [r]"
    "memory_feed (snd (save_message r d)) = memory_feed d @ [feed_of_row r]"
    "seen_msg_ids (snd (save_message r d)) = insert (m_msg_id r) (seen_msg_ids d)"
proof -
  have eq: "save_message r d = (Inr True, (admit r d)\<lparr>write_queue := write_queue d @ [r]\<rparr>)"
    using assms by (simp add: save_message_fresh enqueue_room room_def)
  then show "fst (save_message r d) = Inr True"
    "history (snd (save_message r d)) = history d @ [r]"
    "memory_feed (snd (save_message r d)) = memory_feed d @ [feed_of_row r]"
    "seen_msg_ids (snd (save_message r d)) = insert (m_msg_id r) (seen_msg_ids d)"
    by (simp_all add: history_def)
qed

lemma save_message_db_ok:
  assumes "db_ok d" "room d" "m_msg_id r \<notin> seen_msg_ids d" "messages_bind_error r = None"
    and "int_time (m_timestamp r)"
  shows "db_ok (snd (save_message r d))"
proof -
  have eq: "save_message r d = (Inr True, (admit r d)\<lparr>write_queue := write_queue d @ [r]\<rparr>)"
    using assms(2,3) by (simp add: save_message_fresh enqueue_room room_def)
  have nn: "messages_not_null r" using assms(5) by (cases "m_timestamp r") (simp_all add: messages_not_null_def)
  have "feed_ok (snd (save_message r d))"
    using dblog.post_ok[of d r] assms(1) by (simp add: save_accepts_simps db_ok_def)
  moreover have "durable_ok (snd (save_message r d))" "db_wf (snd (save_message r d))"
    using save_message_durable_step[of d r] assms nn by (simp_all add: db_ok_def room_def)
  moreover have "times_ok (snd (save_message r d))"
    using assms(1,5) eq by (auto simp: db_ok_def times_ok_def feed_of_row_def)
  moreover have "db_txn (snd (save_message r d)) = None" using assms(1) eq by (simp add: db_ok_def)
  ultimately show ?thesis by (simp add: db_ok_def)
qed

lemma writer_step_history:
  assumes "db_ok d"
  shows "history (snd (writer_step cfg d)) = history d" "db_ok (snd (writer_step cfg d))"
proof -
  note d = assms[unfolded db_ok_def]
  show "db_ok (snd (writer_step cfg d))"
    using writer_step_durable[of d cfg] writer_step_txn[of d cfg] d
    by (auto simp: db_ok_def times_ok_def dest: in_set_dropD)
  show "history (snd (writer_step cfg d)) = history d"
  proof (cases "write_queue d = []")
    case True
    then show ?thesis by (simp add: writer_step_eq writer_flush_def history_def)
  next
    case False
    have "\<forall>r \<in> set (take batch_limit (write_queue d)). int_time (m_timestamp r)"
      using d by (auto simp: times_ok_def dest: in_set_takeD)
    with False show ?thesis
      using writer_step_rows[of d cfg] d by (simp add: history_def int_rows_exact)
  qed
qed

lemma drain_queue_Nil [simp]: "drain_queue q = []"
  by (induction q) simp_all

lemma reset_db_ok:
  assumes "dict_ok (img_users (db_view (get_conn d)))"
  shows "db_ok (reset_db d)" "history (reset_db d) = []" "memory_feed (reset_db d) = []"
    "seen_msg_ids (reset_db d) = {}"
proof -
  let ?c = "get_conn (d\<lparr>write_queue := [], seen_msg_ids := {}, memory_feed := []\<rparr>)"
  have c: "?c = (get_conn d)\<lparr>write_queue := [], seen_msg_ids := {}, memory_feed := []\<rparr>"
    "db_view ?c = db_view (get_conn d)"
    by (simp_all add: get_conn_def db_view_def split: option.split)
  show f: "memory_feed (reset_db d) = []" "seen_msg_ids (reset_db d) = {}"
    by (simp_all add: reset_db_def delete_messages_def Let_def)
  have q: "write_queue (reset_db d) = []" "db_txn (reset_db d) = None"
    "conn_pid (reset_db d) = Some (os_pid (reset_db d))"
    by (simp_all add: reset_db_def delete_messages_def Let_def)
  have disk: "db_disk (reset_db d) =
      (db_view (get_conn d))\<lparr>img_messages := sql_delete_all (img_messages (db_view (get_conn d)))\<rparr>"
    by (simp add: reset_db_def delete_messages_def Let_def c) (simp add: db_view_def split: option.split)
  have view: "db_view (get_conn (reset_db d)) = db_disk (reset_db d)"
    using q by (simp add: view_get_conn db_view_def)
  then have "stored (reset_db d) = []" by (simp add: stored_def disk)
  then show "history (reset_db d) = []" "db_ok (reset_db d)"
    using q f disk view assms by (simp_all add: history_def db_ok_def db_wf_def feed_ok_def durable_ok_def
        times_ok_def columns_ok_def)
qed

section \<open>Keys\<close>

lemma keypair_ok:
  assumes "pem_correct E" "keys_valid E (keypair_cache s)"
  shows "\<exists>sk pem cache. get_or_create_keypair E d u s = (Inr (sk, pem), s\<lparr>keypair_cache := cache\<rparr>) \<and>
    public_key_to_pem E (ec_public E sk) = Inr pem \<and> keys_valid E cache"
proof (cases "map_of (keypair_cache s) u")
  case None
  from public_key_to_pem_ok[OF assms(1)] obtain pem where pem: "public_key_to_pem E (ec_public E d) = Inr pem"
    by blast
  let ?c = "if length (keypair_cache s) > keypair_cache_limit then [] else keypair_cache s"
  have "get_or_create_keypair E d u s = (Inr (d, pem), s\<lparr>keypair_cache := dict_set u (d, pem) ?c\<rparr>)"
    using None pem by (simp add: get_or_create_keypair_def generate_keypair_def)
  moreover have "keys_valid E (dict_set u (d, pem) ?c)"
    using assms(2) pem by (simp add: keys_valid_def)
  ultimately show ?thesis using pem by blast
next
  case (Some kp)
  obtain sk pem where kp: "kp = (sk, pem)" by (cases kp)
  have "s = s\<lparr>keypair_cache := keypair_cache s\<rparr>" by simp
  with Some kp have "get_or_create_keypair E d u s = (Inr (sk, pem), s\<lparr>keypair_cache := keypair_cache s\<rparr>)"
    by (simp add: get_or_create_keypair_def)
  moreover have "public_key_to_pem E (ec_public E sk) = Inr pem"
    using assms(2) Some kp by (simp add: keys_valid_def)
  ultimately show ?thesis using assms(2) by blast
qed

lemma keypair_fields:
  "\<exists>cache. snd (get_or_create_keypair E d u s) = s\<lparr>keypair_cache := cache\<rparr> \<and>
    (length (keypair_cache s) \<le> Suc keypair_cache_limit \<longrightarrow> length cache \<le> Suc keypair_cache_limit)"
proof (cases "map_of (keypair_cache s) u")
  case (Some kp)
  then show ?thesis by (intro exI[of _ "keypair_cache s"]) (simp add: get_or_create_keypair_def)
next
  case None
  let ?c = "if length (keypair_cache s) > keypair_cache_limit then [] else keypair_cache s"
  show ?thesis
  proof (cases "public_key_to_pem E (ec_public E d)")
    case (Inl e)
    with None show ?thesis
      by (intro exI[of _ ?c]) (simp add: get_or_create_keypair_def generate_keypair_def)
  next
    case (Inr pem)
    with None show ?thesis
      by (intro exI[of _ "dict_set u (d, pem) ?c"])
        (simp add: get_or_create_keypair_def generate_keypair_def length_dict_set)
  qed
qed

lemma post_store_fields:
  "\<exists>cache h db. snd (post_store L env u m i s) = s\<lparr>keypair_cache := cache, last_hash_val := h, a_db := db\<rparr> \<and>
    (length (keypair_cache s) \<le> Suc keypair_cache_limit \<longrightarrow> length cache \<le> Suc keypair_cache_limit)"
proof -
  obtain r s1 where k: "get_or_create_keypair (lib_ecdsa L) (env_drawn env) u s = (r, s1)" by fastforce
  then obtain cache where c: "s1 = s\<lparr>keypair_cache := cache\<rparr>"
    "length (keypair_cache s) \<le> Suc keypair_cache_limit \<longrightarrow> length cache \<le> Suc keypair_cache_limit"
    using keypair_fields[of "lib_ecdsa L" "env_drawn env" u s] by auto
  have triv: "\<exists>h db. s1 = s1\<lparr>last_hash_val := h, a_db := db\<rparr>"
    by (intro exI[of _ "last_hash_val s1"] exI[of _ "a_db s1"]) simp
  have "\<exists>h db. snd (post_store L env u m i s) = s1\<lparr>last_hash_val := h, a_db := db\<rparr>"
    by (auto simp: post_store_def k get_next_hashes_def Let_def split: sum.split prod.split intro: triv)
  with c show ?thesis by force
qed

section \<open>Storing one message\<close>

text \<open>What storing a message under a new id does, from a state that satisfies the invariant.\<close>

lemma post_store_ok:
  assumes "libs_ok L" "clock_ok env" "room (a_db s)" "db_ok (a_db s)"
    and "keys_valid (lib_ecdsa L) (keypair_cache s)"
    and "history_ok L (last_hash_val s) (history (a_db s))"
    and "\<not> message_exists i (a_db s)"
  shows "\<exists>cache r db. post_store L env u m i s =
      (Inr True, s\<lparr>keypair_cache := cache, last_hash_val := m_record_hash r, a_db := db\<rparr>) \<and>
    keys_valid (lib_ecdsa L) cache \<and> db_ok db \<and> history db = history (a_db s) @ [r] \<and>
    history_ok L (m_record_hash r) (history (a_db s) @ [r]) \<and>
    feed_of_row r = \<lparr>f_id = i, f_username = u, f_plaintext = m, f_timestamp = PInt (env_now env)\<rparr> \<and>
    memory_feed db = memory_feed (a_db s) @ [feed_of_row r] \<and>
    seen_msg_ids db = insert i (seen_msg_ids (a_db s))"
proof -
  note lib = assms(1)[unfolded libs_ok_def]
  let ?ts = "PInt (env_now env)"
  obtain sk pem cache where k:
    "get_or_create_keypair (lib_ecdsa L) (env_drawn env) u s = (Inr (sk, pem), s\<lparr>keypair_cache := cache\<rparr>)"
    "public_key_to_pem (lib_ecdsa L) (ec_public (lib_ecdsa L) sk) = Inr pem" "keys_valid (lib_ecdsa L) cache"
    using keypair_ok[of "lib_ecdsa L" s "env_drawn env" u] lib assms(5) by blast
  obtain sig where sig: "sign_message (lib_ecdsa L) sk (env_sign_seed env) (canonical_message u m ?ts) = Inr sig"
    by (simp add: sign_message_text)
  obtain c where c: "encrypt_text (lib_fernet L) (lib_key L) (env_fernet_seed env) m = Inr c"
    using encrypt_text_ok lib by blast
  let ?p = "last_hash_val s"
  let ?rec = "compute_record_hash ?p u c sig ?ts"
  let ?r = "chat_row i u m c sig pem ?ts (?p, ?rec)"
  have r: "m_msg_id ?r = i" "m_record_hash ?r = ?rec" "m_prev_hash ?r = ?p" "row_link ?p ?r = ?rec"
    by (simp_all add: chat_row_def row_link_def)
  have "verify_signature (lib_ecdsa L) pem sig (canonical_message u m ?ts) = Inr True"
    using own_signature_verifies[OF _ _ k(2) sig] lib by blast
  moreover have "decrypt_text (lib_fernet L) (lib_key L) c = Inr (Some m)"
    using own_ciphertext_decrypts[OF _ _ c] lib by blast
  moreover have bind: "messages_bind_error ?r = None" "messages_not_null ?r"
    using assms(2) by (simp_all add: chat_row_def messages_bind_error_def messages_not_null_def clock_ok_def)
  moreover have "row_clean ?r"
    using own_ciphertext_no_bar[OF _ _ c] lib sig b64_text_no_bar
    by (simp add: row_clean_def chat_row_def no_bar_def sign_message_text) blast
  ultimately have "row_genuine L ?r" by (simp add: row_genuine_def chat_row_def)
  then have h: "history_ok L ?rec (history (a_db s) @ [?r])"
    using assms(6) r by (simp add: history_ok_def chain_intact_snoc links_back_snoc)
  have "m_msg_id ?r \<notin> seen_msg_ids (a_db s)" using assms(7) r by (simp add: message_exists_def)
  note sv = save_message_history[OF assms(3) this]
  have sv_ok: "db_ok (snd (save_message ?r (a_db s)))"
    using save_message_db_ok[OF assms(4,3) \<open>m_msg_id ?r \<notin> seen_msg_ids (a_db s)\<close> bind(1)] by (simp add: chat_row_def)
  have "post_store L env u m i s = (Inr True, s\<lparr>keypair_cache := cache, last_hash_val := ?rec,
      a_db := snd (save_message ?r (a_db s))\<rparr>)"
    using k sig c sv(1) by (cases "save_message ?r (a_db s)") (simp add: post_store_def get_next_hashes_def Let_def)
  moreover have "feed_of_row ?r = \<lparr>f_id = i, f_username = u, f_plaintext = m, f_timestamp = ?ts\<rparr>"
    by (simp add: chat_row_def feed_of_row_def)
  ultimately show ?thesis
    using sv sv_ok k(3) h r by (intro exI[of _ cache] exI[of _ ?r] exI[of _ "snd (save_message ?r (a_db s))"]) simp
qed

lemma broadcast_fields [simp]:
  "a_db (snd (broadcast_ws ok p s)) = a_db s" "last_hash_val (snd (broadcast_ws ok p s)) = last_hash_val s"
  "keypair_cache (snd (broadcast_ws ok p s)) = keypair_cache s"
  "active_requests (snd (broadcast_ws ok p s)) = active_requests s"
  "response_times (snd (broadcast_ws ok p s)) = response_times s"
  by (simp_all add: broadcast_ws_def Let_def)

lemma broadcast_or_not [simp]:
  "a_db (snd (if b then broadcast_ws ok p s else ([], s))) = a_db s"
  "last_hash_val (snd (if b then broadcast_ws ok p s else ([], s))) = last_hash_val s"
  "keypair_cache (snd (if b then broadcast_ws ok p s else ([], s))) = keypair_cache s"
  "active_requests (snd (if b then broadcast_ws ok p s else ([], s))) = active_requests s"
  "response_times (snd (if b then broadcast_ws ok p s else ([], s))) = response_times s"
  by simp_all

text \<open>Whatever happens in the body, the counter and the window of the handler are left alone.\<close>

lemma post_body_fields:
  "active_requests (snd (snd (post_body L env rq s))) = active_requests s"
  "response_times (snd (snd (post_body L env rq s))) = response_times s"
  "length (keypair_cache s) \<le> Suc keypair_cache_limit \<Longrightarrow>
     length (keypair_cache (snd (snd (post_body L env rq s)))) \<le> Suc keypair_cache_limit"
proof -
  have st: "active_requests (snd (post_store L env u m i s)) = active_requests s"
    "response_times (snd (post_store L env u m i s)) = response_times s"
    "length (keypair_cache s) \<le> Suc keypair_cache_limit \<Longrightarrow>
       length (keypair_cache (snd (post_store L env u m i s))) \<le> Suc keypair_cache_limit" for u m i
    using post_store_fields[of L env u m i s] by auto
  have "active_requests (snd (snd (post_body L env rq s))) = active_requests s \<and>
    response_times (snd (snd (post_body L env rq s))) = response_times s \<and>
    (length (keypair_cache s) \<le> Suc keypair_cache_limit \<longrightarrow>
     length (keypair_cache (snd (snd (post_body L env rq s)))) \<le> Suc keypair_cache_limit)"
    unfolding post_body_def Let_def
    by (simp add: split_beta st split: sum.split)
  then show "active_requests (snd (snd (post_body L env rq s))) = active_requests s"
    "response_times (snd (snd (post_body L env rq s))) = response_times s"
    "length (keypair_cache s) \<le> Suc keypair_cache_limit \<Longrightarrow>
     length (keypair_cache (snd (snd (post_body L env rq s)))) \<le> Suc keypair_cache_limit" by blast+
qed

section \<open>One request\<close>

text \<open>The reference for POST /message: the answer, and the message added to the feed, if any.\<close>

datatype post_verdict =
    Refused web_response
  | Known string string string
  | Fresh string string string

definition verdict_of :: "app_env \<Rightarrow> web_request \<Rightarrow> db_state \<Rightarrow> post_verdict" where
  "verdict_of env rq d =
     (case post_fields rq of
        Inl e \<Rightarrow> Refused (jsonify 500 [(''error'', PStr (exn_message e))])
      | Inr (u, m, g) \<Rightarrow>
          if u = [] then Refused (jsonify 400 [(''error'', PStr ''client-name is required'')])
          else if m = [] then Refused (jsonify 400 [(''error'', PStr ''msg is required'')])
          else (let i = (if g = [] then env_uuid env else g)
                in if i \<in> f_id ` set (memory_feed d) then Known i u m else Fresh i u m))"

definition ok_answer :: "string \<Rightarrow> string \<Rightarrow> string \<Rightarrow> string \<Rightarrow> (string \<times> pyval) list \<Rightarrow> web_response" where
  "ok_answer status i u m extra = jsonify 200 ([(''status'', PStr status), (''msg_id'', PStr i),
     (''client-name'', PStr u), (''msg'', PStr m)] @ extra)"

lemma message_exists_feed: "feed_ok d \<Longrightarrow> message_exists i d \<longleftrightarrow> i \<in> f_id ` set (memory_feed d)"
  by (auto simp: message_exists_def feed_ok_def)

lemma rest_core_fields:
  "rest_core L (s\<lparr>active_requests := n\<rparr>) = rest_core L s"
  "rest_core L (s\<lparr>response_times := ts\<rparr>) = rest_core L s"
  "rest_core L (s\<lparr>cpu_sampler := c\<rparr>) = rest_core L s"
  by (simp_all add: rest_core_def)

lemma post_body_verdict:
  assumes "libs_ok L" "clock_ok env" "room (a_db s)" "rest_core L s"
  shows "rest_core L (snd (snd (post_body L env rq s))) \<and>
    (case verdict_of env rq (a_db s) of
       Refused w \<Rightarrow>
         (case fst (post_body L env rq s) of
            Inr v \<Rightarrow> w = v | Inl e \<Rightarrow> w = jsonify 500 [(''error'', PStr (exn_message e))]) \<and>
         snd (post_body L env rq s) = ([], s)
     | Known i u m \<Rightarrow> post_body L env rq s = (Inr (ok_answer ''duplicate'' i u m []), [], s)
     | Fresh i u m \<Rightarrow>
         fst (post_body L env rq s) = Inr (ok_answer ''ok'' i u m [(''timestamp'', PInt (env_now env))]) \<and>
         memory_feed (a_db (snd (snd (post_body L env rq s)))) = memory_feed (a_db s) @
           [\<lparr>f_id = i, f_username = u, f_plaintext = m, f_timestamp = PInt (env_now env)\<rparr>])"
proof (cases "verdict_of env rq (a_db s)")
  case (Refused w)
  then show ?thesis
    using assms(4) by (auto simp: verdict_of_def post_body_def Let_def split: sum.splits if_splits)
next
  case (Known i u m)
  moreover have "feed_ok (a_db s)" using assms(4) by (simp add: rest_core_def db_ok_def)
  ultimately show ?thesis
    using assms(4)
    by (auto simp: verdict_of_def post_body_def Let_def message_exists_feed ok_answer_def
        split: sum.splits if_splits)
next
  case (Fresh i u m)
  then obtain g where f: "post_fields rq = Inr (u, m, g)" "u \<noteq> []" "m \<noteq> []"
    and i: "i = (if g = [] then env_uuid env else g)" and new: "i \<notin> f_id ` set (memory_feed (a_db s))"
    by (auto simp: verdict_of_def Let_def split: sum.splits if_splits)
  have core: "db_ok (a_db s)" "keys_valid (lib_ecdsa L) (keypair_cache s)"
    "history_ok L (last_hash_val s) (history (a_db s))" using assms(4) by (simp_all add: rest_core_def)
  have nex: "\<not> message_exists i (a_db s)" using core(1) new by (simp add: db_ok_def message_exists_feed)
  from post_store_ok[OF assms(1-3) core nex, of u m] obtain cache r db where
    st: "post_store L env u m i s =
      (Inr True, s\<lparr>keypair_cache := cache, last_hash_val := m_record_hash r, a_db := db\<rparr>)"
    and inv: "keys_valid (lib_ecdsa L) cache" "db_ok db" "history db = history (a_db s) @ [r]"
      "history_ok L (m_record_hash r) (history (a_db s) @ [r])"
    and fd: "memory_feed db = memory_feed (a_db s) @
      [\<lparr>f_id = i, f_username = u, f_plaintext = m, f_timestamp = PInt (env_now env)\<rparr>]" by metis
  let ?s1 = "s\<lparr>keypair_cache := cache, last_hash_val := m_record_hash r, a_db := db\<rparr>"
  let ?b = "if ws_clients ?s1 \<noteq> [] then broadcast_ws (env_send_ok env)
      (message_payload u m (PInt (env_now env))) ?s1 else ([], ?s1)"
  have "post_body L env rq s =
      (Inr (ok_answer ''ok'' i u m [(''timestamp'', PInt (env_now env))]), fst ?b, snd ?b)"
    using f nex st by (simp add: post_body_def i[symmetric] ok_answer_def split_beta)
  moreover have "rest_core L (snd ?b)"
    using inv unfolding rest_core_def by (simp only: broadcast_or_not) simp
  moreover have "a_db (snd ?b) = db" by (simp only: broadcast_or_not) simp
  ultimately show ?thesis using Fresh fd by simp
qed

end
