(* ===== verification/Serve.thy ===== *)
theory Serve
  imports WebSocket AppInv
begin

text \<open>
  The requests of app.py as the steps of one process that serves them one after the other: every route
  that touches the state, the frames of a socket, a turn of the writer and of the sampler. Two facts
  about sequences of them: only a reset forgets a message id, and the requests that go through the hash
  chain of POST /message, together with those that store no message, keep the invariant \<open>rest_inv\<close>.
\<close>

section \<open>Requests\<close>

text \<open>
  A frame of a socket comes with the name its connection has joined under. GET /health and the static
  files change nothing.
\<close>

datatype request =
    PostMessage app_env web_request
  | GetFeed app_env
  | GetMessages "string option"
  | PostBatch app_env web_request
  | SocketFrame app_env socket ws_event "string option"
  | SocketGone socket
  | ResetState
  | WriterTurn
  | SamplerTurn "string option"

fun serve :: "app_libs \<Rightarrow> db_config \<Rightarrow> request \<Rightarrow> app_state \<Rightarrow> app_state" where
  "serve L cfg (PostMessage env rq) s = snd (snd (post_message L env rq s))"
| "serve L cfg (GetFeed env) s = snd (get_feed env s)"
| "serve L cfg (GetMessages arg) s = snd (get_messages arg s)"
| "serve L cfg (PostBatch env rq) s = snd (post_messages_batch cfg env rq s)"
| "serve L cfg (SocketFrame env ws ev u) s = snd (snd (snd (ws_step L env ws ev (u, s))))"
| "serve L cfg (SocketGone ws) s = ws_leave ws s"
| "serve L cfg ResetState s = snd (reset_state s)"
| "serve L cfg WriterTurn s = s\<lparr>a_db := snd (writer_step cfg (a_db s))\<rparr>"
| "serve L cfg (SamplerTurn line) s = s\<lparr>cpu_sampler := cpu_sample line (cpu_sampler s)\<rparr>"

fun serve_all :: "app_libs \<Rightarrow> db_config \<Rightarrow> request list \<Rightarrow> app_state \<Rightarrow> app_state" where
  "serve_all L cfg [] s = s"
| "serve_all L cfg (r # rs) s = serve_all L cfg rs (serve L cfg r s)"

fun chat_frame :: "ws_event \<Rightarrow> bool" where
  "chat_frame (WsDecoded (PDict d)) = (dget d ''type'' = PStr ''message'')"
| "chat_frame _ = False"

text \<open>
  What stays within the hash chain of the process: everything but batches and chat messages over a
  socket, and POST /message as long as the libraries keep their promises, the clock fits SQLite's
  integers and the write queue has room.
\<close>

fun in_chain :: "app_libs \<Rightarrow> request \<Rightarrow> app_state \<Rightarrow> bool" where
  "in_chain L (PostMessage env rq) s = (libs_ok L \<and> clock_ok env \<and> room (a_db s))"
| "in_chain L (PostBatch env rq) s = False"
| "in_chain L (SocketFrame env ws ev u) s = (\<not> chat_frame ev)"
| "in_chain L r s = True"

section \<open>Frames\<close>

lemma reset_state_fields:
  "snd (reset_state s) = s\<lparr>a_db := reset_db (a_db s), last_hash_val := GENESIS_HASH, keypair_cache := []\<rparr>"
  by (simp add: reset_state_def Let_def GENESIS_HASH_def)

lemma load_shared_state: "snd (load_shared_messages n d) = get_conn d"
  by (simp add: load_shared_messages_def Let_def split: option.split)

lemma get_messages_state: "snd (get_messages arg s) = s\<lparr>a_db := get_conn (a_db s)\<rparr>"
  using load_shared_state[of "limit_arg arg" "a_db s"]
  by (auto simp: get_messages_def split: prod.split sum.split)

lemma post_message_state:
  "snd (snd (post_message L env rq s)) =
     (let s1 = snd (snd (post_body L env rq (s\<lparr>active_requests := active_requests s + 1\<rparr>)))
      in s1\<lparr>active_requests := active_requests s,
            response_times := track_response_time (env_elapsed env) (response_times s)\<rparr>)"
  by (simp add: post_message_def Let_def split_beta post_body_fields)

lemma upsert_fields [simp]:
  "seen_msg_ids (upsert_user_pubkey u k d) = seen_msg_ids d"
  "memory_feed (upsert_user_pubkey u k d) = memory_feed d"
  "write_queue (upsert_user_pubkey u k d) = write_queue d"
  "sql_lit (upsert_user_pubkey u k d) = sql_lit d"
  "db_txn (upsert_user_pubkey u k d) = None"
  by (simp_all add: upsert_user_pubkey_def Let_def)

lemma upsert_db_ok:
  assumes "db_ok d"
  shows "db_ok (upsert_user_pubkey u k d)" "history (upsert_user_pubkey u k d) = history d"
proof -
  let ?d = "upsert_user_pubkey u k d"
  have conn: "get_conn ?d = ?d" by (rule view_get_conn) (simp add: upsert_user_pubkey_def Let_def)
  have view: "db_view ?d = (db_view (get_conn d))\<lparr>img_users := dict_set u k (img_users (db_view (get_conn d)))\<rparr>"
    by (simp add: upsert_user_pubkey_def Let_def) (simp add: db_view_def)
  have disk: "db_disk ?d = db_view ?d" by (simp add: upsert_user_pubkey_def Let_def)
  have st: "stored ?d = stored d" by (simp add: stored_def conn view)
  then show "history ?d = history d" by (simp add: history_def)
  show "db_ok ?d"
    using assms st by (simp add: db_ok_def db_wf_def feed_ok_def durable_ok_def times_ok_def conn disk view)
qed

lemma ws_leave_fields [simp]:
  "a_db (ws_leave ws s) = a_db s" "last_hash_val (ws_leave ws s) = last_hash_val s"
  "keypair_cache (ws_leave ws s) = keypair_cache s" "active_requests (ws_leave ws s) = active_requests s"
  "response_times (ws_leave ws s) = response_times s"
  by (simp_all add: ws_leave_def)

text \<open>A frame that is no chat message leaves everything but the registry and the users alone.\<close>

lemma quiet_frame:
  assumes "\<not> chat_frame ev"
  shows "\<exists>cl ks db. snd (snd (snd (ws_step L env ws ev (u, s)))) = s\<lparr>ws_clients := cl, ws_client_keys := ks, a_db := db\<rparr> \<and>
    (db = a_db s \<or> (\<exists>n k. db = upsert_user_pubkey n k (a_db s)))"
proof -
  have same: "\<exists>cl ks db. s = s\<lparr>ws_clients := cl, ws_client_keys := ks, a_db := db\<rparr> \<and>
      (db = a_db s \<or> (\<exists>n k. db = upsert_user_pubkey n k (a_db s)))"
    by (intro exI[of _ "ws_clients s"] exI[of _ "ws_client_keys s"] exI[of _ "a_db s"]) simp
  have join: "\<exists>cl ks db. snd (snd (snd (ws_join L env ws d (u, s)))) = s\<lparr>ws_clients := cl, ws_client_keys := ks, a_db := db\<rparr> \<and>
      (db = a_db s \<or> (\<exists>n k. db = upsert_user_pubkey n k (a_db s)))" for d
  proof -
    have upd: "\<exists>cl ks db. s\<lparr>ws_clients := a, ws_client_keys := b, a_db := upsert_user_pubkey n k (a_db s)\<rparr> =
        s\<lparr>ws_clients := cl, ws_client_keys := ks, a_db := db\<rparr> \<and>
        (db = a_db s \<or> (\<exists>n k. db = upsert_user_pubkey n k (a_db s)))" for a b n k
      by blast
    show ?thesis
      by (auto simp: ws_join_def Let_def simp del: app_state.update_convs split: sum.split prod.split
          intro: same upd)
  qed
  show ?thesis
  proof (cases ev)
    case (WsDecoded v)
    then show ?thesis
      using assms same join by (cases v) (auto simp: ws_step_def split: sum.split)
  qed (use same in \<open>simp_all add: ws_step_def\<close>)
qed

section \<open>Known ids\<close>

lemma enqueue_known: "enqueue_row r d = (v, d') \<Longrightarrow> seen_msg_ids d' = seen_msg_ids d"
  using enqueue_fields(1)[of r d] by simp

lemma save_message_known:
  "seen_msg_ids d \<subseteq> seen_msg_ids (snd (save_message r d))"
  "fst (save_message r d) = Inr b \<Longrightarrow> m_msg_id r \<in> seen_msg_ids (snd (save_message r d))"
  by (cases "m_msg_id r \<in> seen_msg_ids d"; auto simp: save_message_dup save_message_new)+

lemma get_last_hash_known: "get_last_hash d = (h, d') \<Longrightarrow> seen_msg_ids d' = seen_msg_ids d"
  by (auto simp: get_last_hash_def Let_def)

lemma post_store_known:
  "seen_msg_ids (a_db s) \<subseteq> seen_msg_ids (a_db (snd (post_store L env u m i s)))"
  "fst (post_store L env u m i s) = Inr b \<Longrightarrow> i \<in> seen_msg_ids (a_db (snd (post_store L env u m i s)))"
proof -
  obtain v s1 where k: "get_or_create_keypair (lib_ecdsa L) (env_drawn env) u s = (v, s1)" by fastforce
  then have db: "a_db s1 = a_db s" using keypair_fields[of "lib_ecdsa L" "env_drawn env" u s] by auto
  have id: "m_msg_id (chat_row i u m c sg pem ts h) = i" for c sg pem ts h by (simp add: chat_row_def)
  show "seen_msg_ids (a_db s) \<subseteq> seen_msg_ids (a_db (snd (post_store L env u m i s)))"
    using save_message_known(1)[of "a_db s"] db
    by (simp add: post_store_def k get_next_hashes_def Let_def split_beta split: sum.split)
  show "fst (post_store L env u m i s) = Inr b \<Longrightarrow> i \<in> seen_msg_ids (a_db (snd (post_store L env u m i s)))"
    using save_message_known(2)[of _ "a_db s" b] db id
    by (fastforce simp: post_store_def k get_next_hashes_def Let_def split_beta split: sum.splits)
qed

lemma post_body_known:
  "seen_msg_ids (a_db s) \<subseteq> seen_msg_ids (a_db (snd (snd (post_body L env rq s))))"
  using post_store_known(1)[of s L env]
  by (auto simp: post_body_def Let_def split_beta split: sum.split)

lemma post_message_db:
  "a_db (snd (snd (post_message L env rq s))) =
     a_db (snd (snd (post_body L env rq (s\<lparr>active_requests := active_requests s + 1\<rparr>))))"
  by (simp add: post_message_state Let_def)

lemma batch_known: "seen_msg_ids d \<subseteq> seen_msg_ids (snd (save_messages_batch cfg now batch d))"
proof -
  have "seen_msg_ids d' = seen_msg_ids d" if "insert_rows rows d = (v, d')" for rows v d'
    using insert_rows_fields(1)[of rows d] that by simp
  then show ?thesis
    by (auto simp: save_messages_batch_def Let_def split: sum.split prod.split option.split)
qed

lemma ws_store_known:
  "seen_msg_ids (a_db s) \<subseteq> seen_msg_ids (a_db (snd (snd (ws_store L env k u t ts s))))"
proof -
  obtain h d1 where l: "get_last_hash (a_db s) = (h, d1)" by fastforce
  have d1: "seen_msg_ids d1 = seen_msg_ids (a_db s)" by (rule get_last_hash_known[OF l])
  show ?thesis
    using save_message_known(1)[of d1] d1
    by (simp add: ws_store_def l Let_def split_beta split: sum.split)
qed

text \<open>Nothing but a reset forgets an id.\<close>

lemma serve_known:
  assumes "r \<noteq> ResetState"
  shows "seen_msg_ids (a_db s) \<subseteq> seen_msg_ids (a_db (serve L cfg r s))"
proof (cases r)
  case (PostMessage env rq)
  then show ?thesis
    using post_body_known[of "s\<lparr>active_requests := active_requests s + 1\<rparr>" L env rq] by (simp add: post_message_db)
next
  case (PostBatch env rq)
  then show ?thesis
    using batch_known[of "a_db s" cfg "env_now env"]
    by (simp add: post_messages_batch_def split_beta split: pyval.split list.split sum.split)
next
  case (SocketFrame env ws ev u)
  have chat: "seen_msg_ids (a_db s) \<subseteq> seen_msg_ids (a_db (snd (snd (snd (ws_message L env ws d (u, s))))))" for d
    using ws_store_known[of s L env] by (auto simp: ws_message_def Let_def split_beta split: option.split)
  show ?thesis
  proof (cases "chat_frame ev")
    case True
    then obtain d where "ev = WsDecoded (PDict d)" "dget d ''type'' = PStr ''message''"
      by (cases ev rule: chat_frame.cases) auto
    with chat[of d] SocketFrame show ?thesis by (simp add: ws_step_def)
  next
    case False
    from quiet_frame[OF this, of L env ws u s] SocketFrame show ?thesis by auto
  qed
qed (use assms in \<open>simp_all add: get_feed_def get_messages_state\<close>)

lemma serve_all_known:
  "ResetState \<notin> set rs \<Longrightarrow> message_exists i (a_db s) \<Longrightarrow> message_exists i (a_db (serve_all L cfg rs s))"
proof (induction rs arbitrary: s)
  case (Cons r rs)
  then have "message_exists i (a_db (serve L cfg r s))"
    using serve_known[of r s L cfg] by (auto simp: message_exists_def)
  with Cons show ?case by simp
qed simp

end
