(* ===== verification/AppProps.thy ===== *)
theory AppProps
  imports Serve
begin

text \<open>
  The properties of one backend that serves its requests one after the other: what POST /message
  answers and does on every branch, that a retry changes nothing, that the counter of active
  requests is restored whatever is raised, that the key cache is stable and bounded, that after any
  requests of the hash chain (theory Serve) the history on disk verifies, and that a restart or a
  reset starts from a good state.
\<close>

section \<open>The process as a transition system\<close>

text \<open>A process starts on a database file whose history is intact (in particular an empty one).\<close>

definition rest_init :: "app_libs \<Rightarrow> app_state \<Rightarrow> bool" where
  "rest_init L s \<longleftrightarrow>
     (\<exists>d. s = app_start d \<and> db_wf d \<and> db_txn d = None \<and> write_queue d = [] \<and>
        history_ok L (chain_tip (committed d)) (committed d))"

inductive rest_step :: "app_libs \<Rightarrow> db_config \<Rightarrow> app_state \<Rightarrow> app_state \<Rightarrow> bool"
  for L :: app_libs and cfg :: db_config where
  rest_serve: "in_chain L r s \<Longrightarrow> rest_step L cfg s (serve L cfg r s)"

lemma history_ok_Nil: "history_ok L tip [] \<longleftrightarrow> tip = GENESIS_HASH"
  by (auto simp: history_ok_def chain_tip_def)

lemma reset_core:
  assumes "dict_ok (img_users (db_view (get_conn (a_db s))))"
  shows "rest_core L (snd (reset_state s))"
  unfolding rest_core_def reset_state_fields
  using reset_db_ok[OF assms] by (simp add: history_ok_Nil keys_valid_def)

lemma post_message_inv:
  assumes "libs_ok L" "clock_ok env" "room (a_db s)" "rest_inv L s"
  shows "rest_inv L (snd (snd (post_message L env rq s)))"
proof -
  let ?s0 = "s\<lparr>active_requests := active_requests s + 1\<rparr>"
  have "rest_core L ?s0" "length (keypair_cache ?s0) \<le> Suc keypair_cache_limit"
    using assms(4) by (simp_all add: rest_inv_def rest_core_fields)
  then have "rest_core L (snd (snd (post_body L env rq ?s0)))"
    "length (keypair_cache (snd (snd (post_body L env rq ?s0)))) \<le> Suc keypair_cache_limit"
    using post_body_verdict[OF assms(1,2), of ?s0 rq] post_body_fields(3)[of ?s0 L env rq] assms(3) by simp_all
  then show ?thesis
    using assms(4) by (simp add: post_message_state Let_def rest_inv_def rest_core_fields track_response_time_bound)
qed

lemma row_clean_int: "row_clean r \<Longrightarrow> int_time (m_timestamp r)"
  by (cases "m_timestamp r") (simp_all add: row_clean_def)

lemma start_inv:
  assumes "db_wf d" "db_txn d = None" "write_queue d = []" "history_ok L (chain_tip (committed d)) (committed d)"
  shows "rest_inv L (app_start d)" "last_hash_val (app_start d) = chain_tip (committed d)"
    "memory_feed (a_db (app_start d)) = map feed_of_row (committed d)"
    "history (a_db (app_start d)) = committed d"
proof -
  note i = init_db_ok[OF assms(1-3)]
  have st: "app_start d = \<lparr>a_db = get_conn (init_db d), active_requests = 0, response_times = [],
      cpu_sampler = cpu_start, keypair_cache = [], last_hash_val = chain_tip (committed d),
      ws_clients = [], ws_client_keys = []\<rparr>"
    using last_hash_tip[OF i(5)] i(6) by (simp add: app_start_def)
  have h: "history (get_conn (init_db d)) = committed d"
    using get_conn_db_ok(3)[OF i(8)] i(6,7) by (simp add: history_def)
  have "\<forall>r \<in> set (committed d). int_time (m_timestamp r)"
    using assms(4) row_clean_int by (auto simp: history_ok_def list_all_iff row_genuine_def)
  then have "times_ok (init_db d)" using i(1,7) by (auto simp: times_ok_def feed_of_row_def)
  then have "db_ok (get_conn (init_db d))" using get_conn_db_ok(2)[OF i(8)] i by (simp add: db_ok_def)
  with h assms(4) show "rest_inv L (app_start d)"
    by (simp add: st rest_inv_def rest_core_def keys_valid_def)
  from h st i show "last_hash_val (app_start d) = chain_tip (committed d)"
    "memory_feed (a_db (app_start d)) = map feed_of_row (committed d)"
    "history (a_db (app_start d)) = committed d" by simp_all
qed

text \<open>Each request of the chain keeps the invariant.\<close>

lemma serve_inv:
  assumes "rest_inv L s" "in_chain L r s"
  shows "rest_inv L (serve L cfg r s)"
proof (cases r)
  case (PostMessage env rq)
  then show ?thesis using assms post_message_inv[of L env s rq] by simp
next
  case (GetFeed env)
  with assms show ?thesis
    by (auto simp: get_feed_def rest_inv_def rest_core_fields track_response_time_bound)
next
  case (GetMessages arg)
  with assms show ?thesis
    by (simp add: get_messages_state rest_inv_def rest_core_def db_ok_def[of "a_db s"] get_conn_db_ok)
next
  case (SocketFrame env ws ev u)
  then have "\<not> chat_frame ev" using assms(2) by simp
  from quiet_frame[OF this, of L env ws u s] obtain cl ks db where
    t: "serve L cfg r s = s\<lparr>ws_clients := cl, ws_client_keys := ks, a_db := db\<rparr>"
    and db: "db = a_db s \<or> (\<exists>n k. db = upsert_user_pubkey n k (a_db s))"
    by (metis SocketFrame serve.simps(5))
  have "db_ok db" "history db = history (a_db s)"
    using db assms(1) upsert_db_ok[of "a_db s"] by (auto simp: rest_inv_def rest_core_def)
  with assms(1) show ?thesis by (simp add: t rest_inv_def rest_core_def)
next
  case (SocketGone ws)
  with assms show ?thesis by (simp add: rest_inv_def rest_core_def)
next
  case ResetState
  have "dict_ok (img_users (db_view (get_conn (a_db s))))"
    using assms(1) by (simp add: rest_inv_def rest_core_def db_ok_def db_wf_def)
  from reset_core[OF this] have "rest_core L (serve L cfg r s)" by (simp add: ResetState)
  with assms(1) show ?thesis by (simp add: ResetState reset_state_fields rest_inv_def)
next
  case WriterTurn
  with assms show ?thesis by (simp add: rest_inv_def rest_core_def writer_step_history keys_valid_def)
next
  case (SamplerTurn line)
  with assms show ?thesis by (simp add: rest_inv_def rest_core_fields)
qed (use assms in simp)

interpretation rest: invariant_system "rest_init L" "rest_step L cfg" "rest_inv L" for L cfg
proof unfold_locales
  show "rest_inv L s" if "rest_init L s" for s
    using that start_inv(1) by (auto simp: rest_init_def)
  show "rest_inv L t" if "rest_inv L s" "rest_step L cfg s t" for s t
    using that serve_inv by (auto elim: rest_step.cases)
qed

lemma writer_run_history:
  "db_ok d \<Longrightarrow> history (writer_run cfg n d) = history d \<and> db_ok (writer_run cfg n d)"
  by (induction n arbitrary: d) (simp_all add: writer_step_history)

lemma committed_history:
  assumes "db_ok d" "length (write_queue d) \<le> n * batch_limit"
  shows "committed (writer_run cfg n d) = history d"
proof -
  let ?w = "writer_run cfg n d"
  have q: "write_queue ?w = []" using assms(2) by (simp add: writer_run_queue)
  have w: "history ?w = history d" "db_txn ?w = None"
    using writer_run_history[OF assms(1), of cfg n] by (simp_all add: db_ok_def)
  then have "committed ?w = stored ?w" by (simp add: committed_def stored_def db_view_def get_conn_def)
  with q w(1) show ?thesis by (simp add: history_def)
qed

section \<open>Inputs of the witnesses\<close>

definition toy_libs :: app_libs where
  "toy_libs = \<lparr>lib_ecdsa = toy_ecdsa, lib_fernet = toy_fernet, lib_key = [1]\<rparr>"

definition toy_env :: app_env where
  "toy_env = \<lparr>env_now = 1700000000000, env_uuid = ''u-1'', env_drawn = 3, env_sign_seed = 4,
     env_fernet_seed = 5, env_elapsed = 2, env_send_ok = (\<lambda>_. True)\<rparr>"

definition form_request :: "string \<Rightarrow> string \<Rightarrow> string \<Rightarrow> web_request" where
  "form_request u m i = \<lparr>rq_is_json = False, rq_json_force = Inl (Exn LibraryError []),
     rq_form = [(''client-name'', u), (''msg'', m), (''msg_id'', i)], rq_json_silent = PNone\<rparr>"

definition first_post :: "web_response \<times> frame list \<times> app_state" where
  "first_post = post_message toy_libs toy_env (form_request ''bob'' ''hi'' ''a1'') (app_start empty_db)"

lemma toy_ok: "libs_ok toy_libs" "clock_ok toy_env"
  by (simp_all add: libs_ok_def toy_libs_def toy_ecdsa_ok toy_fernet_ok clock_ok_def toy_env_def)

lemma empty_committed [simp]: "committed empty_db = []" "db_txn empty_db = None" "write_queue empty_db = []"
  by (simp_all add: empty_db_def committed_def)

lemma start_empty:
  "rest_init L (app_start empty_db)" "rest_inv L (app_start empty_db)" "room (a_db (app_start empty_db))"
proof -
  have h: "history_ok L (chain_tip (committed empty_db)) (committed empty_db)"
    by (simp add: history_ok_Nil chain_tip_def)
  show "rest_init L (app_start empty_db)"
    unfolding rest_init_def using h by (intro exI[of _ empty_db]) simp
  show "rest_inv L (app_start empty_db)" using h by (intro start_inv) simp_all
  have "history (a_db (app_start empty_db)) = []" using start_inv(4)[OF _ _ _ h] by simp
  then show "room (a_db (app_start empty_db))" by (simp add: history_def room_def write_queue_maxsize_def)
qed

lemma start_empty_feed [simp]: "memory_feed (a_db (app_start empty_db)) = []"
  using start_inv(3)[of empty_db undefined] by (simp add: history_ok_Nil chain_tip_def)

lemma form_fields:
  "post_fields (form_request ''bob'' ''hi'' ''a1'') = Inr (''bob'', ''hi'', ''a1'')"
  "post_fields (form_request ''eve'' ''yo'' ''a1'') = Inr (''eve'', ''yo'', ''a1'')"
  "post_fields (form_request [] ''hi'' ''a1'') = Inr ([], ''hi'', ''a1'')"
  by code_simp+

lemma first_verdict:
  "verdict_of toy_env (form_request ''bob'' ''hi'' ''a1'') (a_db (app_start empty_db)) = Fresh ''a1'' ''bob'' ''hi''"
  by (simp add: verdict_of_def form_fields)

lemma start_active [simp]: "active_requests (app_start d) = 0" "response_times (app_start d) = []"
  by (simp_all add: app_start_def split_beta)

lemma first_post_facts:
  "rest_inv toy_libs (snd (snd first_post))"
  "memory_feed (a_db (snd (snd first_post))) = [\<lparr>f_id = ''a1'', f_username = ''bob'', f_plaintext = ''hi'',
     f_timestamp = PInt (env_now toy_env)\<rparr>]"
  "length (write_queue (a_db (snd (snd first_post)))) \<le> 1"
  "reach (rest_init toy_libs) (rest_step toy_libs toy_cfg) (snd (snd first_post))"
  "fst first_post = ok_answer ''ok'' ''a1'' ''bob'' ''hi'' [(''timestamp'', PInt (env_now toy_env))]"
proof -
  let ?s = "snd (snd first_post)"
  show "fst first_post = ok_answer ''ok'' ''a1'' ''bob'' ''hi'' [(''timestamp'', PInt (env_now toy_env))]"
    using post_body_verdict[OF toy_ok, of "(app_start empty_db)\<lparr>active_requests := 1\<rparr>"
        "form_request ''bob'' ''hi'' ''a1''"] start_empty first_verdict
    by (simp add: first_post_def post_message_def split_beta rest_inv_def rest_core_fields)
  show inv: "rest_inv toy_libs ?s"
    using post_message_inv[OF toy_ok start_empty(3,2)] by (simp add: first_post_def)
  show f: "memory_feed (a_db ?s) = [\<lparr>f_id = ''a1'', f_username = ''bob'', f_plaintext = ''hi'',
     f_timestamp = PInt (env_now toy_env)\<rparr>]"
    using post_body_verdict[OF toy_ok, of "(app_start empty_db)\<lparr>active_requests := 1\<rparr>"
        "form_request ''bob'' ''hi'' ''a1''"] start_empty first_verdict
    by (simp add: first_post_def post_message_state Let_def rest_inv_def rest_core_fields)
  have "db_ok (a_db ?s)" using inv by (simp add: rest_inv_def rest_core_def)
  from db_ok_exact(1)[OF this] have "length (map feed_of_row (history (a_db ?s))) = 1" unfolding f by simp
  then show "length (write_queue (a_db ?s)) \<le> 1" by (simp add: history_def)
  have "rest_step toy_libs toy_cfg (app_start empty_db)
      (serve toy_libs toy_cfg (PostMessage toy_env (form_request ''bob'' ''hi'' ''a1'')) (app_start empty_db))"
    by (rule rest_serve) (simp add: toy_ok start_empty)
  then have "rest_step toy_libs toy_cfg (app_start empty_db) ?s" by (simp add: first_post_def)
  then show "reach (rest_init toy_libs) (rest_step toy_libs toy_cfg) ?s"
    using reach_step[OF reach_init] start_empty(1) by metis
qed

section \<open>Properties\<close>

text \<open>
  C1: A backend starts on an empty database file, or on one whose history is intact and genuine, and
  serves requests one at a time, in any order and number: POST /message (with the clock in 64 bits,
  room in the write queue, and libraries that keep their documented promises), GET /feed, GET
  /messages, POST /reset-state, joins and every other socket frame but chat messages, turns of the
  writer and the sampler. Then, once the writer has caught up, the committed table holds exactly the
  feed, in order and without a repeated id, every verdict of \<open>verify_chain\<close> on it is true, every row
  names the hash before it, every signature verifies, every ciphertext decrypts to its plaintext, and
  the next message will be linked to its last hash. POST /messages/batch, chat messages over a socket
  and overlapping posts are left out because they break the chain (see the theorems on them).
\<close>
theorem served_history_verifies:
  assumes "reach (rest_init L) (rest_step L cfg) s" "length (write_queue (a_db s)) \<le> n * batch_limit"
    and "rows = committed (writer_run cfg n (a_db s))"
  shows "list_all (\<lambda>b. b) (verify_chain rows) \<and> links_back rows \<and> list_all (row_genuine L) rows \<and>
    map feed_of_row rows = memory_feed (a_db s) \<and> distinct (map m_msg_id rows) \<and>
    last_hash_val s = chain_tip rows"
proof -
  have "rest_inv L s" using rest.reach_inv assms(1) .
  then have d: "db_ok (a_db s)" and h: "history_ok L (last_hash_val s) (history (a_db s))"
    by (simp_all add: rest_inv_def rest_core_def)
  have rows: "rows = history (a_db s)" using committed_history[OF d assms(2)] assms(3) by simp
  have "map feed_of_row rows = memory_feed (a_db s)" using db_ok_exact(1)[OF d] by (simp add: rows)
  moreover have "distinct (map m_msg_id rows)"
    using d durable_ids[of "a_db s"] by (simp add: rows history_def db_ok_def)
  ultimately show ?thesis using h rows by (auto simp: history_ok_def chain_intact_def)
qed

theorem served_history_verifies_witness:
  "list_all (\<lambda>b. b) (verify_chain (committed (writer_run toy_cfg 1 (a_db (snd (snd first_post)))))) \<and>
   map feed_of_row (committed (writer_run toy_cfg 1 (a_db (snd (snd first_post))))) =
     memory_feed (a_db (snd (snd first_post)))"
proof -
  let ?s = "snd (snd first_post)"
  have "length (write_queue (a_db ?s)) \<le> 1 * batch_limit"
    using first_post_facts(3) by (simp add: batch_limit_def)
  from served_history_verifies[OF first_post_facts(4) this refl] show ?thesis by blast
qed

text \<open>
  C3: POST /message, on every branch: a body that cannot be read is answered 500 with the text of the
  exception, a missing name or text 400, a known id 200 with status duplicate, and none of these
  touches the database; every other request is answered 200 and appends exactly its message to the
  feed under the given or the generated id. No branch raises while the libraries keep their promises.
\<close>
theorem post_message_outcome:
  assumes "libs_ok L" "clock_ok env" "room (a_db s)" "rest_inv L s"
    and "post_message L env rq s = (resp, sent, s')"
  shows "case verdict_of env rq (a_db s) of
      Refused w \<Rightarrow> resp = w \<and> sent = [] \<and> a_db s' = a_db s
    | Known i u m \<Rightarrow> resp = ok_answer ''duplicate'' i u m [] \<and> sent = [] \<and> a_db s' = a_db s
    | Fresh i u m \<Rightarrow>
        resp = ok_answer ''ok'' i u m [(''timestamp'', PInt (env_now env))] \<and>
        memory_feed (a_db s') = memory_feed (a_db s) @
          [\<lparr>f_id = i, f_username = u, f_plaintext = m, f_timestamp = PInt (env_now env)\<rparr>] \<and>
        message_exists i (a_db s')"
proof -
  let ?s0 = "s\<lparr>active_requests := active_requests s + 1\<rparr>"
  have "rest_core L ?s0" using assms(4) by (simp add: rest_inv_def rest_core_fields)
  note v = post_body_verdict[OF assms(1,2), of ?s0 rq, simplified, OF assms(3) this]
  from v have "feed_ok (a_db (snd (snd (post_body L env rq ?s0))))" by (simp add: rest_core_def db_ok_def)
  then show ?thesis
    using v assms(5)
    by (auto simp: post_message_def split_beta message_exists_feed split: post_verdict.splits sum.splits)
qed

theorem post_message_outcome_witness:
  "fst first_post = ok_answer ''ok'' ''a1'' ''bob'' ''hi'' [(''timestamp'', PInt 1700000000000)] \<and>
   message_exists ''a1'' (a_db (snd (snd first_post)))"
  using post_message_outcome[OF toy_ok start_empty(3,2), of "form_request ''bob'' ''hi'' ''a1''"
      "fst first_post" "fst (snd first_post)" "snd (snd first_post)"] first_verdict
  by (simp add: first_post_def toy_env_def)

lemma jsonify_eq [simp]: "jsonify a x = jsonify b y \<longleftrightarrow> a = b \<and> x = y"
  by (auto simp: jsonify_def)





text \<open>
  C18: The \<open>finally\<close> clause: whatever the request holds and whatever the libraries, the database or
  the sockets do, the number of active requests is the same after POST /message as before, the
  elapsed time is recorded, and the windows stay bounded.
\<close>
theorem post_message_cleanup:
  "active_requests (snd (snd (post_message L env rq s))) = active_requests s \<and>
   response_times (snd (snd (post_message L env rq s))) =
     track_response_time (env_elapsed env) (response_times s) \<and>
   (length (response_times s) > response_window \<or>
     length (response_times (snd (snd (post_message L env rq s)))) \<le> response_window) \<and>
   (length (keypair_cache s) > Suc keypair_cache_limit \<or>
     length (keypair_cache (snd (snd (post_message L env rq s)))) \<le> Suc keypair_cache_limit)"
  using post_body_fields(3)[of "s\<lparr>active_requests := active_requests s + 1\<rparr>" L env rq]
    track_response_time_bound[of "response_times s" "env_elapsed env"]
  by (simp add: post_message_state Let_def linorder_not_less[symmetric]) linarith

text \<open>
  C22: A user keeps one key pair: once a pair was returned, asking again returns the same pair whatever
  key the library would draw and changes nothing; nobody else's pair is touched unless the cache was
  over its limit, and the cache never holds more than 1001 pairs.
\<close>
theorem keypair_cache_stable:
  assumes "get_or_create_keypair E drawn u s = (Inr kp, s1)"
  shows "get_or_create_keypair E drawn' u s1 = (Inr kp, s1) \<and>
    (length (keypair_cache s) \<le> keypair_cache_limit \<and> v \<noteq> u \<longrightarrow>
       map_of (keypair_cache s1) v = map_of (keypair_cache s) v) \<and>
    (length (keypair_cache s) \<le> Suc keypair_cache_limit \<longrightarrow>
       length (keypair_cache s1) \<le> Suc keypair_cache_limit)"
proof -
  have "map_of (keypair_cache s1) u = Some kp"
    using assms by (auto simp: get_or_create_keypair_def Let_def split: option.splits prod.splits sum.splits)
  moreover have "map_of (keypair_cache s1) v = map_of (keypair_cache s) v"
    if "length (keypair_cache s) \<le> keypair_cache_limit" "v \<noteq> u"
    using assms that by (auto simp: get_or_create_keypair_def Let_def split: option.splits prod.splits sum.splits)
  moreover have "length (keypair_cache s1) \<le> Suc keypair_cache_limit"
    if "length (keypair_cache s) \<le> Suc keypair_cache_limit"
    using assms keypair_fields[of E drawn u s] that by auto
  ultimately show ?thesis by (simp add: get_or_create_keypair_def)
qed

theorem keypair_cache_stable_witness:
  "fst (get_or_create_keypair toy_ecdsa 9 ''bob''
     (snd (get_or_create_keypair toy_ecdsa 2 ''bob'' (app_start empty_db)))) = Inr (2, ''PP'')"
proof -
  have "keypair_cache (app_start empty_db) = []" by (simp add: app_start_def split_beta)
  moreover have "public_key_to_pem toy_ecdsa 2 = Inr ''PP''" "ec_public toy_ecdsa 2 = 2" by code_simp+
  ultimately have "get_or_create_keypair toy_ecdsa 2 ''bob'' (app_start empty_db) =
      (Inr (2, ''PP''), (app_start empty_db)\<lparr>keypair_cache := [(''bob'', (2, ''PP''))]\<rparr>)"
    by (simp add: get_or_create_keypair_def generate_keypair_def dict_set_absent)
  from keypair_cache_stable[OF this, of 9] this show ?thesis by simp
qed

text \<open>
  C21: A reset repairs: from any state of the process, a broken chain included, POST /reset-state
  leaves an empty feed, which GET /feed then serves as an empty list, no known id, an empty key
  cache and a chain that starts at the genesis hash, and the invariant of the process holds.
\<close>
theorem reset_state_fresh:
  assumes "dict_ok (img_users (db_view (get_conn (a_db s))))" "reset_state s = (resp, s')"
  shows "rest_core L s' \<and> rsp_status resp = 200 \<and> \<not> message_exists i (a_db s') \<and>
    rsp_body (fst (get_feed env s')) = TextBody ''[]'' \<and> keypair_cache s' = [] \<and>
    last_hash_val s' = GENESIS_HASH \<and> fst (get_last_hash (a_db s')) = GENESIS_HASH"
proof -
  have s': "s' = s\<lparr>a_db := reset_db (a_db s), last_hash_val := GENESIS_HASH, keypair_cache := []\<rparr>"
    using assms(2) reset_state_fields[of s] by simp
  have core: "rest_core L s'" using reset_core[OF assms(1), of L] assms(2) by simp
  note r = reset_db_ok[OF assms(1)]
  have "stored (a_db s') = []" using r(2) by (simp add: s' history_def)
  then have "fst (get_last_hash (a_db s')) = GENESIS_HASH"
    using last_hash_tip[of "a_db s'"] core by (simp add: rest_core_def db_ok_def chain_tip_def)
  with core assms(2) r show ?thesis
    by (simp add: s' get_feed_def get_feed_json_def message_exists_def reset_state_def Let_def jsonify_def) auto
qed

theorem reset_state_fresh_witness:
  "rest_core toy_libs (snd (reset_state (app_start empty_db))) \<and>
   rsp_body (fst (get_feed toy_env (snd (reset_state (app_start empty_db))))) = TextBody ''[]''"
proof -
  have "rest_core toy_libs (app_start empty_db)" using start_empty(2) by (simp add: rest_inv_def)
  then have "dict_ok (img_users (db_view (get_conn (a_db (app_start empty_db)))))"
    by (simp add: rest_core_def db_ok_def db_wf_def)
  from reset_state_fresh[OF this, of "fst (reset_state (app_start empty_db))"
      "snd (reset_state (app_start empty_db))" toy_libs "[]" toy_env] show ?thesis by simp
qed

text \<open>
  C8: Let a backend have started and served requests as in the property on the served history (one at a
  time, no batches, no chat messages over a socket), and let its writer catch up. A new
  process on its database file is again a legal start, with the same feed and the same hash to link
  the next message to.
\<close>
theorem restart_continues_chain:
  assumes "reach (rest_init L) (rest_step L cfg) s" "length (write_queue (a_db s)) \<le> n * batch_limit"
    and "w = writer_run cfg n (a_db s)"
    and "d = empty_db\<lparr>db_disk := db_disk w, sql_lit := sql_lit w\<rparr>"
  shows "rest_init L (app_start d) \<and> memory_feed (a_db (app_start d)) = memory_feed (a_db s) \<and>
    last_hash_val (app_start d) = last_hash_val s"
proof -
  have inv: "rest_inv L s" using rest.reach_inv assms(1) .
  then have ok: "db_ok (a_db s)" by (simp add: rest_inv_def rest_core_def)
  have "db_wf w" using writer_run_history[OF ok, of cfg n] by (simp add: db_ok_def assms(3))
  then have d: "db_wf d" "db_txn d = None" "write_queue d = []" "committed d = committed w"
    by (simp_all add: assms(4) db_wf_def empty_db_def db_view_def get_conn_def committed_def)
  have c: "committed d = history (a_db s)" using committed_history[OF ok assms(2)] d(4) assms(3) by simp
  have h: "history_ok L (chain_tip (committed d)) (committed d)" "chain_tip (committed d) = last_hash_val s"
    using inv by (simp_all add: c rest_inv_def rest_core_def history_ok_def)
  have "map feed_of_row (committed d) = memory_feed (a_db s)"
    using db_ok_exact(1)[OF ok] by (simp add: c)
  with start_inv(2,3)[OF d(1-3) h(1)] h d show ?thesis by (auto simp: rest_init_def)
qed

theorem restart_continues_chain_witness:
  "\<exists>d. memory_feed (a_db (app_start d)) = [\<lparr>f_id = ''a1'', f_username = ''bob'', f_plaintext = ''hi'',
       f_timestamp = PInt 1700000000000\<rparr>] \<and>
     last_hash_val (app_start d) = last_hash_val (snd (snd first_post)) \<and> memory_feed d = []"
proof -
  let ?s = "snd (snd first_post)"
  let ?d = "empty_db\<lparr>db_disk := db_disk (writer_run toy_cfg 1 (a_db ?s)), sql_lit := sql_lit (writer_run toy_cfg 1 (a_db ?s))\<rparr>"
  have "length (write_queue (a_db ?s)) \<le> 1 * batch_limit"
    using first_post_facts(3) by (simp add: batch_limit_def)
  from restart_continues_chain[OF first_post_facts(4) this refl refl] show ?thesis
    by (intro exI[of _ ?d]) (simp add: first_post_facts(2) toy_env_def, simp add: empty_db_def)
qed

end
