(* ===== verification/WsProps.thy ===== *)
theory WsProps
  imports WebSocket AppProps
begin

text \<open>
  The properties of the WebSocket route: which names a join can give, that the registry of sockets
  stays consistent and forgets a socket that ended, who receives a broadcast, and that a message
  sent over a socket leaves the hash chain of the REST route.
\<close>

section \<open>The registry of sockets\<close>

definition sockets_ok :: "app_state \<Rightarrow> bool" where
  "sockets_ok s \<longleftrightarrow> dict_ok (ws_clients s) \<and> dict_ok (ws_client_keys s) \<and>
     dom (map_of (ws_clients s)) = dom (map_of (ws_client_keys s))"

lemma dict_ok_fold_pop: "dict_ok d \<Longrightarrow> dict_ok (fold dict_pop ks d)"
  by (induction ks arbitrary: d) simp_all

lemma map_of_fold_pop: "map_of (fold dict_pop ks d) k = (if k \<in> set ks then None else map_of d k)"
  by (induction ks arbitrary: d) simp_all

lemma broadcast_clients:
  "map_of (ws_clients (snd (broadcast_ws ok p s))) w = (if ok w then map_of (ws_clients s) w else None)"
proof -
  have "map_of (ws_clients s) w = None" if "w \<notin> fst ` set (ws_clients s)"
    using that by (simp add: map_of_eq_None_iff)
  then show ?thesis by (auto simp: broadcast_ws_def Let_def map_of_fold_pop)
qed

lemma broadcast_keys:
  "sockets_ok s \<Longrightarrow> map_of (ws_client_keys (snd (broadcast_ws ok p s))) w =
     (if ok w then map_of (ws_client_keys s) w else None)"
proof -
  assume "sockets_ok s"
  then have "map_of (ws_client_keys s) w = None" if "w \<notin> fst ` set (ws_clients s)"
    using that by (metis domIff map_of_eq_None_iff sockets_ok_def)
  then show ?thesis by (auto simp: broadcast_ws_def Let_def map_of_fold_pop)
qed

lemma broadcast_sockets_ok:
  assumes "sockets_ok s"
  shows "sockets_ok (snd (broadcast_ws ok p s))"
proof -
  let ?s = "snd (broadcast_ws ok p s)"
  have "dict_ok (ws_clients ?s)" "dict_ok (ws_client_keys ?s)"
    using assms by (simp_all add: broadcast_ws_def Let_def dict_ok_fold_pop sockets_ok_def)
  moreover have "dom (map_of (ws_clients ?s)) = dom (map_of (ws_client_keys ?s))"
    using assms unfolding dom_def broadcast_clients broadcast_keys[OF assms]
    by (auto simp: sockets_ok_def dom_def set_eq_iff)
  ultimately show ?thesis by (simp add: sockets_ok_def)
qed

lemma sockets_ok_db [simp]: "sockets_ok (s\<lparr>a_db := d\<rparr>) = sockets_ok s"
  by (simp add: sockets_ok_def)

lemma ws_join_sockets:
  "sockets_ok s \<Longrightarrow> sockets_ok (snd (snd (snd (ws_join L env ws d (u, s)))))"
  by (auto simp: ws_join_def Let_def sockets_ok_def split: sum.split prod.split)

lemma ws_store_sockets:
  "sockets_ok s \<Longrightarrow> sockets_ok (snd (snd (ws_store L env k u t ts s)))"
  by (auto simp: ws_store_def Let_def split_beta intro!: broadcast_sockets_ok split: sum.split)

lemma ws_message_sockets:
  "sockets_ok s \<Longrightarrow> sockets_ok (snd (snd (snd (ws_message L env ws d (u, s)))))"
  using ws_store_sockets by (auto simp: ws_message_def Let_def split_beta split: option.split)

lemma ws_step_sockets:
  assumes "sockets_ok s"
  shows "sockets_ok (snd (snd (snd (ws_step L env ws ev (u, s)))))"
proof (cases ev)
  case (WsDecoded v)
  then show ?thesis
    using assms ws_join_sockets ws_message_sockets by (cases v) (auto simp: ws_step_def split: sum.split)
qed (use assms in \<open>simp_all add: ws_step_def\<close>)

lemma ws_loop_sockets:
  "sockets_ok (snd us) \<Longrightarrow> sockets_ok (snd (snd (snd (ws_loop L ws evs us))))"
proof (induction L ws evs us rule: ws_loop.induct)
  case (2 L ws env ev evs us)
  have "sockets_ok (snd (snd (snd (ws_step L env ws ev us))))"
    using ws_step_sockets[of "snd us" L env ws ev "fst us"] 2(2) by simp
  with 2(1) show ?case
    by (auto split: prod.splits ws_outcome.splits)
qed simp

lemma ws_leave_sockets: "sockets_ok s \<Longrightarrow> sockets_ok (ws_leave ws s)"
  by (auto simp: sockets_ok_def ws_leave_def)

section \<open>Properties\<close>

text \<open>
  C20: The registry of sockets: whatever frames a connection sends and however it ends, the two
  dictionaries keep the same sockets, and once the handler has returned, by a close, a failed send
  or any exception, the socket is in neither.
\<close>
theorem ws_handler_registry:
  assumes "sockets_ok s" "ws_handler L ws evs s = (out, sent, s')"
  shows "sockets_ok s' \<and>
    (out \<noteq> WsNext \<longrightarrow> map_of (ws_clients s') ws = None \<and> map_of (ws_client_keys s') ws = None)"
proof -
  obtain out1 sent1 u1 s1 where l: "ws_loop L ws evs (None, s) = (out1, sent1, u1, s1)"
    by (metis prod_cases4)
  have "sockets_ok s1" using ws_loop_sockets[of "(None, s)" L ws evs] assms(1) l by simp
  then show ?thesis
    using assms(2) l by (auto simp: ws_handler_def ws_leave_sockets) (auto simp: ws_leave_def)
qed

theorem ws_handler_registry_witness:
  "sockets_ok (snd (snd (ws_handler toy_libs 7 [(toy_env, WsDecoded (PInt 3))] (app_start empty_db)))) \<and>
   map_of (ws_clients (snd (snd (ws_handler toy_libs 7 [(toy_env, WsDecoded (PInt 3))] (app_start empty_db))))) 7 = None"
proof -
  let ?h = "ws_handler toy_libs 7 [(toy_env, WsDecoded (PInt 3))] (app_start empty_db)"
  have "sockets_ok (app_start empty_db)" by (simp add: sockets_ok_def app_start_def split_beta)
  moreover have "fst ?h \<noteq> WsNext" by (simp add: ws_handler_def ws_step_def)
  ultimately show ?thesis
    using ws_handler_registry[of "app_start empty_db" toy_libs 7 _ "fst ?h" "fst (snd ?h)" "snd (snd ?h)"] by simp
qed

text \<open>
  C27: A broadcast reaches every registered socket that accepts it exactly once, with the same text,
  and forgets exactly the sockets that refuse it; the others keep their name and key.
\<close>
theorem broadcast_delivers:
  assumes "sockets_ok s" "broadcast_ws ok payload s = (sent, s')"
  shows "distinct (map fst sent) \<and>
    set sent = {(w, json_dumps payload) | w. w \<in> dom (map_of (ws_clients s)) \<and> ok w} \<and>
    map_of (ws_clients s') w = (if ok w then map_of (ws_clients s) w else None) \<and>
    map_of (ws_client_keys s') w = (if ok w then map_of (ws_client_keys s) w else None)"
proof -
  have s': "s' = snd (broadcast_ws ok payload s)" using assms(2) by simp
  have sent: "sent = map (\<lambda>w. (w, json_dumps payload)) (filter ok (map fst (ws_clients s)))"
    using assms(2) by (auto simp: broadcast_ws_def Let_def)
  have "distinct (map fst (ws_clients s))" using assms(1) by (simp add: sockets_ok_def dict_ok_def)
  then have "distinct (map fst sent)" by (simp add: sent o_def del: filter_map)
  moreover have "set sent = {(w, json_dumps payload) | w. w \<in> dom (map_of (ws_clients s)) \<and> ok w}"
    by (auto simp: sent dom_map_of_conv_image_fst)
  ultimately show ?thesis using broadcast_clients broadcast_keys[OF assms(1)] by (simp add: s')
qed

definition two_sockets :: app_state where
  "two_sockets = (app_start empty_db)\<lparr>ws_clients := [(1, ''bob''), (2, ''eve'')],
     ws_client_keys := [(1, (3, ''P'')), (2, (4, ''Q''))]\<rparr>"

theorem broadcast_delivers_witness:
  "map fst (fst (broadcast_ws (\<lambda>w. w = 1) PNone two_sockets)) = [1] \<and>
   map_of (ws_clients (snd (broadcast_ws (\<lambda>w. w = 1) PNone two_sockets))) 2 = None"
proof -
  have "sockets_ok two_sockets" by (auto simp: sockets_ok_def two_sockets_def dict_ok_def)
  from broadcast_delivers[OF this, of "\<lambda>w. w = 1" PNone "fst (broadcast_ws (\<lambda>w. w = 1) PNone two_sockets)"
      "snd (broadcast_ws (\<lambda>w. w = 1) PNone two_sockets)" 2]
  show ?thesis by (simp add: broadcast_ws_def two_sockets_def Let_def)
qed

text \<open>
  C38: The name a join takes: it is never empty and has at most 24 characters, a missing or empty name
  becomes Anonymous, and joining raises exactly when the name is a non-empty value that is no string.
\<close>
theorem join_name_outcome:
  "(case join_name d of
      Inr n \<Rightarrow> n \<noteq> [] \<and> length n \<le> 24
    | Inl e \<Rightarrow> exn_class e = AttributeError) \<and>
   ((\<exists>e. join_name d = Inl e) \<longleftrightarrow> truthy (dget d ''username'') \<and> (\<forall>n. dget d ''username'' \<noteq> PStr n)) \<and>
   (truthy (dget d ''username'') \<or> join_name d = Inr ''Anonymous'')"
proof -
  have anon: "take 24 (py_strip ''Anonymous'') = ''Anonymous''" by code_simp
  show ?thesis
  proof (cases "truthy (dget d ''username'')")
    case True
    then show ?thesis by (cases "dget d ''username''") (simp_all add: join_name_def Let_def)
  next
    case False
    then show ?thesis using anon by (simp add: join_name_def Let_def)
  qed
qed

lemma room_get_conn [simp]: "room (get_conn d) = room d"
  by (simp add: room_def)

text \<open>
  C17: A message sent over a socket forks the hash chain: it is linked to the newest row on disk, not
  to the head of the chain the REST route keeps, and does not advance that head. So whenever rows
  are still queued (or the head differs from the last row on disk for any other reason) the history
  is no longer linked, and the next REST message is linked past the socket's message.
\<close>
theorem ws_message_forks_chain:
  assumes "libs_ok L" "room (a_db s)" "rest_core L s" "u \<noteq> []"
    and "map_of (ws_client_keys s) ws = Some key" "\<not> message_exists (env_uuid env) (a_db s)"
    and "py_strip (take 2000 (py_str (dget_default d ''text'' (PStr [])))) \<noteq> []"
    and "ws_message L env ws d (Some u, s) = (out, sent, u', s')"
  shows "out = WsNext \<and> last_hash_val s' = last_hash_val s \<and>
    (\<exists>r. history (a_db s') = history (a_db s) @ [r] \<and> m_msg_id r = env_uuid env \<and> m_username r = u \<and>
       m_prev_hash r = chain_tip (stored (a_db s))) \<and>
    (chain_tip (stored (a_db s)) = last_hash_val s \<or> \<not> links_back (history (a_db s'))) \<and>
    fst (fst (get_next_hashes c ct sg t s')) = last_hash_val s"
proof -
  let ?text = "take 2000 (py_str (dget_default d ''text'' (PStr [])))"
  define ts where "ts = py_or (dget d ''timestamp'') (PInt (env_now env))"
  have ok: "db_ok (a_db s)" "db_txn (a_db s) = None"
    using assms(3) by (simp_all add: rest_core_def db_ok_def)
  let ?p = "chain_tip (stored (a_db s))" and ?db1 = "get_conn (a_db s)"
  have last: "get_last_hash (a_db s) = (?p, ?db1)"
    using last_hash_tip[of "a_db s"] ok by (simp add: db_ok_def)
  obtain sig where sig: "sign_message (lib_ecdsa L) (fst key) (env_sign_seed env) (canonical_message u ?text ts) = Inr sig"
    by (simp add: sign_message_text)
  obtain cph where cph: "encrypt_text (lib_fernet L) (lib_key L) (env_fernet_seed env) ?text = Inr cph"
    using encrypt_text_ok[of "lib_fernet L" "lib_key L"] assms(1) unfolding libs_ok_def by blast
  let ?r = "chat_row (env_uuid env) u ?text cph sig (snd key) ts (?p, compute_record_hash ?p u cph sig ts)"
  have r: "m_msg_id ?r = env_uuid env" "m_username ?r = u" "m_prev_hash ?r = ?p"
    by (simp_all add: chat_row_def)
  note conn = get_conn_db_ok[OF ok(2)]
  have "m_msg_id ?r \<notin> seen_msg_ids ?db1" using assms(6) r by (simp add: message_exists_def)
  note sv = save_message_history[OF _ this, unfolded conn room_get_conn, OF assms(2)]
  let ?s1 = "s\<lparr>a_db := snd (save_message ?r ?db1)\<rparr>"
  let ?b = "broadcast_ws (env_send_ok env) (message_payload u ?text ts) ?s1"
  have "ws_store L env key u ?text ts s = (WsNext, fst ?b, snd ?b)"
    using sig cph last sv(1) by (cases "save_message ?r ?db1") (simp add: ws_store_def Let_def split_beta)
  then have "ws_message L env ws d (Some u, s) = (WsNext, fst ?b, Some u, snd ?b)"
    using assms(4,5,7) ts_def by (simp add: ws_message_def Let_def split_beta)
  with assms(8) have s': "out = WsNext" "s' = snd ?b" by simp_all
  have h: "history (a_db s') = history (a_db s) @ [?r]" "last_hash_val s' = last_hash_val s"
    using sv(2) by (simp_all add: s')
  have "chain_tip (history (a_db s)) = last_hash_val s"
    using assms(3) by (simp add: rest_core_def history_ok_def)
  then have "?p = last_hash_val s \<or> \<not> links_back (history (a_db s'))"
    by (auto simp: h(1) links_back_snoc r)
  with h r s'(1) show ?thesis by (auto simp: get_next_hashes_def Let_def)
qed

definition bob_joined :: app_state where
  "bob_joined = (snd (snd first_post))\<lparr>ws_clients := [(7, ''bob'')], ws_client_keys := [(7, (3, ''P''))]\<rparr>"

theorem ws_message_forks_chain_witness:
  "last_hash_val (snd (snd (snd (ws_message toy_libs toy_env 7 [(''text'', PStr ''yo'')] (Some ''bob'', bob_joined))))) =
     last_hash_val (snd (snd first_post)) \<and>
   length (history (a_db (snd (snd (snd (ws_message toy_libs toy_env 7 [(''text'', PStr ''yo'')] (Some ''bob'', bob_joined)))))))
     = Suc (length (history (a_db bob_joined)))"
proof -
  let ?d = "[(''text'', PStr ''yo'')]"
  let ?m = "ws_message toy_libs toy_env 7 ?d (Some ''bob'', bob_joined)"
  have core: "rest_core toy_libs bob_joined" "room (a_db bob_joined)"
    using first_post_facts(1,3) by (simp_all add: bob_joined_def rest_inv_def rest_core_def room_def write_queue_maxsize_def)
  have "feed_ok (a_db bob_joined)" using core(1) by (simp add: rest_core_def db_ok_def)
  then have new: "\<not> message_exists (env_uuid toy_env) (a_db bob_joined)"
    using first_post_facts(2) by (simp add: message_exists_feed) (simp add: bob_joined_def toy_env_def)
  have key: "map_of (ws_client_keys bob_joined) 7 = Some (3, ''P'')" by (simp add: bob_joined_def)
  have body: "py_strip (take 2000 (py_str (dget_default ?d ''text'' (PStr [])))) \<noteq> []" by code_simp
  obtain out sent u1 s1 where m: "?m = (out, sent, u1, s1)" by (metis prod_cases4)
  have "last_hash_val s1 = last_hash_val bob_joined \<and> (\<exists>r. history (a_db s1) = history (a_db bob_joined) @ [r])"
    using ws_message_forks_chain[where c = "[]" and ct = "[]" and sg = "[]" and t = PNone,
        OF toy_ok(1) core(2,1) _ key new body m] by auto
  moreover have "last_hash_val bob_joined = last_hash_val (snd (snd first_post))" by (simp add: bob_joined_def)
  ultimately show ?thesis by (auto simp: m)
qed

end
