(* ===== verification/DbService.thy ===== *)
theory DbService
  imports Writer
begin

text \<open>
  dbservice/main.py: the central message store that the writers of the backends replicate to. Its
  table has a nullable \<open>UNIQUE\<close> id and text columns that hold whatever the JSON item held; a column
  of type TEXT turns a bound number into text. Every request opens a connection of its own, so an
  exception leaves the committed table as it was.
\<close>

section \<open>The code\<close>

text \<open>A row holds the values bound for the eight columns after SQLite's conversion to TEXT; \<open>PNone\<close> is \<open>NULL\<close>.\<close>

record service_row =
  sr_msg_id :: pyval
  sr_username :: pyval
  sr_display_name :: pyval
  sr_ciphertext :: pyval
  sr_signature :: pyval
  sr_hmac_digest :: pyval
  sr_timestamp :: pyval
  sr_plaintext :: pyval

text \<open>The items as Python reads them.\<close>

definition service_item :: "pyval \<Rightarrow> service_row res" where
  "service_item item =
     (case item of
        PDict d \<Rightarrow> Inr \<lparr>
          sr_msg_id = dget d ''msg_id'',
          sr_username = dget d ''username'',
          sr_display_name = dget_default d ''display_name'' (dget d ''username''),
          sr_ciphertext = dget_default d ''ciphertext'' (PStr []),
          sr_signature = dget_default d ''signature'' (PStr []),
          sr_hmac_digest = dget_default d ''hmac_digest'' (dget_default d ''record_hash'' (PStr [])),
          sr_timestamp = PStr (py_str (dget_default d ''timestamp'' (PStr []))),
          sr_plaintext = dget_default d ''plaintext'' (dget_default d ''msg'' (PStr []))\<rparr>
      | v \<Rightarrow> (case py_get v ''msg_id'' of Inl e \<Rightarrow> Inl e | Inr _ \<Rightarrow> Inl (Exn AttributeError [])))"

fun service_rows :: "pyval list \<Rightarrow> service_row list res" where
  "service_rows [] = Inr []"
| "service_rows (item # items) =
     (case service_item item of
        Inl e \<Rightarrow> Inl e
      | Inr r \<Rightarrow> map_sum id ((#) r) (service_rows items))"

text \<open>
  SQLite's TEXT affinity: integers and booleans become decimal text, NaN is \<open>NULL\<close>; \<open>real_text\<close> is
  SQLite's rendering of another float.
\<close>

fun text_affinity :: "(pyfloat \<Rightarrow> string) \<Rightarrow> pyval \<Rightarrow> pyval" where
  "text_affinity real_text (PInt n) = PStr (show_int n)"
| "text_affinity real_text (PBool b) = PStr (if b then ''1'' else ''0'')"
| "text_affinity real_text (PFloat f) = (if f = FNan then PNone else PStr (real_text f))"
| "text_affinity real_text v = v"

definition service_columns :: "service_row \<Rightarrow> pyval list" where
  "service_columns r = [sr_msg_id r, sr_username r, sr_display_name r, sr_ciphertext r,
     sr_signature r, sr_hmac_digest r, sr_timestamp r, sr_plaintext r]"

text \<open>The first value that cannot be bound raises.\<close>

definition service_bind_error :: "service_row \<Rightarrow> pyexc option" where
  "service_bind_error r =
     (case filter (\<lambda>v. bind_value v \<noteq> None) (service_columns r) of
        [] \<Rightarrow> None
      | v # _ \<Rightarrow> bind_value v)"

definition service_convert :: "(pyfloat \<Rightarrow> string) \<Rightarrow> service_row \<Rightarrow> service_row" where
  "service_convert rt r = \<lparr>sr_msg_id = text_affinity rt (sr_msg_id r),
     sr_username = text_affinity rt (sr_username r), sr_display_name = text_affinity rt (sr_display_name r),
     sr_ciphertext = text_affinity rt (sr_ciphertext r), sr_signature = text_affinity rt (sr_signature r),
     sr_hmac_digest = text_affinity rt (sr_hmac_digest r), sr_timestamp = text_affinity rt (sr_timestamp r),
     sr_plaintext = text_affinity rt (sr_plaintext r)\<rparr>"

definition service_key :: "service_row \<Rightarrow> pyval option" where
  "service_key r = (if sr_msg_id r = PNone then None else Some (sr_msg_id r))"

definition service_accepts :: "service_row \<Rightarrow> bool" where
  "service_accepts r = True"

definition service_put :: "service_row \<Rightarrow> service_row sqltable \<Rightarrow> service_row sqltable" where
  "service_put = sql_insert_or_ignore service_key service_accepts"

definition service_insert ::
  "(pyfloat \<Rightarrow> string) \<Rightarrow> service_row \<Rightarrow> service_row sqltable \<Rightarrow> service_row sqltable" where
  "service_insert rt r = service_put (service_convert rt r)"

text \<open>The committed table is the whole state of the service. The argument is \<open>get_json(silent=True)\<close>.\<close>

definition service_post_batch ::
  "(pyfloat \<Rightarrow> string) \<Rightarrow> pyval \<Rightarrow> service_row sqltable \<Rightarrow> nat res \<times> service_row sqltable" where
  "service_post_batch rt json t =
     (case py_or json (PList []) of
        PList (item # items) \<Rightarrow>
          (case service_rows (item # items) of
             Inl e \<Rightarrow> (Inl e, t)
           | Inr rows \<Rightarrow>
               (case sql_executemany service_bind_error (service_insert rt) rows t of
                  (t', None) \<Rightarrow> (Inr (length rows), t')
                | (t', Some e) \<Rightarrow> (Inl e, t)))
      | _ \<Rightarrow> (Inr 0, t))"

definition service_entry :: "nat \<times> service_row \<Rightarrow> pyval" where
  "service_entry ir = (case ir of (i, r) \<Rightarrow> PDict
     [(''id'', PInt (int i)), (''msg_id'', sr_msg_id r), (''username'', sr_username r),
      (''display_name'', sr_display_name r), (''ciphertext'', sr_ciphertext r),
      (''signature'', sr_signature r), (''hmac_digest'', sr_hmac_digest r),
      (''timestamp'', sr_timestamp r), (''plaintext'', sr_plaintext r)])"

definition service_limit_arg :: "string option \<Rightarrow> int" where
  "service_limit_arg arg =
     (case arg of
        None \<Rightarrow> 100000
      | Some s \<Rightarrow> (case int_of_str s of None \<Rightarrow> 100000 | Some n \<Rightarrow> n))"

definition service_get_messages :: "string option \<Rightarrow> service_row sqltable \<Rightarrow> pyval list res" where
  "service_get_messages arg t =
     (case bind_value (PInt (service_limit_arg arg)) of
        Some e \<Rightarrow> Inl e
      | None \<Rightarrow> Inr (map service_entry (sql_limit (service_limit_arg arg) (sql_select_by_id t))))"

definition service_health :: "service_row sqltable \<Rightarrow> nat" where
  "service_health t = length (tbl_rows t)"

definition service_reset :: "service_row sqltable \<Rightarrow> service_row sqltable" where
  "service_reset t = sql_delete_all t"

section \<open>The service table is a deduplicating row store\<close>

interpretation svc: row_store service_put contents service_key service_accepts "table_wf service_key"
  unfolding service_put_def by (rule sql_row_store)

end
