(* ===== verification/DbFaults.thy ===== *)
theory DbFaults
  imports DbProps
begin

text \<open>
  The corner cases of db.py: a full write queue, batch ingestion of messages that are already
  known, and a queued row that SQLite cannot bind.
\<close>

section \<open>A full queue\<close>

text \<open>
  C25: When the queue is full, a new storable message is written to the table at once and committed
  (its timestamp as the INTEGER column keeps it), ahead of every queued row: it enters the table
  before messages that precede it in the feed.
\<close>
theorem save_message_queue_full:
  assumes "db_wf s" "m_msg_id r \<notin> seen_msg_ids s" "m_msg_id r \<notin> m_msg_id ` set (stored s)"
    and "write_queue_maxsize \<le> length (write_queue s)"
    and "messages_bind_error r = None" "messages_not_null r"
  shows "fst (save_message r s) = Inr True \<and>
    write_queue (snd (save_message r s)) = write_queue s \<and>
    committed (snd (save_message r s)) = stored s @ [col_row s r] \<and>
    memory_feed (snd (save_message r s)) = memory_feed s @ [feed_of_row r]"
proof -
  let ?a = "admit r s" and ?i = "insert_rows [r] (admit r s)"
  have nerr: "fst ?i = None" using assms(5) by (simp add: insert_rows_error)
  then have eq: "enqueue_row r ?a = (None, db_commit (snd ?i))"
    using assms(4) by (simp add: enqueue_row_def queue_put_def write_through_eq)
  have "stored (snd ?i) = stored s @ [col_row s r]"
    using stored_insert_rows[of ?a "[r]"] assms
    by (auto simp: bindable_prefix_def messages_key_def)
  moreover have "stored (snd ?i) = contents (img_messages (db_view (snd ?i)))"
    by (simp add: stored_def view_get_conn)
  ultimately show ?thesis
    using eq assms(2) save_message_new[OF assms(2)] by (simp add: save_message_fresh)
qed

definition full_db :: db_state where
  "full_db = empty_db\<lparr>write_queue := replicate 200000 sample_row, seen_msg_ids := {''m1''}\<rparr>"

theorem save_message_queue_full_witness:
  "committed (snd (save_message (sample_row\<lparr>m_msg_id := ''m2''\<rparr>) full_db)) = [sample_row\<lparr>m_msg_id := ''m2''\<rparr>]"
proof -
  let ?r = "sample_row\<lparr>m_msg_id := ''m2''\<rparr>"
  have st: "stored full_db = []" "db_wf full_db"
    using empty_db_ok(1) by (simp_all add: full_db_def stored_def db_wf_def db_view_def get_conn_def empty_db_def)
  have "messages_bind_error ?r = None" "messages_not_null ?r"
    by (simp_all add: sample_row_def messages_bind_error_def messages_not_null_def)
  then show ?thesis
    using save_message_queue_full[OF st(2), of ?r] st
    by (simp add: full_db_def write_queue_maxsize_def sample_row_def)
qed

section \<open>Batches\<close>

lemma save_messages_batch_rows:
  assumes "batch_rows now batch = Inr rows" "rows \<noteq> []" "\<forall>r \<in> set rows. messages_bind_error r = None"
  shows "save_messages_batch cfg now batch s =
    (let s2 = db_commit (snd (insert_rows rows s))
     in (Inr (length rows),
         if is_shared_db_host cfg then s2
         else s2\<lparr>seen_msg_ids := seen_msg_ids s \<union> set (map m_msg_id rows),
                memory_feed := memory_feed s @ map feed_of_row rows\<rparr>))"
proof -
  have "batch \<noteq> []" using assms(1,2) by (cases batch) auto
  moreover have "fst (insert_rows rows s) = None" using assms(3) by (simp add: insert_rows_error)
  then obtain s1 where s1: "insert_rows rows s = (None, s1)" by (cases "insert_rows rows s") auto
  moreover have "seen_msg_ids s1 = seen_msg_ids s" "memory_feed s1 = memory_feed s"
    using insert_rows_fields(1,2)[of rows s] s1 by simp_all
  ultimately show ?thesis
    using assms(1,2) by (simp add: save_messages_batch_def Let_def)
qed

lemma batch_db_parts:
  assumes "db_wf s"
  shows "stored (db_commit (snd (insert_rows rows s))) = stored (snd (insert_rows rows s))"
    and "db_wf (db_commit (snd (insert_rows rows s)))"
  using insert_rows_wf[OF assms] by (simp_all add: commit_wf)

lemma feed_fields_irrelevant [simp]:
  "stored (s\<lparr>seen_msg_ids := x, memory_feed := y\<rparr>) = stored s"
  "db_wf (s\<lparr>seen_msg_ids := x, memory_feed := y\<rparr>) = db_wf s"
  by (simp_all add: stored_def db_wf_def db_view_def get_conn_def split: option.split)

text \<open>
  C26: Batch ingestion stores each new id once, whatever the batch repeats, and reports the number
  of items with an id, not the number of rows it inserted.
\<close>
theorem save_messages_batch_stores:
  assumes "db_wf s" "batch_rows now batch = Inr rows" "rows \<noteq> []"
    and "\<forall>r \<in> set rows. messages_bind_error r = None"
    and "save_messages_batch cfg now batch s = (v, s')"
  shows "v = Inr (length rows) \<and> db_wf s' \<and>
    m_msg_id ` set (stored s') = m_msg_id ` set (stored s) \<union> m_msg_id ` {r \<in> set rows. messages_not_null r} \<and>
    distinct (map m_msg_id (stored s')) \<and> take (length (stored s)) (stored s') = stored s"
proof -
  let ?s2 = "db_commit (snd (insert_rows rows s))"
  have v: "v = Inr (length rows)" and parts: "stored s' = stored ?s2" "db_wf s' = db_wf ?s2"
    using save_messages_batch_rows[OF assms(2-4), of cfg s] assms(5) by (auto simp: Let_def)
  have wf: "db_wf s'" using parts batch_db_parts[OF assms(1)] by simp
  have st: "stored s' = stored s @ msgs.fresh_rows (stored s) (map (col_row s) rows)"
    using parts batch_db_parts[OF assms(1)] stored_insert_rows[OF assms(1), of rows]
    by (simp add: bindable_all assms(4))
  have "Some ` m_msg_id ` set (stored s') =
      Some ` (m_msg_id ` set (stored s) \<union> m_msg_id ` {r \<in> set rows. messages_not_null r})"
    using msgs.fresh_rows_keys[of "stored s" "map (col_row s) rows"] st
    unfolding convert_keys by (simp add: image_Un image_image messages_key_def)
  then have "m_msg_id ` set (stored s') =
      m_msg_id ` set (stored s) \<union> m_msg_id ` {r \<in> set rows. messages_not_null r}"
    by (simp only: inj_image_eq_iff[OF inj_Some])
  moreover have "distinct (map m_msg_id (stored s'))"
  proof -
    have "distinct (filter (\<lambda>k. k \<noteq> None) (map messages_key (stored s')))"
      using wf msgs.wf_keys[of "img_messages (db_view (get_conn s'))"]
      by (simp add: db_wf_def stored_def del: not_None_eq)
    moreover have "filter (\<lambda>k. k \<noteq> None) (map messages_key (stored s')) = map Some (map m_msg_id (stored s'))"
      by (induction "stored s'") (simp_all add: messages_key_def)
    ultimately have "distinct (map Some (map m_msg_id (stored s')))" by (simp only:)
    then show ?thesis unfolding distinct_map[of Some] by blast
  qed
  ultimately show ?thesis using v wf st by simp
qed

definition one_item :: pyval where
  "one_item = PDict [(''msg_id'', PStr ''a''), (''username'', PStr ''bob''), (''msg'', PStr ''hi''), (''timestamp'', PStr ''17'')]"

lemma one_item_rows:
  "\<exists>r. batch_rows 5 [one_item, one_item] = Inr [r, r] \<and> batch_rows 5 [one_item] = Inr [r] \<and>
     m_msg_id r = ''a'' \<and> m_plaintext r = ''hi'' \<and> messages_bind_error r = None"
proof -
  have ts: "batch_timestamp 5 [(''msg_id'', PStr ''a''), (''username'', PStr ''bob''), (''msg'', PStr ''hi''),
      (''timestamp'', PStr ''17'')] = Inr 17" by code_simp
  show ?thesis
    by (simp add: one_item_def batch_item_def Let_def str_or1_def str_or2_def str_or3_def dget_def ts
        messages_bind_error_def)
qed

theorem save_messages_batch_stores_witness:
  "fst (save_messages_batch toy_cfg 5 [one_item, one_item] empty_db) = Inr 2 \<and>
   m_msg_id ` set (stored (snd (save_messages_batch toy_cfg 5 [one_item, one_item] empty_db))) \<subseteq> {''a''}"
proof -
  obtain r where r: "batch_rows 5 [one_item, one_item] = Inr [r, r]" "m_msg_id r = ''a''" "messages_bind_error r = None"
    using one_item_rows by blast
  have "stored empty_db = []" by (simp add: empty_db_def stored_def db_view_def get_conn_def)
  then show ?thesis
    using save_messages_batch_stores[OF empty_db_ok(1) r(1), of toy_cfg
        "fst (save_messages_batch toy_cfg 5 [one_item, one_item] empty_db)"
        "snd (save_messages_batch toy_cfg 5 [one_item, one_item] empty_db)"] r(2,3)
    by auto
qed

text \<open>
  C39: The batch path does not consult the known ids before it extends the feed: ingesting the same
  batch twice on a backend leaves the table and the message count as after the first time, but the
  feed holds every message of the batch twice.
\<close>
theorem save_messages_batch_duplicates_feed:
  assumes "db_wf s" "\<not> is_shared_db_host cfg" "batch_rows now batch = Inr rows" "rows \<noteq> []"
    and "\<forall>r \<in> set rows. messages_bind_error r = None \<and> messages_not_null r"
    and "s1 = snd (save_messages_batch cfg now batch s)"
    and "s2 = snd (save_messages_batch cfg now batch s1)"
  shows "stored s2 = stored s1 \<and> get_message_count s2 = get_message_count s1 \<and>
    memory_feed s2 = memory_feed s @ map feed_of_row rows @ map feed_of_row rows \<and>
    \<not> distinct (map f_id (memory_feed s2))"
proof -
  have bind: "\<forall>r \<in> set rows. messages_bind_error r = None" using assms(5) by blast
  note eq = save_messages_batch_rows[OF assms(3,4) bind, of cfg]
  have e1: "s1 = (db_commit (snd (insert_rows rows s)))\<lparr>seen_msg_ids := seen_msg_ids s \<union> set (map m_msg_id rows),
      memory_feed := memory_feed s @ map feed_of_row rows\<rparr>"
    unfolding assms(6) eq using assms(2) by (simp add: Let_def)
  have e2: "s2 = (db_commit (snd (insert_rows rows s1)))\<lparr>seen_msg_ids := seen_msg_ids s1 \<union> set (map m_msg_id rows),
      memory_feed := memory_feed s1 @ map feed_of_row rows\<rparr>"
    unfolding assms(7) eq using assms(2) by (simp add: Let_def)
  have s1: "seen_msg_ids s1 = seen_msg_ids s \<union> set (map m_msg_id rows)"
    "memory_feed s1 = memory_feed s @ map feed_of_row rows"
    "stored s1 = stored (snd (insert_rows rows s))" "db_wf s1"
    unfolding e1 using batch_db_parts[OF assms(1)] by simp_all
  have s2: "seen_msg_ids s2 = seen_msg_ids s1 \<union> set (map m_msg_id rows)"
    "memory_feed s2 = memory_feed s1 @ map feed_of_row rows"
    "stored s2 = stored (snd (insert_rows rows s1))"
    unfolding e2 using batch_db_parts[OF s1(4)] by simp_all
  have st1: "stored s1 = stored s @ msgs.fresh_rows (stored s) (map (col_row s) rows)"
    using s1(3) stored_insert_rows[OF assms(1), of rows] by (simp add: bindable_all bind)
  have "\<forall>r \<in> set rows. messages_key r \<noteq> None \<and> messages_key r \<in> messages_key ` set (stored s1)"
    using msgs.fresh_rows_keys[of "stored s" "map (col_row s) rows"] assms(5) st1
    unfolding convert_keys by (auto simp: messages_key_def image_Un)
  then have "msgs.fresh_rows (stored s1) (map (col_row s1) rows) = []"
    by (intro msgs.fresh_rows_none) simp
  then have "stored s2 = stored s1"
    using s2(3) stored_insert_rows[OF s1(4), of rows] by (simp add: bindable_all bind)
  moreover have "seen_msg_ids s2 = seen_msg_ids s1" using s1(1) s2(1) by auto
  ultimately show ?thesis
    using s1(2) s2(2) assms(4) by (cases rows) (simp_all add: get_message_count_def)
qed

theorem save_messages_batch_duplicates_feed_witness:
  "\<not> distinct (map f_id (memory_feed (snd (save_messages_batch \<lparr>db_service_url = [], is_shared_db_host = False\<rparr> 5 [one_item]
     (snd (save_messages_batch \<lparr>db_service_url = [], is_shared_db_host = False\<rparr> 5 [one_item] empty_db))))))"
proof -
  obtain r where r: "batch_rows 5 [one_item] = Inr [r]" "messages_bind_error r = None"
    using one_item_rows by blast
  have "messages_not_null r"
    using r(1) by (auto simp: one_item_def batch_item_def Let_def messages_not_null_def str_or2_def dget_def
        split: sum.splits if_splits)
  with r have storable: "\<forall>x \<in> set [r]. messages_bind_error x = None \<and> messages_not_null x" by simp
  show ?thesis
    using save_messages_batch_duplicates_feed[OF empty_db_ok(1) _ r(1) _ storable refl refl] by simp
qed

section \<open>A row that cannot be bound\<close>

text \<open>
  C40: One queued row that SQLite cannot bind costs the rows behind it in its batch: they leave the
  queue, are neither stored nor queued afterwards, and stay in the feed; nothing of the batch is
  committed by this turn.
\<close>
theorem writer_step_poison:
  assumes "db_wf s" "write_queue s = good @ bad # rest" "length (write_queue s) \<le> batch_limit"
    and "\<forall>r \<in> set good. messages_bind_error r = None" "messages_bind_error bad \<noteq> None"
    and "s' = snd (writer_step cfg s)"
  shows "write_queue s' = [] \<and> committed s' = committed s \<and> memory_feed s' = memory_feed s \<and>
    set (stored s') \<subseteq> set (stored s) \<union> col_row s ` set good"
proof -
  let ?b = "good @ bad # rest" and ?s0 = "s\<lparr>write_queue := []\<rparr>"
  have b: "take batch_limit (write_queue s) = ?b" "drop batch_limit (write_queue s) = []"
    using assms(2,3) by simp_all
  have pre: "bindable_prefix messages_bind_error ?b = good"
    using assms(4,5) by (simp add: bindable_prefix_def)
  have "fst (insert_rows ?b ?s0) \<noteq> None" using assms(5) by (simp add: insert_rows_error)
  then have s': "s' = snd (insert_rows ?b ?s0)"
    using b by (cases "insert_rows ?b ?s0") (auto simp: assms(6) writer_step_eq writer_flush_def)
  have "stored s' = stored s @ msgs.fresh_rows (stored s) (map (col_row s) good)"
    using stored_insert_rows[of ?s0 ?b] assms(1) pre by (simp add: s')
  then show ?thesis
    using msgs.fresh_rows_subset[of "stored s" "map (col_row s) good"] by (auto simp: s' committed_def)
qed

definition poison_row :: message_row where
  "poison_row = sample_row\<lparr>m_msg_id := ''bad'', m_timestamp := PList [PInt 1]\<rparr>"

theorem writer_step_poison_witness:
  "stored (snd (writer_step toy_cfg (empty_db\<lparr>write_queue := [poison_row, sample_row]\<rparr>))) = [] \<and>
   write_queue (snd (writer_step toy_cfg (empty_db\<lparr>write_queue := [poison_row, sample_row]\<rparr>))) = []"
proof -
  have "stored (empty_db\<lparr>write_queue := q\<rparr>) = []" "db_wf (empty_db\<lparr>write_queue := q\<rparr>)" for q
    by (simp_all add: stored_queue_update) (simp add: empty_db_def stored_def db_view_def get_conn_def)
  then show ?thesis
    using writer_step_poison[of "empty_db\<lparr>write_queue := [poison_row, sample_row]\<rparr>" "[]" poison_row "[sample_row]"]
    by (simp add: batch_limit_def poison_row_def messages_bind_error_def)
qed

section \<open>A timestamp the column rewrites\<close>

text \<open>
  The record hash covers the timestamp as the client sent it, the table keeps it as the INTEGER column
  does. A row whose timestamp prints differently afterwards (a boolean, a whole float, text with a
  sign or leading zeros) fails verification once it is stored, although nobody touched it, unless
  SHA-256 gives both payloads the same hash.
\<close>

lemma column_breaks_record_hash:
  assumes "row_link p r = m_record_hash r"
    and "py_str (integer_affinity lit (m_timestamp r)) \<noteq> py_str (m_timestamp r)"
    and "inj_on sha256_hexdigest ((\<lambda>t. utf8_encode (record_payload p (m_username r) (m_ciphertext r) (m_signature r) t)) `
      {m_timestamp r, integer_affinity lit (m_timestamp r)})"
  shows "\<not> verify_record (messages_convert lit r) p"
proof -
  let ?pay = "\<lambda>t. utf8_encode (record_payload p (m_username r) (m_ciphertext r) (m_signature r) t)"
  have "?pay (integer_affinity lit (m_timestamp r)) \<noteq> ?pay (m_timestamp r)"
    using assms(2) by (auto simp: record_payload_def dest: utf8_encode_inj)
  then have "sha256_hexdigest (?pay (integer_affinity lit (m_timestamp r))) \<noteq> sha256_hexdigest (?pay (m_timestamp r))"
    using assms(3) by (auto dest: inj_onD)
  then show ?thesis
    using assms(1) by (simp add: verify_record_def row_link_def compute_record_hash_def messages_convert_def)
qed

lemma column_rewrites_true: "py_str (integer_affinity lit (PBool True)) \<noteq> py_str (PBool True)"
  by code_simp

end
