(* ===== verification/Concurrency.thy ===== *)
theory Concurrency
  imports AppProps "HOL-Library.Multiset"
begin

text \<open>
  The process with its threads: Flask serves every request in a thread of its own, next to the
  background writer. What is atomic is what the code does under one lock: the request counter, looking
  up an id, getting a key pair, taking the next hash, starting the writer, adding to the known ids, to
  the feed, to the queue, writing past a full queue, the broadcast, the response window; each phase of
  POST /reset-state; one \<open>get\<close> of the writer and its flush. Any thread may run between two such regions.
\<close>

section \<open>Threads\<close>

text \<open>A message on its way, after the fields of its request were read and checked.\<close>

record job =
  j_env :: app_env
  j_user :: string
  j_text :: string
  j_id :: string

text \<open>
  Where a thread is: before each locked region of POST /message, or before each phase of POST
  /reset-state. \<open>TLeave\<close> and \<open>TTrack\<close> are the \<open>finally\<close> clause; a finished thread holds its response and
  the frames it sent.
\<close>

datatype thread =
    TEnter app_env web_request
  | TRead app_env web_request
  | TKey job
  | TLink job privkey string
  | TStart job message_row
  | TSeen job message_row
  | TFeed job message_row
  | TQueue job message_row
  | TDirect job message_row
  | TClients job
  | TSend job
  | TLeave app_env web_response "frame list"
  | TTrack app_env web_response "frame list"
  | RDrain
  | RSeen
  | RFeed
  | RDelete
  | RHash
  | RCache
  | TDone web_response "frame list"

definition failed :: "app_env \<Rightarrow> pyexc \<Rightarrow> thread" where
  "failed env e = TLeave env (jsonify 500 [(''error'', PStr (exn_message e))]) []"

definition job_answer :: "job \<Rightarrow> web_response" where
  "job_answer j = jsonify 200 [(''status'', PStr ''ok''), (''msg_id'', PStr (j_id j)),
     (''client-name'', PStr (j_user j)), (''msg'', PStr (j_text j)), (''timestamp'', PInt (env_now (j_env j)))]"

text \<open>From the start of the handler to the lookup of the id.\<close>

definition read_request :: "app_env \<Rightarrow> web_request \<Rightarrow> app_state \<Rightarrow> thread" where
  "read_request env rq s =
     (case post_fields rq of
        Inl e \<Rightarrow> failed env e
      | Inr (client_name, msg_text, given_id) \<Rightarrow>
          if client_name = [] then
            TLeave env (jsonify 400 [(''error'', PStr ''client-name is required'')]) []
          else if msg_text = [] then
            TLeave env (jsonify 400 [(''error'', PStr ''msg is required'')]) []
          else
            (let msg_id = (if given_id = [] then env_uuid env else given_id)
             in if message_exists msg_id (a_db s) then
                  TLeave env (jsonify 200 [(''status'', PStr ''duplicate''), (''msg_id'', PStr msg_id),
                    (''client-name'', PStr client_name), (''msg'', PStr msg_text)]) []
                else TKey \<lparr>j_env = env, j_user = client_name, j_text = msg_text, j_id = msg_id\<rparr>))"

text \<open>Signing and encrypting touch no shared state and happen on the way to the next hash.\<close>

definition link_row :: "app_libs \<Rightarrow> job \<Rightarrow> privkey \<Rightarrow> string \<Rightarrow> app_state \<Rightarrow> message_row res \<times> app_state" where
  "link_row L j sk pem s =
     (let ts = PInt (env_now (j_env j))
      in case sign_message (lib_ecdsa L) sk (env_sign_seed (j_env j)) (canonical_message (j_user j) (j_text j) ts) of
           Inl e \<Rightarrow> (Inl e, s)
         | Inr signature \<Rightarrow>
             (case encrypt_text (lib_fernet L) (lib_key L) (env_fernet_seed (j_env j)) (j_text j) of
                Inl e \<Rightarrow> (Inl e, s)
              | Inr ciphertext \<Rightarrow>
                  (case get_next_hashes (j_user j) ciphertext signature ts s of
                     (hashes, s1) \<Rightarrow>
                       (Inr (chat_row (j_id j) (j_user j) (j_text j) ciphertext signature pem ts hashes), s1))))"

text \<open>
  One region. A thread whose id another thread added first skips the broadcast and answers ok, because
  the handler only looks at the result of \<open>save_message\<close> for the broadcast.
\<close>

fun thread_step :: "app_libs \<Rightarrow> thread \<Rightarrow> app_state \<Rightarrow> thread \<times> app_state" where
  "thread_step L (TEnter env rq) s = (TRead env rq, s\<lparr>active_requests := active_requests s + 1\<rparr>)"
| "thread_step L (TRead env rq) s = (read_request env rq s, s)"
| "thread_step L (TKey j) s =
     (case get_or_create_keypair (lib_ecdsa L) (env_drawn (j_env j)) (j_user j) s of
        (Inl e, s1) \<Rightarrow> (failed (j_env j) e, s1)
      | (Inr (sk, pem), s1) \<Rightarrow> (TLink j sk pem, s1))"
| "thread_step L (TLink j sk pem) s =
     (case link_row L j sk pem s of
        (Inl e, s1) \<Rightarrow> (failed (j_env j) e, s1)
      | (Inr r, s1) \<Rightarrow> (TStart j r, s1))"
| "thread_step L (TStart j r) s = (TSeen j r, s\<lparr>a_db := ensure_writer_started (a_db s)\<rparr>)"
| "thread_step L (TSeen j r) s =
     (case seen_add (m_msg_id r) (a_db s) of
        (new, d) \<Rightarrow> (if new then TFeed j r else TLeave (j_env j) (job_answer j) [], s\<lparr>a_db := d\<rparr>))"
| "thread_step L (TFeed j r) s = (TQueue j r, s\<lparr>a_db := feed_append (feed_of_row r) (a_db s)\<rparr>)"
| "thread_step L (TQueue j r) s =
     (case queue_put r (a_db s) of
        Some d \<Rightarrow> (TClients j, s\<lparr>a_db := d\<rparr>)
      | None \<Rightarrow> (TDirect j r, s))"
| "thread_step L (TDirect j r) s =
     (case write_through r (a_db s) of
        (Some e, d) \<Rightarrow> (failed (j_env j) e, s\<lparr>a_db := d\<rparr>)
      | (None, d) \<Rightarrow> (TClients j, s\<lparr>a_db := d\<rparr>))"
| "thread_step L (TClients j) s =
     (if ws_clients s \<noteq> [] then TSend j else TLeave (j_env j) (job_answer j) [], s)"
| "thread_step L (TSend j) s =
     (case broadcast_ws (env_send_ok (j_env j)) (message_payload (j_user j) (j_text j) (PInt (env_now (j_env j)))) s of
        (sent, s1) \<Rightarrow> (TLeave (j_env j) (job_answer j) sent, s1))"
| "thread_step L (TLeave env resp sent) s = (TTrack env resp sent, s\<lparr>active_requests := active_requests s - 1\<rparr>)"
| "thread_step L (TTrack env resp sent) s =
     (TDone resp sent, s\<lparr>response_times := track_response_time (env_elapsed env) (response_times s)\<rparr>)"
| "thread_step L RDrain s =
     (case write_queue (a_db s) of
        [] \<Rightarrow> (RSeen, s)
      | r # q \<Rightarrow> (RDrain, s\<lparr>a_db := (a_db s)\<lparr>write_queue := q\<rparr>\<rparr>))"
| "thread_step L RSeen s = (RFeed, s\<lparr>a_db := (a_db s)\<lparr>seen_msg_ids := {}\<rparr>\<rparr>)"
| "thread_step L RFeed s = (RDelete, s\<lparr>a_db := (a_db s)\<lparr>memory_feed := []\<rparr>\<rparr>)"
| "thread_step L RDelete s = (RHash, s\<lparr>a_db := delete_messages (a_db s)\<rparr>)"
| "thread_step L RHash s = (RCache, s\<lparr>last_hash_val := replicate 64 (CHR ''0'')\<rparr>)"
| "thread_step L RCache s =
     (TDone (jsonify 200 [(''status'', PStr ''ok''), (''message'', PStr ''database reset complete'')]) [],
      s\<lparr>keypair_cache := []\<rparr>)"
| "thread_step L (TDone resp sent) s = (TDone resp sent, s)"

text \<open>A thread that is not interrupted.\<close>

fun run_thread :: "nat \<Rightarrow> app_libs \<Rightarrow> thread \<Rightarrow> app_state \<Rightarrow> thread \<times> app_state" where
  "run_thread 0 L t s = (t, s)"
| "run_thread (Suc n) L t s = (case thread_step L t s of (t', s') \<Rightarrow> run_thread n L t' s')"

section \<open>The writer\<close>

text \<open>
  The writer waits for a first row, fills its batch by one \<open>get_nowait\<close> at a time until the queue is
  empty or the batch is full, and flushes it under the database lock.
\<close>

datatype writer_phase = WWait | WFill "message_row list" | WFlush "message_row list"

fun in_hand :: "writer_phase \<Rightarrow> message_row list" where
  "in_hand WWait = []"
| "in_hand (WFill b) = b"
| "in_hand (WFlush b) = b"

fun writer_region :: "db_config \<Rightarrow> writer_phase \<Rightarrow> db_state \<Rightarrow> writer_phase \<times> db_state" where
  "writer_region cfg WWait d =
     (case write_queue d of
        [] \<Rightarrow> (WWait, d)
      | r # q \<Rightarrow> (WFill [r], d\<lparr>write_queue := q\<rparr>))"
| "writer_region cfg (WFill b) d =
     (if length b < batch_limit
      then (case write_queue d of
              [] \<Rightarrow> (WFlush b, d)
            | r # q \<Rightarrow> (WFill (b @ [r]), d\<lparr>write_queue := q\<rparr>))
      else (WFlush b, d))"
| "writer_region cfg (WFlush b) d = (WWait, snd (writer_flush cfg b d))"

section \<open>The process\<close>

record conc_state =
  c_app :: app_state
  c_threads :: "thread list"
  c_writer :: writer_phase

text \<open>The rows in the writer's hand.\<close>

definition c_batch :: "conc_state \<Rightarrow> message_row list" where
  "c_batch c = in_hand (c_writer c)"

declare link_row_def [run_defs] read_request_def [run_defs] failed_def [run_defs] c_batch_def [run_defs]

datatype action = Arrive app_env web_request | ArriveReset | Run nat | RunWriter

fun conc_exec :: "app_libs \<Rightarrow> db_config \<Rightarrow> action \<Rightarrow> conc_state \<Rightarrow> conc_state option" where
  "conc_exec L cfg (Arrive env rq) c = Some (c\<lparr>c_threads := c_threads c @ [TEnter env rq]\<rparr>)"
| "conc_exec L cfg ArriveReset c = Some (c\<lparr>c_threads := c_threads c @ [RDrain]\<rparr>)"
| "conc_exec L cfg (Run i) c =
     (if i < length (c_threads c)
      then (case thread_step L (c_threads c ! i) (c_app c) of
              (t, s) \<Rightarrow> Some (c\<lparr>c_app := s, c_threads := (c_threads c)[i := t]\<rparr>))
      else None)"
| "conc_exec L cfg RunWriter c =
     (case writer_region cfg (c_writer c) (a_db (c_app c)) of
        (w, d) \<Rightarrow> Some (c\<lparr>c_app := (c_app c)\<lparr>a_db := d\<rparr>, c_writer := w\<rparr>))"

text \<open>The steps; \<open>resets\<close> says whether requests to reset may arrive.\<close>

fun admitted :: "bool \<Rightarrow> action \<Rightarrow> bool" where
  "admitted resets (Arrive env rq) = clock_ok env"
| "admitted resets ArriveReset = resets"
| "admitted resets _ = True"

inductive conc_step :: "app_libs \<Rightarrow> db_config \<Rightarrow> bool \<Rightarrow> conc_state \<Rightarrow> conc_state \<Rightarrow> bool"
  for L :: app_libs and cfg :: db_config and resets :: bool where
  conc_act: "admitted resets a \<Longrightarrow> conc_exec L cfg a c = Some c' \<Longrightarrow> conc_step L cfg resets c c'"

inductive_simps conc_step_iff: "conc_step L cfg resets c c'"

definition conc_init :: "app_libs \<Rightarrow> conc_state \<Rightarrow> bool" where
  "conc_init L c \<longleftrightarrow> rest_init L (c_app c) \<and> c_threads c = [] \<and> c_writer c = WWait"

fun conc_run :: "app_libs \<Rightarrow> db_config \<Rightarrow> action list \<Rightarrow> conc_state \<Rightarrow> conc_state option" where
  "conc_run L cfg [] c = Some c"
| "conc_run L cfg (a # as) c =
     (case conc_exec L cfg a c of None \<Rightarrow> None | Some c' \<Rightarrow> conc_run L cfg as c')"

lemma conc_run_reach:
  assumes "reach (conc_init L) (conc_step L cfg resets) c" "list_all (admitted resets) as"
    and "conc_run L cfg as c = Some c'"
  shows "reach (conc_init L) (conc_step L cfg resets) c'"
  using assms
proof (induction as arbitrary: c)
  case (Cons a as)
  then obtain c1 where c1: "conc_exec L cfg a c = Some c1" "conc_run L cfg as c1 = Some c'"
    by (auto split: option.splits)
  have "conc_step L cfg resets c c1" using conc_act[OF _ c1(1)] Cons.prems(2) by simp
  then have "reach (conc_init L) (conc_step L cfg resets) c1" using reach_step[OF Cons.prems(1)] by blast
  with Cons.IH c1(2) Cons.prems(2) show ?case by simp
qed simp

end
