(* ===== verification/ConcInv.thy ===== *)
theory ConcInv
  imports Concurrency
begin

text \<open>
  The invariant of the threaded process while no reset runs: every message of the feed is in exactly
  one place (on disk, in the writer's hand, in the queue, or in a thread about to queue it), the known
  ids are those of the feed and of the threads about to append to it, each once, and all rows anywhere
  in the process were linked into one hash chain that ends in the head the process keeps.
\<close>

section \<open>Rows in flight\<close>

text \<open>About to be added to the feed, about to be queued, and linked at all but neither queued nor stored.\<close>

fun feeding :: "thread \<Rightarrow> message_row list" where
  "feeding (TFeed j r) = [r]"
| "feeding _ = []"

fun queueing :: "thread \<Rightarrow> message_row list" where
  "queueing (TQueue j r) = [r]"
| "queueing (TDirect j r) = [r]"
| "queueing _ = []"

fun carried :: "thread \<Rightarrow> message_row list" where
  "carried (TStart j r) = [r]"
| "carried (TSeen j r) = [r]"
| "carried (TFeed j r) = [r]"
| "carried (TQueue j r) = [r]"
| "carried (TDirect j r) = [r]"
| "carried _ = []"

definition flight :: "(thread \<Rightarrow> message_row list) \<Rightarrow> thread list \<Rightarrow> message_row multiset" where
  "flight f ts = mset (concat (map f ts))"

lemma flight_Nil [simp]: "flight f [] = {#}"
  by (simp add: flight_def)

lemma flight_snoc [simp]: "flight f (ts @ [t]) = flight f ts + mset (f t)"
  by (simp add: flight_def)

lemma flight_split:
  assumes "i < length ts"
  shows "flight f ts = flight f (take i ts @ drop (Suc i) ts) + mset (f (ts ! i))"
    and "flight f (ts[i := t]) = flight f (take i ts @ drop (Suc i) ts) + mset (f t)"
proof -
  have "ts = take i ts @ ts ! i # drop (Suc i) ts" using assms by (rule id_take_nth_drop)
  then have "flight f ts = flight f (take i ts @ ts ! i # drop (Suc i) ts)" by simp
  then show "flight f ts = flight f (take i ts @ drop (Suc i) ts) + mset (f (ts ! i))"
    by (simp add: flight_def)
  show "flight f (ts[i := t]) = flight f (take i ts @ drop (Suc i) ts) + mset (f t)"
    using assms by (simp add: flight_def upd_conv_take_nth_drop)
qed

lemma flight_same:
  "i < length ts \<Longrightarrow> f t = f (ts ! i) \<Longrightarrow> flight f (ts[i := t]) = flight f ts"
  by (simp add: flight_split[of i ts f] flight_split(2)[of i ts f t])

section \<open>The invariant\<close>

definition storable :: "message_row \<Rightarrow> bool" where
  "storable r \<longleftrightarrow> messages_bind_error r = None \<and> int_time (m_timestamp r)"

lemma storable_facts:
  "storable r \<Longrightarrow> messages_bind_error r = None" "storable r \<Longrightarrow> messages_not_null r"
  "storable r \<Longrightarrow> messages_convert lit r = r"
  by (cases "m_timestamp r"; simp add: storable_def messages_not_null_def)+

fun thread_ok :: "thread \<Rightarrow> bool" where
  "thread_ok (TEnter env rq) = clock_ok env"
| "thread_ok (TRead env rq) = clock_ok env"
| "thread_ok (TKey j) = clock_ok (j_env j)"
| "thread_ok (TLink j sk pem) = clock_ok (j_env j)"
| "thread_ok (TStart j r) = storable r"
| "thread_ok (TSeen j r) = storable r"
| "thread_ok (TFeed j r) = storable r"
| "thread_ok (TQueue j r) = storable r"
| "thread_ok (TDirect j r) = storable r"
| "thread_ok (TClients j) = True"
| "thread_ok (TSend j) = True"
| "thread_ok (TLeave env resp sent) = True"
| "thread_ok (TTrack env resp sent) = True"
| "thread_ok (TDone resp sent) = True"
| "thread_ok _ = False"

definition rows_of :: "db_state \<Rightarrow> message_row list \<Rightarrow> thread list \<Rightarrow> message_row multiset" where
  "rows_of d b ts = mset (stored d) + mset b + mset (write_queue d) + flight queueing ts"

definition conc_data :: "db_state \<Rightarrow> message_row list \<Rightarrow> thread list \<Rightarrow> bool" where
  "conc_data d b ts \<longleftrightarrow>
     db_wf d \<and> db_txn d = None \<and>
     image_mset feed_of_row (rows_of d b ts) = mset (memory_feed d) \<and>
     finite (seen_msg_ids d) \<and>
     image_mset f_id (mset (memory_feed d)) + image_mset m_msg_id (flight feeding ts) = mset_set (seen_msg_ids d) \<and>
     (\<forall>r \<in> set b \<union> set (write_queue d). storable r) \<and> (\<forall>t \<in> set ts. thread_ok t)"

text \<open>One chain runs through all rows of the process, in the order in which they took their hash.\<close>

definition all_rows :: "db_state \<Rightarrow> message_row list \<Rightarrow> thread list \<Rightarrow> message_row multiset" where
  "all_rows d b ts = mset (stored d) + mset b + mset (write_queue d) + flight carried ts"

definition conc_chain :: "app_state \<Rightarrow> message_row list \<Rightarrow> thread list \<Rightarrow> bool" where
  "conc_chain s b ts \<longleftrightarrow>
     (\<exists>chain. chain_intact chain \<and> links_back chain \<and> chain_tip chain = last_hash_val s \<and>
        all_rows (a_db s) b ts \<subseteq># mset chain)"

definition conc_inv :: "conc_state \<Rightarrow> bool" where
  "conc_inv c \<longleftrightarrow> conc_data (a_db (c_app c)) (c_batch c) (c_threads c) \<and>
     conc_chain (c_app c) (c_batch c) (c_threads c) \<and>
     (c_writer c = WWait \<or> c_batch c \<noteq> [])"

lemma distinct_sub_mset_set:
  assumes "mset xs \<subseteq># mset_set A" "finite A"
  shows "distinct xs"
proof -
  have "count (mset xs) x \<le> count (mset_set A) x" for x using assms(1) by (rule mset_subset_eq_count)
  moreover have "count (mset_set A) x \<le> 1" for x using assms(2) by (cases "x \<in> A") simp_all
  ultimately have "count (mset xs) x \<le> 1" for x using order_trans by blast
  then show ?thesis
    by (metis count_eq_zero_iff count_greater_eq_one_iff distinct_count_atmost_1 le_antisym set_mset_mset)
qed

lemma conc_ids:
  assumes "conc_data d b ts"
  shows "image_mset m_msg_id (rows_of d b ts) \<subseteq># mset_set (seen_msg_ids d)"
    and "distinct (map f_id (memory_feed d))"
proof -
  have f: "image_mset f_id (mset (memory_feed d)) \<subseteq># mset_set (seen_msg_ids d)"
    using assms unfolding conc_data_def by (metis mset_subset_eq_add_left)
  then have "mset (map f_id (memory_feed d)) \<subseteq># mset_set (seen_msg_ids d)" by simp
  then show "distinct (map f_id (memory_feed d))"
    by (rule distinct_sub_mset_set) (use assms in \<open>simp add: conc_data_def\<close>)
  have "image_mset m_msg_id (rows_of d b ts) = image_mset f_id (image_mset feed_of_row (rows_of d b ts))"
    by (simp add: image_mset.compositionality o_def)
  also have "\<dots> = image_mset f_id (mset (memory_feed d))" using assms by (simp add: conc_data_def)
  finally show "image_mset m_msg_id (rows_of d b ts) \<subseteq># mset_set (seen_msg_ids d)" using f by simp
qed

text \<open>The ids on disk and in a further list of rows that are elsewhere in the process differ.\<close>

lemma conc_distinct:
  assumes "conc_data d b ts" "mset (stored d) + mset rows \<subseteq># rows_of d b ts"
  shows "distinct (map m_msg_id (stored d @ rows))"
proof (rule distinct_sub_mset_set)
  have "mset (map m_msg_id (stored d @ rows)) = image_mset m_msg_id (mset (stored d) + mset rows)" by simp
  also have "\<dots> \<subseteq># image_mset m_msg_id (rows_of d b ts)" by (rule image_mset_subseteq_mono[OF assms(2)])
  also have "\<dots> \<subseteq># mset_set (seen_msg_ids d)" by (rule conc_ids[OF assms(1)])
  finally show "mset (map m_msg_id (stored d @ rows)) \<subseteq># mset_set (seen_msg_ids d)" .
  show "finite (seen_msg_ids d)" using assms(1) by (simp add: conc_data_def)
qed

section \<open>The database operations\<close>

text \<open>Queueing a new storable row, or writing it past a full queue, puts it in one place.\<close>

definition row_placed :: "message_row \<Rightarrow> db_state \<Rightarrow> db_state \<Rightarrow> bool" where
  "row_placed r d d' \<longleftrightarrow> db_wf d' \<and> db_txn d' = None \<and> seen_msg_ids d' = seen_msg_ids d \<and>
     memory_feed d' = memory_feed d \<and>
     mset (stored d') + mset (write_queue d') = mset (stored d) + mset (write_queue d) + {#r#} \<and>
     set (write_queue d') \<subseteq> insert r (set (write_queue d))"

lemma queue_put_conc:
  "db_wf d \<Longrightarrow> db_txn d = None \<Longrightarrow> queue_put r d = Some d' \<Longrightarrow> row_placed r d d'"
  by (auto simp: queue_put_def row_placed_def split: if_splits)

lemma write_through_conc:
  assumes "db_wf d" "storable r" "distinct (map m_msg_id (stored d @ [r]))"
    and "write_through r d = (err, d')"
  shows "err = None" "row_placed r d d'"
proof -
  let ?s1 = "snd (insert_rows [r] d)"
  note st = storable_facts[OF assms(2)]
  have e: "fst (insert_rows [r] d) = None" using st by (simp add: insert_rows_error)
  then show "err = None" using assms(4) by (simp add: write_through_eq)
  have d': "d' = db_commit ?s1" using assms(4) e by (simp add: write_through_eq)
  have "msgs.fresh_rows (stored d) (map (col_row d) [r]) = map (col_row d) [r]"
    using st assms(3) by (intro fresh_rows_new) auto
  then have "stored ?s1 = stored d @ [r]"
    using stored_insert_rows[OF assms(1), of "[r]"] st by (simp add: bindable_all)
  then have "stored d' = stored d @ [r]" by (simp add: d')
  moreover have "db_wf d'" unfolding d' by (rule commit_wf[OF insert_rows_wf[OF assms(1)]]) simp
  ultimately show "row_placed r d d'" by (auto simp: d' row_placed_def)
qed

lemma link_row_db: "link_row L j sk pem s = (v, s1) \<Longrightarrow> a_db s1 = a_db s"
  by (auto simp: link_row_def get_next_hashes_def Let_def split: sum.splits)

lemma link_row_storable:
  "clock_ok (j_env j) \<Longrightarrow> link_row L j sk pem s = (Inr r, s1) \<Longrightarrow> storable r"
  by (auto simp: link_row_def get_next_hashes_def Let_def storable_def chat_row_def messages_bind_error_def
      clock_ok_def split: sum.splits)

lemma link_row_links:
  "link_row L j sk pem s = (Inr r, s1) \<Longrightarrow>
     m_prev_hash r = last_hash_val s \<and> row_link (last_hash_val s) r = m_record_hash r \<and>
     last_hash_val s1 = m_record_hash r"
  by (auto simp: link_row_def get_next_hashes_def Let_def chat_row_def row_link_def split: sum.splits)

lemma link_row_failed: "link_row L j sk pem s = (Inl e, s1) \<Longrightarrow> s1 = s"
  by (auto simp: link_row_def get_next_hashes_def Let_def split: sum.splits)

lemma keypair_db:
  "get_or_create_keypair E dr u s = (v, s1) \<Longrightarrow> a_db s1 = a_db s \<and> last_hash_val s1 = last_hash_val s"
  using keypair_fields[of E dr u s] by auto

section \<open>One step of a thread\<close>

text \<open>Threads that leave the data alone, and what the other regions do to it.\<close>

lemma conc_data_swap:
  assumes "conc_data d b ts" "i < length ts" "feeding t = feeding (ts ! i)" "queueing t = queueing (ts ! i)" "thread_ok t"
  shows "conc_data d b (ts[i := t])"
  using assms set_update_subset_insert[of ts i t]
  by (auto simp: conc_data_def rows_of_def flight_same)

lemma chain_move:
  assumes "conc_chain s b ts" "i < length ts" "last_hash_val s' = last_hash_val s"
    and "mset (stored (a_db s')) + mset (write_queue (a_db s')) + mset (carried t) \<subseteq>#
      mset (stored (a_db s)) + mset (write_queue (a_db s)) + mset (carried (ts ! i))"
  shows "conc_chain s' b (ts[i := t])"
proof -
  let ?rest = "flight carried (take i ts @ drop (Suc i) ts)"
  have "all_rows (a_db s') b (ts[i := t]) =
      (mset (stored (a_db s')) + mset (write_queue (a_db s')) + mset (carried t)) + (mset b + ?rest)"
    using assms(2) by (simp add: all_rows_def flight_split(2)[of i ts carried t] ac_simps)
  also have "\<dots> \<subseteq># (mset (stored (a_db s)) + mset (write_queue (a_db s)) + mset (carried (ts ! i))) + (mset b + ?rest)"
    using assms(4) by simp
  also have "\<dots> = all_rows (a_db s) b ts"
    using assms(2) by (simp add: all_rows_def flight_split(1)[of i ts carried] ac_simps)
  finally have sub: "all_rows (a_db s') b (ts[i := t]) \<subseteq># all_rows (a_db s) b ts" .
  obtain chain where "chain_intact chain" "links_back chain" "chain_tip chain = last_hash_val s"
    "all_rows (a_db s) b ts \<subseteq># mset chain"
    using assms(1) by (auto simp: conc_chain_def)
  with sub assms(3) show ?thesis unfolding conc_chain_def by (metis subset_mset.order_trans)
qed

lemma chain_link:
  assumes "conc_chain s b ts" "i < length ts" "carried (ts ! i) = []" "link_row L j sk pem s = (Inr r, s')"
  shows "conc_chain s' b (ts[i := TStart j r])"
proof -
  obtain chain where c: "chain_intact chain" "links_back chain" "chain_tip chain = last_hash_val s"
    "all_rows (a_db s) b ts \<subseteq># mset chain"
    using assms(1) by (auto simp: conc_chain_def)
  have db: "a_db s' = a_db s" by (rule link_row_db[OF assms(4)])
  note l = link_row_links[OF assms(4)]
  have "all_rows (a_db s') b (ts[i := TStart j r]) = all_rows (a_db s) b ts + {#r#}"
    using assms(2,3) db
    by (simp add: all_rows_def flight_split(2)[of i ts carried "TStart j r"] flight_split(1)[of i ts carried])
  then have "all_rows (a_db s') b (ts[i := TStart j r]) \<subseteq># mset (chain @ [r])" using c(4) by simp
  moreover have "chain_intact (chain @ [r])" "links_back (chain @ [r])" "chain_tip (chain @ [r]) = last_hash_val s'"
    using c l by (simp_all add: chain_intact_snoc links_back_snoc)
  ultimately show ?thesis unfolding conc_chain_def by blast
qed

lemma ensure_writer_stored [simp]:
  "stored (ensure_writer_started d) = stored d" "db_wf (ensure_writer_started d) = db_wf d"
  by (simp_all add: stored_def db_wf_def db_view_def get_conn_def split: option.split)

lemma conc_data_ensure [simp]: "conc_data (ensure_writer_started d) b ts = conc_data d b ts"
  by (simp add: conc_data_def rows_of_def)

lemma seen_update_stored [simp]:
  "stored (d\<lparr>seen_msg_ids := x\<rparr>) = stored d" "db_wf (d\<lparr>seen_msg_ids := x\<rparr>) = db_wf d"
  by (simp_all add: stored_def db_wf_def db_view_def get_conn_def split: option.split)

lemma feed_append_fields [simp]:
  "stored (feed_append t d) = stored d" "db_wf (feed_append t d) = db_wf d" "db_txn (feed_append t d) = db_txn d"
  "write_queue (feed_append t d) = write_queue d" "seen_msg_ids (feed_append t d) = seen_msg_ids d"
  "memory_feed (feed_append t d) = memory_feed d @ [t]"
  by (simp_all add: feed_append_def stored_def db_wf_def db_view_def get_conn_def split: option.split)

lemma thread_ok_nth: "conc_data d b ts \<Longrightarrow> i < length ts \<Longrightarrow> thread_ok (ts ! i)"
  by (simp add: conc_data_def)

lemma threads_ok_update:
  "conc_data d b ts \<Longrightarrow> thread_ok t \<Longrightarrow> \<forall>t \<in> set (ts[i := t]). thread_ok t"
  using set_update_subset_insert[of ts i t] by (auto simp: conc_data_def)

lemma seen_conc:
  assumes "conc_data d b ts" "i < length ts" "ts ! i = TSeen j r" "m_msg_id r \<notin> seen_msg_ids d"
  shows "conc_data (d\<lparr>seen_msg_ids := insert (m_msg_id r) (seen_msg_ids d)\<rparr>) b (ts[i := TFeed j r])"
proof -
  have "thread_ok (TFeed j r)" using thread_ok_nth[OF assms(1,2)] assms(3) by simp
  note ok = threads_ok_update[OF assms(1) this]
  have "flight feeding (ts[i := TFeed j r]) = flight feeding ts + {#r#}"
    using assms(2,3) by (simp add: flight_split[of i ts] flight_split(2)[of i ts _ "TFeed j r"])
  moreover have "flight queueing (ts[i := TFeed j r]) = flight queueing ts"
    using assms(2,3) by (simp add: flight_same)
  ultimately show ?thesis
    using assms(1,4) ok by (simp add: conc_data_def rows_of_def)
qed

lemma feed_conc:
  assumes "conc_data d b ts" "i < length ts" "ts ! i = TFeed j r"
  shows "conc_data (feed_append (feed_of_row r) d) b (ts[i := TQueue j r])"
proof -
  let ?rest = "take i ts @ drop (Suc i) ts"
  have "thread_ok (TQueue j r)" using thread_ok_nth[OF assms(1,2)] assms(3) by simp
  note ok = threads_ok_update[OF assms(1) this]
  have f: "flight feeding ts = flight feeding ?rest + {#r#}"
    "flight feeding (ts[i := TQueue j r]) = flight feeding ?rest"
    "flight queueing (ts[i := TQueue j r]) = flight queueing ts + {#r#}"
    using assms(2,3) by (simp_all add: flight_split[of i ts] flight_split(2)[of i ts _ "TQueue j r"])
  then show ?thesis
    using assms(1) ok by (simp add: conc_data_def rows_of_def f(1))
qed

lemma queueing_facts: "queueing t = [r] \<Longrightarrow> feeding t = [] \<and> (thread_ok t \<longrightarrow> storable r)"
  by (cases t) simp_all

lemma queueing_distinct:
  assumes "conc_data d b ts" "i < length ts" "queueing (ts ! i) = [r]"
  shows "distinct (map m_msg_id (stored d @ [r]))"
  using assms(1) by (rule conc_distinct) (use assms(2,3) in \<open>simp add: rows_of_def flight_split[of i ts queueing]\<close>)

lemma placed_conc:
  assumes "conc_data d b ts" "i < length ts" "queueing (ts ! i) = [r]" "row_placed r d d'"
    and "queueing t = []" "feeding t = []" "thread_ok t"
  shows "conc_data d' b (ts[i := t])"
proof -
  let ?rest = "take i ts @ drop (Suc i) ts"
  have q: "feeding (ts ! i) = []" "storable r"
    using queueing_facts[OF assms(3)] thread_ok_nth[OF assms(1,2)] by simp_all
  have f: "flight queueing ts = flight queueing ?rest + {#r#}" "flight queueing (ts[i := t]) = flight queueing ?rest"
    "flight feeding (ts[i := t]) = flight feeding ts"
    using assms(2,3,5,6) q(1)
    by (simp_all add: flight_split[of i ts queueing] flight_split(2)[of i ts queueing t] flight_same)
  note p = assms(4)[unfolded row_placed_def]
  have "rows_of d' b (ts[i := t]) = (mset (stored d') + mset (write_queue d')) + mset b + flight queueing ?rest"
    by (simp add: rows_of_def f(2))
  also have "\<dots> = rows_of d b ts" using p by (simp add: rows_of_def f(1))
  finally have rows: "rows_of d' b (ts[i := t]) = rows_of d b ts" .
  then show ?thesis
    using assms(1) p f(3) q(2) threads_ok_update[OF assms(1,7), of i] by (auto simp: conc_data_def)
qed

lemma read_request_quiet:
  "clock_ok env \<Longrightarrow> thread_ok (read_request env rq s)"
  "feeding (read_request env rq s) = []" "queueing (read_request env rq s) = []" "carried (read_request env rq s) = []"
  by (auto simp: read_request_def failed_def Let_def split: sum.split prod.split)

lemma failed_quiet [simp]:
  "thread_ok (failed env e)" "feeding (failed env e) = []" "queueing (failed env e) = []" "carried (failed env e) = []"
  by (simp_all add: failed_def)

lemma step_quiet:
  assumes "conc_data (a_db s) b ts" "conc_chain s b ts" "i < length ts"
    and "a_db s' = a_db s" "last_hash_val s' = last_hash_val s"
    and "feeding (ts ! i) = []" "queueing (ts ! i) = []"
    and "feeding t = []" "queueing t = []" "carried t = []" "thread_ok t"
  shows "conc_data (a_db s') b (ts[i := t]) \<and> conc_chain s' b (ts[i := t])"
  using conc_data_swap[OF assms(1,3), of t] chain_move[OF assms(2,3,5), of t] assms(4,6-11) by simp

lemma placed_step:
  assumes "conc_data (a_db s) b ts" "conc_chain s b ts" "i < length ts"
    and "queueing (ts ! i) = [r]" "carried (ts ! i) = [r]" "row_placed r (a_db s) d"
  shows "conc_data d b (ts[i := TClients j]) \<and> conc_chain (s\<lparr>a_db := d\<rparr>) b (ts[i := TClients j])"
  using placed_conc[OF assms(1,3,4,6), of "TClients j"]
    chain_move[OF assms(2,3), of "s\<lparr>a_db := d\<rparr>" "TClients j"] assms(5,6) by (simp add: row_placed_def)

lemma thread_step_conc:
  assumes "conc_data (a_db s) b ts" "conc_chain s b ts" "i < length ts" "thread_step L (ts ! i) s = (t, s')"
  shows "conc_data (a_db s') b (ts[i := t]) \<and> conc_chain s' b (ts[i := t])"
proof -
  have ok: "thread_ok (ts ! i)" by (rule thread_ok_nth[OF assms(1,3)])
  note quiet = step_quiet[OF assms(1-3), of s' t]
  show ?thesis
  proof (cases "ts ! i")
    case (TRead env rq)
    then show ?thesis using quiet assms(4) ok read_request_quiet[of env rq s] by auto
  next
    case (TKey j)
    then show ?thesis using quiet assms(4) ok keypair_db by (auto split: prod.splits sum.splits)
  next
    case (TLink j sk pem)
    obtain v s2 where l: "link_row L j sk pem s = (v, s2)" by fastforce
    show ?thesis
    proof (cases v)
      case (Inl e)
      then have "t = failed (j_env j) e" "s' = s" using TLink assms(4) l link_row_failed[of L j sk pem s e s2] by auto
      then show ?thesis using TLink quiet by simp
    next
      case (Inr r)
      then have t: "t = TStart j r" "s' = s2" using TLink assms(4) l by auto
      have "storable r" using ok TLink l Inr link_row_storable by auto
      then have "conc_data (a_db s') b (ts[i := t])"
        using conc_data_swap[OF assms(1,3), of t] TLink link_row_db[OF l] t by simp
      then show ?thesis using chain_link[OF assms(2,3), of L j sk pem r s2] TLink l Inr t by simp
    qed
  next
    case (TStart j r)
    then have t: "t = TSeen j r" "s' = s\<lparr>a_db := ensure_writer_started (a_db s)\<rparr>" using assms(4) by auto
    then show ?thesis
      using conc_data_swap[OF assms(1,3), of t] chain_move[OF assms(2,3), of s' t] TStart ok by simp
  next
    case (TSeen j r)
    show ?thesis
    proof (cases "m_msg_id r \<in> seen_msg_ids (a_db s)")
      case True
      then show ?thesis using quiet assms(4) TSeen by (auto simp: seen_add_def)
    next
      case False
      then have t: "t = TFeed j r"
          "s' = s\<lparr>a_db := (a_db s)\<lparr>seen_msg_ids := insert (m_msg_id r) (seen_msg_ids (a_db s))\<rparr>\<rparr>"
        using assms(4) TSeen by (auto simp: seen_add_def)
      then show ?thesis
        using seen_conc[OF assms(1,3) TSeen False] chain_move[OF assms(2,3), of s' t] TSeen by simp
    qed
  next
    case (TFeed j r)
    then have t: "t = TQueue j r" "s' = s\<lparr>a_db := feed_append (feed_of_row r) (a_db s)\<rparr>" using assms(4) by auto
    then show ?thesis
      using feed_conc[OF assms(1,3) TFeed] chain_move[OF assms(2,3), of s' t] TFeed by simp
  next
    case (TQueue j r)
    show ?thesis
    proof (cases "queue_put r (a_db s)")
      case None
      then have "t = TDirect j r" "s' = s" using assms(4) TQueue by auto
      then show ?thesis
        using conc_data_swap[OF assms(1,3), of t] chain_move[OF assms(2,3), of s' t] TQueue ok by simp
    next
      case (Some d)
      then have "t = TClients j" "s' = s\<lparr>a_db := d\<rparr>" using assms(4) TQueue by auto
      then show ?thesis
        using placed_step[OF assms(1-3), of r d j] queue_put_conc[OF _ _ Some] assms(1) TQueue
        by (simp add: conc_data_def)
    qed
  next
    case (TDirect j r)
    then have r: "queueing (ts ! i) = [r]" "storable r" using ok by simp_all
    obtain e d where w: "write_through r (a_db s) = (e, d)" by fastforce
    have "db_wf (a_db s)" using assms(1) by (simp add: conc_data_def)
    note placed = write_through_conc[OF this r(2) queueing_distinct[OF assms(1,3) r(1)] w]
    then have "t = TClients j" "s' = s\<lparr>a_db := d\<rparr>" using assms(4) TDirect w by auto
    then show ?thesis using placed_step[OF assms(1-3) r(1) _ placed(2), of j] TDirect by simp
  next
    case (TSend j)
    obtain sent s1 where bc: "broadcast_ws (env_send_ok (j_env j))
        (message_payload (j_user j) (j_text j) (PInt (env_now (j_env j)))) s = (sent, s1)" by fastforce
    then have "a_db s1 = a_db s" "last_hash_val s1 = last_hash_val s"
      using broadcast_fields(1,2)[of "env_send_ok (j_env j)" "message_payload (j_user j) (j_text j) (PInt (env_now (j_env j)))" s]
      by simp_all
    then show ?thesis using quiet assms(4) TSend bc by auto
  next
    case (TDone resp sent)
    then have "t = ts ! i" "s' = s" using assms(4) by auto
    then show ?thesis using assms(1,2) by simp
  qed (use quiet assms(4) ok in \<open>auto split: if_splits\<close>)
qed

section \<open>The writer\<close>

lemma get_conc:
  assumes "conc_data d b ts" "write_queue d = r # q"
  shows "conc_data (d\<lparr>write_queue := q\<rparr>) (b @ [r]) ts"
    and "all_rows (d\<lparr>write_queue := q\<rparr>) (b @ [r]) ts = all_rows d b ts"
  using assms by (auto simp: conc_data_def rows_of_def all_rows_def)

lemma flush_conc:
  assumes "conc_data d b ts" "b \<noteq> []"
  shows "conc_data (snd (writer_flush cfg b d)) [] ts"
    and "all_rows (snd (writer_flush cfg b d)) [] ts = all_rows d b ts"
proof -
  let ?d = "snd (writer_flush cfg b d)"
  have st: "\<forall>r \<in> set b. storable r" using assms(1) by (simp add: conc_data_def)
  then have good: "\<forall>r \<in> set b. messages_bind_error r = None \<and> messages_not_null r" and
    exact: "map (col_row d) b = b" using storable_facts by (auto intro: map_idI)
  have "distinct (map m_msg_id (stored d @ b))"
    using assms(1) by (rule conc_distinct) (simp add: rows_of_def add.assoc)
  note fl = writer_flush_good[OF _ good this assms(2), of cfg, unfolded exact]
  have wf: "db_wf d" using assms(1) by (simp add: conc_data_def)
  have "rows_of ?d [] ts = rows_of d b ts" using fl(1)[OF wf] by (simp add: rows_of_def)
  then show "conc_data ?d [] ts" using assms(1) fl[OF wf] by (simp add: conc_data_def)
  show "all_rows ?d [] ts = all_rows d b ts" using fl(1)[OF wf] by (simp add: all_rows_def)
qed

lemma writer_region_conc:
  assumes "conc_data d (in_hand w) ts" "w = WWait \<or> in_hand w \<noteq> []" "writer_region cfg w d = (w', d')"
  shows "conc_data d' (in_hand w') ts \<and> all_rows d' (in_hand w') ts = all_rows d (in_hand w) ts \<and>
    (w' = WWait \<or> in_hand w' \<noteq> [])"
proof (cases w)
  case WWait
  show ?thesis
  proof (cases "write_queue d")
    case Nil
    with WWait assms show ?thesis by auto
  next
    case (Cons r q)
    then show ?thesis using assms WWait get_conc[of d "[]" ts r q] by auto
  qed
next
  case (WFill b)
  show ?thesis
  proof (cases "length b < batch_limit \<and> write_queue d \<noteq> []")
    case True
    then obtain r q where q: "write_queue d = r # q" by (cases "write_queue d") auto
    with True show ?thesis using assms WFill get_conc[of d b ts r q] by auto
  next
    case False
    then have "w' = WFlush b \<and> d' = d" using assms(3) WFill by (auto split: if_splits list.splits)
    then show ?thesis using assms(1,2) WFill by simp
  qed
next
  case (WFlush b)
  then show ?thesis using assms flush_conc[of d b ts cfg] by auto
qed

section \<open>The interface of the invariant\<close>

lemma conc_start:
  assumes "rest_inv L s"
  shows "conc_data (a_db s) [] []" "conc_chain s [] []"
proof -
  have d: "db_ok (a_db s)" and h: "history_ok L (last_hash_val s) (history (a_db s))"
    using assms by (simp_all add: rest_inv_def rest_core_def)
  have f: "map feed_of_row (stored (a_db s) @ write_queue (a_db s)) = memory_feed (a_db s)"
    using db_ok_exact(1)[OF d] by (simp add: history_def)
  have i: "distinct (map f_id (memory_feed (a_db s)))" "seen_msg_ids (a_db s) = set (map f_id (memory_feed (a_db s)))"
    using d by (simp_all add: db_ok_def feed_ok_def)
  have "image_mset feed_of_row (rows_of (a_db s) [] []) = mset (memory_feed (a_db s))"
    unfolding f[symmetric] by (simp add: rows_of_def)
  moreover have "image_mset f_id (mset (memory_feed (a_db s))) = mset_set (seen_msg_ids (a_db s))"
    unfolding i(2) mset_set_set[OF i(1)] by simp
  moreover have "finite (seen_msg_ids (a_db s))" unfolding i(2) by simp
  moreover have "\<forall>r \<in> set (write_queue (a_db s)). storable r"
    using d by (simp add: db_ok_def durable_ok_def times_ok_def storable_def)
  ultimately show "conc_data (a_db s) [] []" using d by (simp add: conc_data_def db_ok_def)
  have "all_rows (a_db s) [] [] = mset (history (a_db s))" by (simp add: all_rows_def history_def)
  with h show "conc_chain s [] []"
    unfolding conc_chain_def by (intro exI[of _ "history (a_db s)"]) (simp add: history_ok_def)
qed

lemma chain_rows:
  "conc_chain s b ts \<Longrightarrow> last_hash_val s' = last_hash_val s \<Longrightarrow> all_rows (a_db s') b' ts' = all_rows (a_db s) b ts \<Longrightarrow>
     conc_chain s' b' ts'"
  by (simp add: conc_chain_def)

interpretation conc: invariant_system "conc_init L" "conc_step L cfg False" conc_inv for L cfg
proof unfold_locales
  show "conc_inv c" if "conc_init L c" for c
    using that conc_start[of L "c_app c"] rest.inv_init[of L "c_app c"]
    by (simp add: conc_init_def conc_inv_def c_batch_def)
  show "conc_inv c'" if inv: "conc_inv c" and st: "conc_step L cfg False c c'" for c c'
  proof -
    from st obtain a where act: "admitted False a" "conc_exec L cfg a c = Some c'"
      by (auto simp: conc_step_iff)
    note inv' = inv[unfolded conc_inv_def c_batch_def]
    show ?thesis
    proof (cases a)
      case (Arrive env rq)
      then have c': "c' = c\<lparr>c_threads := c_threads c @ [TEnter env rq]\<rparr>" "clock_ok env" using act by auto
      have "conc_data (a_db (c_app c)) (in_hand (c_writer c)) (c_threads c @ [TEnter env rq])"
        using inv' c'(2) by (auto simp: conc_data_def rows_of_def)
      moreover have "conc_chain (c_app c) (in_hand (c_writer c)) (c_threads c @ [TEnter env rq])"
        by (rule chain_rows[OF _ refl]) (use inv' in \<open>simp_all add: all_rows_def\<close>)
      ultimately show ?thesis using inv' by (simp add: conc_inv_def c_batch_def c'(1))
    next
      case (Run i)
      obtain t s where ts: "thread_step L (c_threads c ! i) (c_app c) = (t, s)" by fastforce
      then have c': "i < length (c_threads c)" "c' = c\<lparr>c_app := s, c_threads := (c_threads c)[i := t]\<rparr>"
        using act Run by (auto split: if_splits)
      with inv' thread_step_conc[OF _ _ c'(1) ts] show ?thesis by (simp add: conc_inv_def c_batch_def)
    next
      case RunWriter
      obtain w d where w: "writer_region cfg (c_writer c) (a_db (c_app c)) = (w, d)" by fastforce
      then have c': "c' = c\<lparr>c_app := (c_app c)\<lparr>a_db := d\<rparr>, c_writer := w\<rparr>" using act RunWriter by auto
      have "conc_data (a_db (c_app c)) (in_hand (c_writer c)) (c_threads c)"
        "c_writer c = WWait \<or> in_hand (c_writer c) \<noteq> []" using inv' by simp_all
      from writer_region_conc[OF this w] inv' show ?thesis
        by (auto simp: conc_inv_def c_batch_def c' intro: chain_rows)
    qed (use act in simp)
  qed
qed

end
