(* ===== verification/ConcRefine.thy ===== *)
theory ConcRefine
  imports Concurrency
begin

text \<open>
  The split into locked regions adds nothing and leaves nothing out: a request thread, a reset thread
  and a turn of the writer that are not interrupted end in the response, the frames and the state of
  the sequential handlers \<open>post_message\<close>, \<open>reset_state\<close> and \<open>writer_step\<close>.
\<close>

section \<open>Uninterrupted threads\<close>

lemma run_done [simp]: "run_thread n L (TDone resp sent) s = (TDone resp sent, s)"
  by (induction n) simp_all

lemma run_thread_add: "run_thread (m + n) L t s = (case run_thread m L t s of (t', s') \<Rightarrow> run_thread n L t' s')"
  by (induction m arbitrary: t s) (simp_all split: prod.split)

lemma run_leave: "run_thread (Suc (Suc n)) L (TLeave env resp sent) s =
    (TDone resp sent, s\<lparr>active_requests := active_requests s - 1,
       response_times := track_response_time (env_elapsed env) (response_times s)\<rparr>)"
  by simp

text \<open>The batch the writer fills without interruption is the one a turn of the sequential writer takes.\<close>

fun run_writer :: "nat \<Rightarrow> db_config \<Rightarrow> writer_phase \<Rightarrow> db_state \<Rightarrow> writer_phase \<times> db_state" where
  "run_writer 0 cfg w d = (w, d)"
| "run_writer (Suc n) cfg w d = (case writer_region cfg w d of (w', d') \<Rightarrow> run_writer n cfg w' d')"

lemma run_writer_fill:
  assumes "length b \<le> batch_limit"
  shows "run_writer (Suc (length (fst (fill_batch b q)) - length b)) cfg (WFill b) (d\<lparr>write_queue := q\<rparr>) =
    (WFlush (fst (fill_batch b q)), d\<lparr>write_queue := snd (fill_batch b q)\<rparr>)"
  using assms
proof (induction b q rule: fill_batch.induct)
  case (2 b r q)
  show ?case
  proof (cases "length b < batch_limit")
    case True
    have "length (fst (fill_batch (b @ [r]) q)) \<ge> Suc (length b)"
      using True by (simp add: fill_batch_eq)
    then have n: "length (fst (fill_batch (b @ [r]) q)) - length b =
        Suc (length (fst (fill_batch (b @ [r]) q)) - length (b @ [r]))" by simp
    from True 2 show ?thesis by (simp only: fill_batch.simps if_True n run_writer.simps(2)[of "Suc _"]) simp
  qed (use 2 in simp)
qed simp

lemma run_writer_add:
  "run_writer (m + n) cfg w d = (case run_writer m cfg w d of (w', d') \<Rightarrow> run_writer n cfg w' d')"
  by (induction m arbitrary: w d) (simp_all split: prod.split)

lemma run_writer_turn:
  assumes "write_queue d \<noteq> []"
  shows "run_writer (Suc (Suc (length (fst (writer_take d))))) cfg WWait d = (WWait, snd (writer_step cfg d))"
proof -
  obtain r q where q: "write_queue d = r # q" using assms by (cases "write_queue d") auto
  let ?b = "fst (fill_batch [r] q)" and ?d = "d\<lparr>write_queue := snd (fill_batch [r] q)\<rparr>"
  have take: "writer_take d = (?b, ?d)" by (simp add: writer_take_def q split_beta)
  have "1 \<le> length ?b" by (simp add: fill_batch_eq batch_limit_def)
  then have n: "Suc (Suc (length ?b)) = Suc (Suc (length ?b - length [r]) + Suc 0)" by simp
  have one: "run_writer (Suc n) cfg WWait d = run_writer n cfg (WFill [r]) (d\<lparr>write_queue := q\<rparr>)" for n
    by (simp add: q)
  have fill: "run_writer (Suc (length ?b - length [r])) cfg (WFill [r]) (d\<lparr>write_queue := q\<rparr>) = (WFlush ?b, ?d)"
    by (rule run_writer_fill) (simp add: batch_limit_def)
  show ?thesis
    unfolding take fst_conv n one run_writer_add fill by (simp add: writer_step_def take)
qed

text \<open>A request that is not interrupted ends in the response, the frames and the state of the handler.\<close>

lemma run_send: "run_thread (Suc (Suc (Suc n))) L (TSend j) s =
    (case broadcast_ws (env_send_ok (j_env j)) (message_payload (j_user j) (j_text j) (PInt (env_now (j_env j)))) s of
       (sent, s1) \<Rightarrow> run_thread (Suc (Suc n)) L (TLeave (j_env j) (job_answer j) sent) s1)"
  by (simp only: run_thread.simps(2)[of "Suc (Suc n)"] thread_step.simps split_beta fst_conv snd_conv)

lemma run_clients: "run_thread (Suc (Suc (Suc (Suc n)))) L (TClients j) s =
    (case (if ws_clients s \<noteq> []
           then broadcast_ws (env_send_ok (j_env j)) (message_payload (j_user j) (j_text j) (PInt (env_now (j_env j)))) s
           else ([], s)) of
       (sent, s1) \<Rightarrow> run_thread (Suc (Suc n)) L (TLeave (j_env j) (job_answer j) sent) s1)"
proof (cases "ws_clients s = []")
  case True
  then show ?thesis by simp
next
  case False
  then have "run_thread (Suc (Suc (Suc (Suc n)))) L (TClients j) s = run_thread (Suc (Suc (Suc n))) L (TSend j) s"
    by (simp only: run_thread.simps(2)[of "Suc (Suc (Suc n))"] thread_step.simps split_beta prod.case) simp
  with False show ?thesis by (simp only: run_send) simp
qed

text \<open>From the start of \<open>save_message\<close> to the end of the request.\<close>

definition after_save :: "job \<Rightarrow> bool res \<Rightarrow> app_state \<Rightarrow> web_response \<times> frame list \<times> app_state" where
  "after_save j v s =
     (case v of
        Inl e \<Rightarrow> (jsonify 500 [(''error'', PStr (exn_message e))], [], s)
      | Inr inserted \<Rightarrow>
          (case (if inserted \<and> ws_clients s \<noteq> []
                 then broadcast_ws (env_send_ok (j_env j))
                        (message_payload (j_user j) (j_text j) (PInt (env_now (j_env j)))) s
                 else ([], s)) of
             (sent, s1) \<Rightarrow> (job_answer j, sent, s1)))"

definition finish_request :: "app_env \<Rightarrow> web_response \<times> frame list \<times> app_state \<Rightarrow> thread \<times> app_state" where
  "finish_request env out = (case out of (resp, sent, s) \<Rightarrow>
     (TDone resp sent, s\<lparr>active_requests := active_requests s - 1,
        response_times := track_response_time (env_elapsed env) (response_times s)\<rparr>))"

lemma run_save:
  "run_thread (Suc (Suc (Suc (Suc (Suc (Suc (Suc (Suc (Suc 0))))))))) L (TStart j r) s =
     (case save_message r (a_db s) of
        (v, db) \<Rightarrow> finish_request (j_env j) (after_save j v (s\<lparr>a_db := db\<rparr>)))"
proof -
  have step: "run_thread (Suc n) L t s1 = run_thread n L t' s2" if "thread_step L t s1 = (t', s2)" for n t t' s1 s2
    using that by simp
  have fin: "run_thread (Suc (Suc n)) L (TLeave env resp sent) s1 = finish_request env (resp, sent, s1)"
    for n env resp sent s1 by (simp add: finish_request_def)
  have clients: "run_thread (Suc (Suc (Suc (Suc n)))) L (TClients j) s1 =
      finish_request (j_env j) (after_save j (Inr True) s1)" for n s1
    unfolding run_clients fin by (simp add: after_save_def split_beta)
  let ?d = "ensure_writer_started (a_db s)"
  show ?thesis
  proof (cases "m_msg_id r \<in> seen_msg_ids (a_db s)")
    case True
    then show ?thesis
      by (simp add: save_message_dup seen_add_def after_save_def finish_request_def)
  next
    case False
    let ?a = "admit r (a_db s)"
    have fed: "thread_step L (TStart j r) s = (TSeen j r, s\<lparr>a_db := ?d\<rparr>)"
      "thread_step L (TSeen j r) (s\<lparr>a_db := ?d\<rparr>) =
         (TFeed j r, s\<lparr>a_db := ?d\<lparr>seen_msg_ids := insert (m_msg_id r) (seen_msg_ids (a_db s))\<rparr>\<rparr>)"
      "thread_step L (TFeed j r) (s\<lparr>a_db := ?d\<lparr>seen_msg_ids := insert (m_msg_id r) (seen_msg_ids (a_db s))\<rparr>\<rparr>) =
         (TQueue j r, s\<lparr>a_db := ?a\<rparr>)"
      using False by (simp_all add: seen_add_def admit_def)
    show ?thesis
    proof (cases "queue_put r ?a")
      case (Some d)
      then have "thread_step L (TQueue j r) (s\<lparr>a_db := ?a\<rparr>) = (TClients j, s\<lparr>a_db := d\<rparr>)" by simp
      note run = fed[THEN step] this[THEN step]
      have "save_message r (a_db s) = (Inr True, d)"
        using Some by (simp add: save_message_fresh[OF False] enqueue_row_def)
      then show ?thesis unfolding run clients by simp
    next
      case None
      then have q: "thread_step L (TQueue j r) (s\<lparr>a_db := ?a\<rparr>) = (TDirect j r, s\<lparr>a_db := ?a\<rparr>)" by simp
      obtain e d where w: "write_through r ?a = (e, d)" by fastforce
      have sv: "save_message r (a_db s) = (case e of None \<Rightarrow> Inr True | Some x \<Rightarrow> Inl x, d)"
        using None w by (simp add: save_message_fresh[OF False] enqueue_row_def split: option.split)
      show ?thesis
      proof (cases e)
        case None
        then have "thread_step L (TDirect j r) (s\<lparr>a_db := ?a\<rparr>) = (TClients j, s\<lparr>a_db := d\<rparr>)" using w by simp
        note run = fed[THEN step] q[THEN step] this[THEN step]
        show ?thesis unfolding run clients using None by (simp add: sv)
      next
        case (Some x)
        then have "thread_step L (TDirect j r) (s\<lparr>a_db := ?a\<rparr>) = (failed (j_env j) x, s\<lparr>a_db := d\<rparr>)" using w by simp
        note run = fed[THEN step] q[THEN step] this[THEN step]
        show ?thesis unfolding run failed_def fin using Some by (simp add: sv after_save_def)
      qed
    qed
  qed
qed

lemma run_key:
  "run_thread (Suc (Suc (Suc (Suc (Suc (Suc (Suc (Suc (Suc (Suc (Suc 0))))))))))) L (TKey j) s =
     (case post_store L (j_env j) (j_user j) (j_text j) (j_id j) s of
        (v, s1) \<Rightarrow> finish_request (j_env j) (after_save j v s1))"
proof -
  have step: "run_thread (Suc n) L t s1 = run_thread n L t' s2" if "thread_step L t s1 = (t', s2)" for n t t' s1 s2
    using that by simp
  have fin: "run_thread (Suc (Suc n)) L (failed env e) s1 = finish_request env (after_save j (Inl e) s1)"
    for n env e s1 by (simp add: failed_def finish_request_def after_save_def)
  obtain k s1 where k: "get_or_create_keypair (lib_ecdsa L) (env_drawn (j_env j)) (j_user j) s = (k, s1)" by fastforce
  show ?thesis
  proof (cases k)
    case (Inl e)
    then have "thread_step L (TKey j) s = (failed (j_env j) e, s1)" using k by simp
    note run = step[OF this]
    show ?thesis unfolding run fin by (simp add: post_store_def k Inl)
  next
    case (Inr kp)
    obtain sk pem where kp: "kp = (sk, pem)" by (cases kp)
    have t1: "thread_step L (TKey j) s = (TLink j sk pem, s1)" using k Inr kp by simp
    obtain v s2 where l: "link_row L j sk pem s1 = (v, s2)" by fastforce
    have store: "post_store L (j_env j) (j_user j) (j_text j) (j_id j) s =
        (case v of Inl e \<Rightarrow> (Inl e, s2)
         | Inr r \<Rightarrow> (case save_message r (a_db s2) of (w, db) \<Rightarrow> (w, s2\<lparr>a_db := db\<rparr>)))"
      using l by (auto simp: post_store_def k Inr kp link_row_def Let_def split: sum.splits prod.splits)
    show ?thesis
    proof (cases v)
      case (Inl e)
      then have "thread_step L (TLink j sk pem) s1 = (failed (j_env j) e, s2)" using l by simp
      note run = step[OF t1] step[OF this]
      show ?thesis unfolding run fin by (simp add: store Inl)
    next
      case (Inr r)
      then have "thread_step L (TLink j sk pem) s1 = (TStart j r, s2)" using l by simp
      note run = step[OF t1] step[OF this]
      show ?thesis unfolding run run_save by (simp add: store Inr split_beta)
    qed
  qed
qed

lemma run_post:
  "run_thread 13 L (TEnter env rq) s =
     (case post_message L env rq s of (resp, sent, s') \<Rightarrow> (TDone resp sent, s'))"
proof -
  let ?s0 = "s\<lparr>active_requests := active_requests s + 1\<rparr>"
  let ?eleven = "Suc (Suc (Suc (Suc (Suc (Suc (Suc (Suc (Suc (Suc (Suc 0))))))))))"
  have n: "(13 :: nat) = Suc (Suc ?eleven)" by simp
  have start: "run_thread 13 L (TEnter env rq) s = run_thread ?eleven L (read_request env rq ?s0) ?s0"
    unfolding n by (simp only: run_thread.simps(2)[of "Suc ?eleven"] run_thread.simps(2)[of ?eleven] thread_step.simps prod.case)
  have fin: "run_thread ?eleven L (TLeave env resp sent) ?s0 = finish_request env (resp, sent, ?s0)" for resp sent
    by (simp add: finish_request_def)
  have post: "post_message L env rq s = (resp, sent, s1\<lparr>active_requests := active_requests s1 - 1,
        response_times := track_response_time (env_elapsed env) (response_times s1)\<rparr>)"
    if "post_body L env rq ?s0 = (v, sent, s1)"
      and "resp = (case v of Inr w \<Rightarrow> w | Inl e \<Rightarrow> jsonify 500 [(''error'', PStr (exn_message e))])" for v resp sent s1
    using that by (simp add: post_message_def)
  show ?thesis
  proof (cases "\<exists>j. read_request env rq ?s0 = TKey j")
    case False
    then obtain resp where r: "read_request env rq ?s0 = TLeave env resp []"
      and "post_body L env rq ?s0 = (case post_fields rq of Inl e \<Rightarrow> Inl e | Inr _ \<Rightarrow> Inr resp, [], ?s0)"
      and "\<And>e. post_fields rq = Inl e \<Longrightarrow> resp = jsonify 500 [(''error'', PStr (exn_message e))]"
      by (auto simp: read_request_def post_body_def failed_def Let_def split: sum.splits if_splits)
    then have "post_message L env rq s = (resp, [], ?s0\<lparr>active_requests := active_requests ?s0 - 1,
        response_times := track_response_time (env_elapsed env) (response_times ?s0)\<rparr>)"
      by (intro post) (auto split: sum.splits)
    then show ?thesis unfolding start r fin by (simp add: finish_request_def)
  next
    case True
    then obtain u m g i where f: "post_fields rq = Inr (u, m, g)" "u \<noteq> []" "m \<noteq> []"
      and i: "i = (if g = [] then env_uuid env else g)" "\<not> message_exists i (a_db ?s0)"
      by (auto simp: read_request_def failed_def Let_def split: sum.splits if_splits)
    let ?j = "\<lparr>j_env = env, j_user = u, j_text = m, j_id = i\<rparr>"
    have r: "read_request env rq ?s0 = TKey ?j" using f i by (simp add: read_request_def)
    obtain v s1 where st: "post_store L env u m i ?s0 = (v, s1)" by fastforce
    obtain resp sent s2 where a: "after_save ?j v s1 = (resp, sent, s2)" by (metis prod_cases3)
    have "post_body L env rq ?s0 = (case v of Inl e \<Rightarrow> Inl e | Inr _ \<Rightarrow> Inr resp, sent, s2)"
      using f i st a by (auto simp: post_body_def Let_def after_save_def job_answer_def split_beta split: sum.splits)
    then have "post_message L env rq s = (resp, sent, s2\<lparr>active_requests := active_requests s2 - 1,
        response_times := track_response_time (env_elapsed env) (response_times s2)\<rparr>)"
      using a by (intro post) (auto simp: after_save_def split: sum.splits)
    then show ?thesis unfolding start r run_key by (simp add: st a finish_request_def)
  qed
qed

text \<open>So does a reset.\<close>

lemma run_reset:
  "run_thread (length (write_queue (a_db s)) + 6) L RDrain s = (TDone (fst (reset_state s)) [], snd (reset_state s))"
proof -
  have six: "(6 :: nat) = Suc (Suc (Suc (Suc (Suc (Suc 0)))))" by simp
  have drain: "run_thread (length q + n) L RDrain (s\<lparr>a_db := d\<lparr>write_queue := q\<rparr>\<rparr>) =
      run_thread n L RDrain (s\<lparr>a_db := d\<lparr>write_queue := []\<rparr>\<rparr>)" for q d n
    by (induction q) simp_all
  have "run_thread (length (write_queue (a_db s)) + 6) L RDrain s =
      run_thread 6 L RDrain (s\<lparr>a_db := (a_db s)\<lparr>write_queue := []\<rparr>\<rparr>)"
    using drain[of "write_queue (a_db s)" 6 "a_db s"] by simp
  then show ?thesis unfolding six by (simp add: reset_state_def reset_db_def Let_def)
qed

end
