(* ===== verification/ConcProps.thy ===== *)
theory ConcProps
  imports ConcInv ConcRefine
begin

text \<open>
  The properties of the threaded process: however the threads and the writer are interleaved, no
  message is lost or doubled while no reset runs and all messages hang in one unforked hash chain; and
  the two things interleaving does break, the order of the chain in the table and a reset that overlaps
  a turn of the writer, each shown by a run.
\<close>

section \<open>Every interleaving\<close>

lemma flight_done:
  "\<forall>t \<in> set ts. \<exists>resp sent. t = TDone resp sent \<Longrightarrow> flight queueing ts = {#} \<and> flight feeding ts = {#}"
  by (induction ts) (auto simp: flight_def)

text \<open>
  C4: However the threads of POST /message and the writer are interleaved, as long as no reset runs: the feed
  and the table never hold an id twice, whatever is on disk, in the writer's hand or queued is a
  message of the feed, and once all threads have answered and the writer is idle, the committed table
  and the feed hold the same messages.
\<close>
theorem interleaving_loses_nothing:
  assumes "reach (conc_init L) (conc_step L cfg False) c"
    and "d = a_db (c_app c)"
  shows "distinct (map f_id (memory_feed d)) \<and> distinct (map m_msg_id (stored d)) \<and>
    set (map feed_of_row (stored d @ c_batch c @ write_queue d)) \<subseteq> set (memory_feed d) \<and>
    set (map f_id (memory_feed d)) \<subseteq> seen_msg_ids d \<and>
    ((\<forall>t \<in> set (c_threads c). \<exists>resp sent. t = TDone resp sent) \<and> c_batch c = [] \<and> write_queue d = [] \<longrightarrow>
       mset (map feed_of_row (committed d)) = mset (memory_feed d) \<and>
       set (map f_id (memory_feed d)) = seen_msg_ids d)"
proof -
  let ?b = "c_batch c" and ?ts = "c_threads c"
  have inv: "conc_data d ?b ?ts" using conc.reach_inv[OF assms(1)] by (simp add: conc_inv_def assms(2))
  note ids = inv[unfolded conc_data_def]
  have fin: "finite (seen_msg_ids d)" using ids by simp
  have st: "distinct (map m_msg_id (stored d))"
    using conc_distinct[OF inv, of "[]"] by (simp add: rows_of_def add.assoc)
  have "set_mset (image_mset feed_of_row (rows_of d ?b ?ts)) = set (memory_feed d)" using ids by simp
  then have sub: "set (map feed_of_row (stored d @ ?b @ write_queue d)) \<subseteq> set (memory_feed d)"
    by (auto simp: rows_of_def)
  have sum: "image_mset f_id (mset (memory_feed d)) + image_mset m_msg_id (flight feeding ?ts) = mset_set (seen_msg_ids d)"
    using ids by simp
  from arg_cong[OF sum, of set_mset] have seen: "set (map f_id (memory_feed d)) \<subseteq> seen_msg_ids d"
    using fin by auto
  have "mset (map feed_of_row (committed d)) = mset (memory_feed d) \<and> set (map f_id (memory_feed d)) = seen_msg_ids d"
    if "\<forall>t \<in> set ?ts. \<exists>resp sent. t = TDone resp sent" "?b = []" "write_queue d = []"
  proof -
    have fl: "flight queueing ?ts = {#}" "flight feeding ?ts = {#}" using flight_done[OF that(1)] by simp_all
    have "committed d = stored d" using ids by (simp add: committed_def stored_def db_view_def get_conn_def)
    then have "mset (map feed_of_row (committed d)) = image_mset feed_of_row (rows_of d ?b ?ts)"
      using that fl by (simp add: rows_of_def)
    moreover from arg_cong[OF sum, of set_mset] fl fin have "set (map f_id (memory_feed d)) = seen_msg_ids d" by simp
    ultimately show ?thesis using ids by simp
  qed
  with conc_ids(2)[OF inv] st sub seen show ?thesis by blast
qed


section \<open>Two runs\<close>

definition conc_start_state :: conc_state where
  "conc_start_state = \<lparr>c_app = app_start empty_db, c_threads = [], c_writer = WWait\<rparr>"

definition toy_post :: "string \<Rightarrow> string \<Rightarrow> action" where
  "toy_post u i = Arrive toy_env (form_request u ''hi'' i)"

definition toy_answer :: "string \<Rightarrow> string \<Rightarrow> web_response" where
  "toy_answer u i = ok_answer ''ok'' i u ''hi'' [(''timestamp'', PInt (env_now toy_env))]"

lemma conc_start_reach: "reach (conc_init L) (conc_step L cfg resets) conc_start_state"
  by (rule reach_init) (simp add: conc_init_def conc_start_state_def start_empty)

lemma toy_post_admitted: "admitted resets (toy_post u i)"
  by (simp add: toy_post_def toy_ok)

lemma toy_fields:
  "post_fields (form_request ''bob'' ''hi'' ''a'') = Inr (''bob'', ''hi'', ''a'')"
  "post_fields (form_request ''eve'' ''hi'' ''b'') = Inr (''eve'', ''hi'', ''b'')"
  by code_simp+

lemma toy_steps:
  "public_key_to_pem (lib_ecdsa toy_libs) (ec_public (lib_ecdsa toy_libs) (env_drawn toy_env)) = Inr ''PPP''"
  "encrypt_text (lib_fernet toy_libs) (lib_key toy_libs) seed ''hi'' = Inr ''aGk=''"
proof -
  show "public_key_to_pem (lib_ecdsa toy_libs) (ec_public (lib_ecdsa toy_libs) (env_drawn toy_env)) = Inr ''PPP''"
    by code_simp
  have "encrypt_text (lib_fernet toy_libs) (lib_key toy_libs) 0 ''hi'' = Inr ''aGk=''" by code_simp
  then show "encrypt_text (lib_fernet toy_libs) (lib_key toy_libs) seed ''hi'' = Inr ''aGk=''"
    by (simp add: encrypt_text_def toy_libs_def toy_fernet_def)
qed

lemma env_now_toy: "env_now toy_env = 1700000000000"
  by (simp add: toy_env_def)

lemma start_app:
  "app_start empty_db = \<lparr>a_db = \<lparr>db_disk = \<lparr>img_messages = empty_table, img_users = []\<rparr>, db_txn = None,
     conn_pid = Some 100, os_pid = 100, seen_msg_ids = {}, memory_feed = [], write_queue = [],
     writer_started = True, sql_lit = sql_lit empty_db\<rparr>, active_requests = 0, response_times = [],
     cpu_sampler = cpu_start, keypair_cache = [], last_hash_val = GENESIS_HASH, ws_clients = [],
     ws_client_keys = []\<rparr>"
  using last_hash_tip[of "init_db empty_db"] init_db_ok[of empty_db]
  by (simp add: app_start_def chain_tip_def)
    (simp add: init_db_def Let_def get_conn_def empty_db_def ensure_writer_started_def
      sql_select_by_id_def empty_table_def)

lemmas start_simps = conc_start_state_def toy_post_def toy_answer_def ok_answer_def job_answer_def toy_cfg_def
  start_app toy_steps toy_fields committed_def Let_def

text \<open>Two posts: the first takes its hash, the second takes its own and finishes before the first goes on.\<close>

definition racing_posts :: "action list" where
  "racing_posts = [toy_post ''bob'' ''a'', toy_post ''eve'' ''b'',
     Run 0, Run 0, Run 0, Run 0,
     Run 1, Run 1, Run 1, Run 1, Run 1, Run 1, Run 1, Run 1, Run 1, Run 1, Run 1,
     Run 0, Run 0, Run 0, Run 0, Run 0, Run 0, Run 0,
     RunWriter, RunWriter, RunWriter, RunWriter]"

lemma racing_posts_run:
  "\<exists>c r1 r2. conc_run toy_libs toy_cfg racing_posts conc_start_state = Some c \<and>
     c_threads c = [TDone (toy_answer ''bob'' ''a'') [], TDone (toy_answer ''eve'' ''b'') []] \<and>
     c_batch c = [] \<and> write_queue (a_db (c_app c)) = [] \<and>
     committed (a_db (c_app c)) = [r2, r1] \<and> memory_feed (a_db (c_app c)) = [feed_of_row r2, feed_of_row r1] \<and>
     m_prev_hash r1 = GENESIS_HASH \<and> m_prev_hash r2 = m_record_hash r1 \<and> last_hash_val (c_app c) = m_record_hash r2"
  by (simp add: racing_posts_def start_simps run_defs env_now_toy)

theorem interleaving_loses_nothing_witness:
  "\<exists>c. conc_run toy_libs toy_cfg racing_posts conc_start_state = Some c \<and>
     distinct (map f_id (memory_feed (a_db (c_app c)))) \<and>
     mset (map feed_of_row (committed (a_db (c_app c)))) = mset (memory_feed (a_db (c_app c)))"
proof -
  obtain c where run: "conc_run toy_libs toy_cfg racing_posts conc_start_state = Some c"
    and c: "c_threads c = [TDone (toy_answer ''bob'' ''a'') [], TDone (toy_answer ''eve'' ''b'') []]" "c_batch c = []"
      "write_queue (a_db (c_app c)) = []"
    using racing_posts_run by blast
  have "list_all (admitted False) racing_posts"
    by (simp add: racing_posts_def toy_post_admitted)
  from interleaving_loses_nothing[OF conc_run_reach[OF conc_start_reach this run] refl] c run show ?thesis
    by auto
qed


text \<open>
  C15: Taking the next hash and saving the message are two regions, so two concurrent posts can reach
  the table against the order of the chain. There is a run, both requests answered and everything
  written, whose table holds first the message linked to the second one and then the one linked to
  the genesis hash; the table is then linked only if the hashes of both are the genesis hash.
\<close>
theorem concurrent_posts_break_chain:
  "\<exists>c r1 r2. reach (conc_init toy_libs) (conc_step toy_libs toy_cfg False) c \<and>
     c_threads c = [TDone (toy_answer ''bob'' ''a'') [], TDone (toy_answer ''eve'' ''b'') []] \<and>
     c_batch c = [] \<and> write_queue (a_db (c_app c)) = [] \<and>
     committed (a_db (c_app c)) = [r2, r1] \<and> last_hash_val (c_app c) = m_record_hash r2 \<and>
     m_prev_hash r1 = GENESIS_HASH \<and> m_prev_hash r2 = m_record_hash r1 \<and>
     links_back (committed (a_db (c_app c))) = (m_record_hash r1 = GENESIS_HASH \<and> m_record_hash r2 = GENESIS_HASH)"
proof -
  obtain c r1 r2 where run: "conc_run toy_libs toy_cfg racing_posts conc_start_state = Some c"
    and c: "c_threads c = [TDone (toy_answer ''bob'' ''a'') [], TDone (toy_answer ''eve'' ''b'') []]" "c_batch c = []"
      "write_queue (a_db (c_app c)) = []" "committed (a_db (c_app c)) = [r2, r1]" "last_hash_val (c_app c) = m_record_hash r2"
      "m_prev_hash r1 = GENESIS_HASH" "m_prev_hash r2 = m_record_hash r1"
    using racing_posts_run by blast
  have "list_all (admitted False) racing_posts"
    by (simp add: racing_posts_def toy_post_admitted)
  from conc_run_reach[OF conc_start_reach this run] c show ?thesis
    by (intro exI[of _ c] exI[of _ r1] exI[of _ r2]) (auto simp: links_back_def)
qed

text \<open>A post is answered, the writer takes its row, a reset runs to its end, the writer goes on.\<close>

definition reset_answer :: web_response where
  "reset_answer = jsonify 200 [(''status'', PStr ''ok''), (''message'', PStr ''database reset complete'')]"

definition reset_during_flush :: "action list" where
  "reset_during_flush = [toy_post ''bob'' ''a'',
     Run 0, Run 0, Run 0, Run 0, Run 0, Run 0, Run 0, Run 0, Run 0, Run 0, Run 0, RunWriter,
     ArriveReset, Run 1, Run 1, Run 1, Run 1, Run 1, Run 1, RunWriter, RunWriter]"

lemma reset_during_flush_run:
  "\<exists>c r. conc_run toy_libs toy_cfg reset_during_flush conc_start_state = Some c \<and>
     c_threads c = [TDone (toy_answer ''bob'' ''a'') [], TDone reset_answer []] \<and>
     c_batch c = [] \<and> write_queue (a_db (c_app c)) = [] \<and>
     memory_feed (a_db (c_app c)) = [] \<and> seen_msg_ids (a_db (c_app c)) = {} \<and>
     committed (a_db (c_app c)) = [r] \<and> m_msg_id r = ''a'' \<and> last_hash_val (c_app c) = replicate 64 (CHR ''0'')"
  by (simp add: reset_during_flush_def reset_answer_def start_simps run_defs env_now_toy)

text \<open>
  C16: A reset does not reach the batch in the writer's hand. There is a run in which the reset has
  been answered and the feed, the known ids and the queue are empty, but a message of before the
  reset is in the committed table, and the next start of the process shows it again.
\<close>
theorem reset_misses_writer_batch:
  "\<exists>c r. reach (conc_init toy_libs) (conc_step toy_libs toy_cfg True) c \<and>
     c_threads c = [TDone (toy_answer ''bob'' ''a'') [], TDone reset_answer []] \<and>
     c_batch c = [] \<and> write_queue (a_db (c_app c)) = [] \<and>
     memory_feed (a_db (c_app c)) = [] \<and> \<not> message_exists ''a'' (a_db (c_app c)) \<and>
     last_hash_val (c_app c) = GENESIS_HASH \<and>
     committed (a_db (c_app c)) = [r] \<and> m_msg_id r = ''a'' \<and>
     memory_feed (init_db (a_db (c_app c))) = [feed_of_row r]"
proof -
  obtain c r where run: "conc_run toy_libs toy_cfg reset_during_flush conc_start_state = Some c"
    and c: "c_threads c = [TDone (toy_answer ''bob'' ''a'') [], TDone reset_answer []]" "c_batch c = []"
      "write_queue (a_db (c_app c)) = []" "memory_feed (a_db (c_app c)) = []" "seen_msg_ids (a_db (c_app c)) = {}"
      "committed (a_db (c_app c)) = [r]" "m_msg_id r = ''a''" "last_hash_val (c_app c) = replicate 64 (CHR ''0'')"
    using reset_during_flush_run by blast
  have "list_all (admitted True) reset_during_flush"
    by (simp add: reset_during_flush_def toy_post_admitted)
  note reached = conc_run_reach[OF conc_start_reach this run]
  obtain i where "tbl_rows (img_messages (db_disk (a_db (c_app c)))) = [(i, r)]"
    using c(6) by (cases "tbl_rows (img_messages (db_disk (a_db (c_app c))))") (auto simp: committed_def contents_def)
  then have "memory_feed (init_db (a_db (c_app c))) = [feed_of_row r]"
    by (simp add: init_db_def Let_def sql_select_by_id_def)
  with reached c show ?thesis
    by (intro exI[of _ c] exI[of _ r]) (simp add: message_exists_def GENESIS_HASH_def)
qed

end
