(* ===== verification/Spec2Isabelle.thy ===== *)
theory Spec2Isabelle
  imports AppProps WsProps ServiceProps DbFaults ConcProps
begin

text \<open>
  A verification development of a replicated chat backend.

  \<^bold>\<open>The program.\<close> A backend process (app.py) accepts messages over HTTP and over WebSockets. A message
  gets an ECDSA signature under a key pair the process keeps for its sender (signatures.py), a Fernet
  ciphertext (crypto_utils.py) and a place in a SHA-256 hash chain (integrity.py), and is saved by
  db.py: at once in memory (the set of known ids and the feed that GET /feed serves), later on disk
  by a background thread that takes batches of up to 200 rows off a queue, inserts them into SQLite
  and posts them to a central service (dbservice/main.py). A load balancer in Go, a load generator in
  Go and a browser page stand in front of the backends and are not modelled.

  \<^bold>\<open>Theories and what they model.\<close>
  \<^item> Prelude: dictionaries as insertion-ordered association lists, results, reachable states and the
    interface \<open>invariant_system\<close>.
  \<^item> PyVal, PyText: the part of Python the source uses. Values, truth, \<open>or\<close>, \<open>str\<close>, \<open>repr\<close>, \<open>int\<close>,
    \<open>strip\<close>, \<open>split\<close>, UTF-8, \<open>json.dumps\<close>, exceptions as the left side of a sum. Characters are the
    code points up to U+00FF. Sha256 and Base64 define the two library algorithms the code relies on.
  \<^item> MessageRow, SqlTable: rows and tables. SqlTable states the SQL the source issues and the interface
    \<open>row_store\<close> of a table that ignores known keys. SqlAffinity: what a column declared INTEGER makes of
    the value bound to it.
  \<^item> Integrity: integrity.py, with the interface \<open>hash_chain\<close>. CryptoUtils: crypto_utils.py.
    Signatures: signatures.py. Fernet and ECDSA are records of functions, parameters of every
    definition; what the code relies on is named by predicates such as \<open>fernet_roundtrip\<close> and
    \<open>ecdsa_correct\<close>, and each has a concrete instance for the witnesses.
  \<^item> Db: db.py, operation by operation, over \<open>db_state\<close>: the committed file \<open>db_disk\<close>, the open
    transaction \<open>db_txn\<close>, the known ids, the feed and the queue. The timestamp column converts what is
    bound to it; how the linked SQLite reads a numeric literal with a fraction or an exponent is the
    parameter \<open>sql_lit\<close>. DbInv: its invariants, the interpretation of \<open>row_store\<close>, and of \<open>message_log\<close>
    (theory MessageLog). Writer: the writer thread, one turn split into taking and flushing a batch.
  \<^item> Metrics: the load metrics of app.py. App: the state and the REST handlers of app.py. WebSocket: the
    socket handler. Serve: the requests as steps of one process. DbService: dbservice/main.py, a second
    interpretation of \<open>row_store\<close>.
  \<^item> Concurrency: POST /message and POST /reset-state as threads whose steps are the locked regions of
    the code, and the writer, one \<open>get\<close> or flush at a time; ConcRefine: uninterrupted, they are the
    sequential handlers.

  \<^bold>\<open>What is shown.\<close>
  \<^item> Integrity: what \<open>verify_chain\<close> decides, what it commits to and what it does not see.
  \<^item> DbProps, DbFaults: saving a message on every branch, runs of saves, that the writer commits the
    feed and a restart restores it, up to what the INTEGER column makes of a timestamp; what a reset
    clears; the full queue, batch ingestion, and a row that cannot be bound.
  \<^item> AppInv, AppProps: the invariant of a process that serves its requests one after the other, as an
    interpretation of \<open>invariant_system\<close>; what POST /message answers, retries, cleanup, the key cache,
    reset and restart. The invariant holds for the requests that stay within the hash chain of the
    process (\<open>in_chain\<close>): batches, chat messages over a socket and overlapping posts break the chain,
    and three theorems show how.
  \<^item> WsProps: the registry of sockets, broadcasts, names, and that a socket message leaves the chain.
  \<^item> ServiceProps: ingestion of a replicated batch and which batches reach the service.
  \<^item> ConcInv, ConcProps: the second interpretation of \<open>invariant_system\<close>. Without resets no interleaving
    loses or doubles a message or forks the chain; two runs show that concurrent posts break the order
    of the chain in the table and that a reset misses the batch in the writer's hand.
  \<^item> This theory: the history a process has served is tamper evident.

  \<^bold>\<open>Bounds.\<close> The queue holds 200000 rows (\<open>write_queue_maxsize\<close>). The sequential results assume it has
  room and that the clock is a 64-bit integer; the results on interleavings cover the full queue, whose
  fallback is a region of its own. A writer turn takes 200 rows (\<open>batch_limit\<close>), so \<open>n\<close> turns empty a
  queue of at most \<open>200 n\<close> rows; \<open>writer_run\<close>, \<open>run_thread\<close> and \<open>run_writer\<close> count turns and regions,
  and the theorems state how many are enough (13 regions for a post).

  \<^bold>\<open>Not modelled.\<close> Flask, the socket library and \<open>json.loads\<close> (a request is what they make of it), I/O
  errors of SQLite, its pragmas and indexes, floating-point rounding (exact rationals stand for floats,
  \<open>round\<close> rounds half to even), code points above U+00FF, process start and static files. Sockets,
  batches and readers are not threads of the concurrent model.

  \<^bold>\<open>Plan.\<close> Next: a JSON parser and the round trip of the feed and of replicated batches; the Go load
  balancer (routing, fan-out of writes, its own feed store); WebSocket handlers as threads of the
  concurrent process.
\<close>

section \<open>A property of the whole\<close>

text \<open>
  C2: The stored history is tamper evident. Let a backend have started and served requests as in the
  property on the served history (one at a time, no batches, no chat messages over a socket), and let
  its writer catch up. Replace its table by any rows that pass \<open>verify_chain\<close>, end in
  the hash the process remembers, have no bar in ciphertext or signature and an integer as timestamp
  (\<open>row_clean\<close>), and are as many as before, or else no payload hashes to the genesis hash. Then, unless
  SHA-256 has a collision among the payloads involved, the replaced rows have the user names,
  ciphertexts, signatures, timestamps and hashes of the original ones, and decrypt, one by one, to the
  texts of the feed.
\<close>
theorem served_history_tamper_evident:
  assumes "reach (rest_init L) (rest_step L cfg) s" "length (write_queue (a_db s)) \<le> n * batch_limit"
    and "rows = committed (writer_run cfg n (a_db s))"
    and "list_all (\<lambda>b. b) (verify_chain rows')" "chain_tip rows' = last_hash_val s" "list_all row_clean rows'"
    and "inj_on sha256_hexdigest (set (chain_payloads rows) \<union> set (chain_payloads rows'))"
    and "length rows = length rows' \<or>
      GENESIS_HASH \<notin> sha256_hexdigest ` (set (chain_payloads rows) \<union> set (chain_payloads rows'))"
  shows "map hashed_fields rows' = map hashed_fields rows \<and>
    map (\<lambda>r. decrypt_text (lib_fernet L) (lib_key L) (m_ciphertext r)) rows' =
      map (\<lambda>t. Inr (Some (f_plaintext t))) (memory_feed (a_db s))"
proof -
  have inv: "rest_inv L s" using rest.reach_inv assms(1) .
  then have d: "db_ok (a_db s)" and h: "history_ok L (last_hash_val s) (history (a_db s))"
    by (simp_all add: rest_inv_def rest_core_def)
  have rows: "rows = history (a_db s)" using committed_history[OF d assms(2)] assms(3) by simp
  have feed: "memory_feed (a_db s) = map feed_of_row rows" using db_ok_exact(1)[OF d] by (simp add: rows)
  have gen: "list_all (row_genuine L) rows" using h by (simp add: rows history_ok_def)
  then have clean: "list_all row_clean rows" by (simp add: list_all_iff row_genuine_def)
  have same: "map hashed_fields rows = map hashed_fields rows'"
    using intact_commits[of rows rows'] assms(4-8) h clean by (simp add: rows history_ok_def chain_intact_def)
  have "map m_ciphertext rs = map (\<lambda>f. fst (snd f)) (map hashed_fields rs)" for rs
    by (simp add: hashed_fields_def)
  then have "map m_ciphertext rows' = map m_ciphertext rows" by (simp only: same)
  then have "map (\<lambda>r. decrypt_text (lib_fernet L) (lib_key L) (m_ciphertext r)) rows' =
      map (\<lambda>r. decrypt_text (lib_fernet L) (lib_key L) (m_ciphertext r)) rows"
    by (metis (no_types, lifting) map_map map_eq_conv o_apply)
  also have "\<dots> = map (\<lambda>t. Inr (Some (f_plaintext t))) (memory_feed (a_db s))"
    using gen by (auto simp: feed list_all_iff row_genuine_def)
  finally show ?thesis using same by simp
qed

theorem served_history_tamper_evident_witness:
  "\<exists>r. committed (writer_run toy_cfg 1 (a_db (snd (snd first_post)))) = [r] \<and>
     map hashed_fields [r\<lparr>m_plaintext := ''edited''\<rparr>] = map hashed_fields [r] \<and>
     decrypt_text (lib_fernet toy_libs) (lib_key toy_libs) (m_ciphertext (r\<lparr>m_plaintext := ''edited''\<rparr>)) =
       Inr (Some ''hi'')"
proof -
  let ?s = "snd (snd first_post)"
  have d: "db_ok (a_db ?s)" and h: "history_ok toy_libs (last_hash_val ?s) (history (a_db ?s))"
    using first_post_facts(1) by (simp_all add: rest_inv_def rest_core_def)
  have q: "length (write_queue (a_db ?s)) \<le> 1 * batch_limit"
    using first_post_facts(3) by (simp add: batch_limit_def)
  have rows: "committed (writer_run toy_cfg 1 (a_db ?s)) = history (a_db ?s)" by (rule committed_history[OF d q])
  have "map feed_of_row (history (a_db ?s)) = memory_feed (a_db ?s)" by (rule db_ok_exact(1)[OF d])
  then obtain r where r: "history (a_db ?s) = [r]"
    using first_post_facts(2) by (auto simp: map_eq_Cons_conv)
  have c: "committed (writer_run toy_cfg 1 (a_db ?s)) = [r]" by (simp only: rows r)
  let ?r' = "r\<lparr>m_plaintext := ''edited''\<rparr>"
  have "chain_intact [r]" "chain_tip [r] = last_hash_val ?s" "row_clean r"
    using h r by (simp_all add: history_ok_def row_genuine_def)
  moreover have "row_link p ?r' = row_link p r" for p by (simp add: row_link_def)
  ultimately have r': "list_all (\<lambda>b. b) (verify_chain [?r'])" "chain_tip [?r'] = last_hash_val ?s"
      "list_all row_clean [?r']"
    using chain_intact_snoc[of "[]" r] chain_intact_snoc[of "[]" ?r']
    by (simp_all add: chain_intact_def[symmetric] chain_tip_def row_clean_def)
  have "set (chain_payloads [r]) \<union> set (chain_payloads [?r']) = set (chain_payloads [r])"
    by (simp add: chain_payloads_def)
  then have inj: "inj_on sha256_hexdigest (set (chain_payloads [r]) \<union> set (chain_payloads [?r']))"
    by (simp add: chain_payloads_def)
  have "map hashed_fields [?r'] = map hashed_fields [r] \<and>
    map (\<lambda>r. decrypt_text (lib_fernet toy_libs) (lib_key toy_libs) (m_ciphertext r)) [?r'] =
      map (\<lambda>t. Inr (Some (f_plaintext t))) (memory_feed (a_db ?s))"
    by (rule served_history_tamper_evident[OF first_post_facts(4) q c[symmetric] r' inj]) simp
  then show ?thesis using c first_post_facts(2) by (intro exI[of _ r] conjI) simp_all
qed

end
